(* ===== verification/Go_Prelude.thy ===== *)
theory Go_Prelude
  imports Main "HOL-Library.Sublist" "HOL-Library.Char_ord" "HOL-Library.List_Lexorder"
    "HOL-Library.AList"
begin

section \<open>Prelude: what the components use of Go and its library\<close>

text \<open>
  A Go string is a sequence of bytes, and so is an Isabelle \<^typ>\<open>string\<close>: a list of
  8-bit characters. This theory holds the functions of package \<open>strings\<close> the sources call, on
  the argument shapes they are called with, Go maps as association lists, sorting, and the
  lemmas the component theories share.
  \<^item> A separator or a cut set the sources pass is always ASCII, so a byte-wise reading is exact.
  \<^item> A Go map \<open>map[K]V\<close> is an association list with distinct keys. Ranging over a map is
    ranging over the list; Go leaves the order open, and a theorem about every such list covers
    every order.
  \<^item> \<open>strings.ToLower\<close> is exact on ASCII strings; what it does to a string with a byte
    above 127 is Unicode's case table, an argument of every definition that calls it.
\<close>

named_theorems go_simps \<open>string functions of the sources, unfolded\<close>

type_synonym ('k, 'v) gomap = "('k \<times> 'v) list"

subsection \<open>Prefixes, suffixes, cutting\<close>

definition HasPrefix :: "string \<Rightarrow> string \<Rightarrow> bool" where
  "HasPrefix s p \<longleftrightarrow> prefix p s"

definition HasSuffix :: "string \<Rightarrow> string \<Rightarrow> bool" where
  "HasSuffix s p \<longleftrightarrow> suffix p s"

definition TrimPrefix :: "string \<Rightarrow> string \<Rightarrow> string" where
  "TrimPrefix s p = (if HasPrefix s p then drop (length p) s else s)"

definition TrimSuffix :: "string \<Rightarrow> string \<Rightarrow> string" where
  "TrimSuffix s p = (if HasSuffix s p then take (length s - length p) s else s)"

definition CutPrefix :: "string \<Rightarrow> string \<Rightarrow> string \<times> bool" where
  "CutPrefix s p = (if HasPrefix s p then (drop (length p) s, True) else (s, False))"

text \<open>\<open>strings.Cut\<close> with a separator of one byte: before, after, found.\<close>

definition Cut :: "string \<Rightarrow> char \<Rightarrow> string \<times> string \<times> bool" where
  "Cut s c = (if c \<in> set s
     then (takeWhile (\<lambda>x. x \<noteq> c) s, tl (dropWhile (\<lambda>x. x \<noteq> c) s), True)
     else (s, [], False))"

text \<open>\<open>strings.Split\<close> with a separator of one byte: never empty, \<open>[""]\<close> for the empty string.\<close>

fun Split :: "string \<Rightarrow> char \<Rightarrow> string list" where
  "Split [] c = [[]]"
| "Split (x # xs) c =
     (if x = c then [] # Split xs c
      else (case Split xs c of [] \<Rightarrow> [[x]] | p # ps \<Rightarrow> (x # p) # ps))"

fun Join :: "string list \<Rightarrow> string \<Rightarrow> string" where
  "Join [] sep = []"
| "Join [x] sep = x"
| "Join (x # y # ys) sep = x @ sep @ Join (y # ys) sep"

text \<open>\<open>strings.ReplaceAll\<close> of one byte by another.\<close>

definition ReplaceAll :: "string \<Rightarrow> char \<Rightarrow> char \<Rightarrow> string" where
  "ReplaceAll s a b = map (\<lambda>x. if x = a then b else x) s"

definition ContainsAny :: "string \<Rightarrow> string \<Rightarrow> bool" where
  "ContainsAny s cs \<longleftrightarrow> list_ex (\<lambda>x. x \<in> set cs) s"

text \<open>\<open>s[:i]\<close> where \<open>i\<close> is \<open>strings.IndexAny(s, cs)\<close>, and \<open>s\<close> where there is none.\<close>

definition cutAny :: "string \<Rightarrow> string \<Rightarrow> string" where
  "cutAny s cs = takeWhile (\<lambda>x. x \<notin> set cs) s"

subsection \<open>Trimming\<close>

text \<open>The white space of \<open>unicode.IsSpace\<close>, each rune as its UTF-8 bytes.\<close>

definition go_spaces :: "string list" where
  "go_spaces =
     [[CHR 0x09], [CHR 0x0A], [CHR 0x0B], [CHR 0x0C], [CHR 0x0D], [CHR 0x20],
      [CHR 0xC2, CHR 0x85], [CHR 0xC2, CHR 0xA0], [CHR 0xE1, CHR 0x9A, CHR 0x80],
      [CHR 0xE2, CHR 0x80, CHR 0x80], [CHR 0xE2, CHR 0x80, CHR 0x81],
      [CHR 0xE2, CHR 0x80, CHR 0x82], [CHR 0xE2, CHR 0x80, CHR 0x83],
      [CHR 0xE2, CHR 0x80, CHR 0x84], [CHR 0xE2, CHR 0x80, CHR 0x85],
      [CHR 0xE2, CHR 0x80, CHR 0x86], [CHR 0xE2, CHR 0x80, CHR 0x87],
      [CHR 0xE2, CHR 0x80, CHR 0x88], [CHR 0xE2, CHR 0x80, CHR 0x89],
      [CHR 0xE2, CHR 0x80, CHR 0x8A], [CHR 0xE2, CHR 0x80, CHR 0xA8],
      [CHR 0xE2, CHR 0x80, CHR 0xA9], [CHR 0xE2, CHR 0x80, CHR 0xAF],
      [CHR 0xE2, CHR 0x81, CHR 0x9F], [CHR 0xE3, CHR 0x80, CHR 0x80]]"

text \<open>Drop from the left as long as one of the words stands there.\<close>

function dropWords :: "string list \<Rightarrow> string \<Rightarrow> string" where
  "dropWords ws s =
     (case find (\<lambda>w. w \<noteq> [] \<and> prefix w s) ws of
        None \<Rightarrow> s
      | Some w \<Rightarrow> dropWords ws (drop (length w) s))"
  by pat_completeness auto
termination
  by (relation "measure (\<lambda>(ws, s). length s)")
    (auto simp: find_Some_iff prefix_def)

declare dropWords.simps [simp del]

definition TrimSpace :: "string \<Rightarrow> string" where
  "TrimSpace s = rev (dropWords (map rev go_spaces) (rev (dropWords go_spaces s)))"

text \<open>\<open>strings.TrimLeft\<close>, \<open>strings.Trim\<close> and \<open>strings.TrimRight\<close> with an ASCII cut set.\<close>

definition TrimLeft :: "string \<Rightarrow> string \<Rightarrow> string" where
  "TrimLeft s cs = dropWhile (\<lambda>x. x \<in> set cs) s"

definition Trim :: "string \<Rightarrow> string \<Rightarrow> string" where
  "Trim s cs = rev (TrimLeft (rev (TrimLeft s cs)) cs)"

subsection \<open>Case\<close>

definition is_ascii :: "string \<Rightarrow> bool" where
  "is_ascii s \<longleftrightarrow> list_all (\<lambda>x. of_char x < (128::nat)) s"

definition lower_char :: "char \<Rightarrow> char" where
  "lower_char x =
     (let n = of_char x :: nat in if 65 \<le> n \<and> n \<le> 90 then char_of (n + 32) else x)"

text \<open>
  \<open>strings.ToLower\<close>: ASCII letters on an ASCII string; the Unicode table \<open>ul\<close> on
  any other.
\<close>

definition ToLower :: "(string \<Rightarrow> string) \<Rightarrow> string \<Rightarrow> string" where
  "ToLower ul s = (if is_ascii s then map lower_char s else ul s)"

text \<open>
  \<open>strings.EqualFold(s, t)\<close> for an ASCII \<open>t\<close>: beside the two cases of each letter, Unicode
  folds the long s (C5 BF) with s and the Kelvin sign (E2 84 AA) with k, and no other rune
  with an ASCII one.
\<close>

fun fold_bytes :: "string \<Rightarrow> string" where
  "fold_bytes [] = []"
| "fold_bytes (x # xs) =
     (if x = CHR 0xC5 \<and> take 1 xs = [CHR 0xBF] then CHR ''s'' # fold_bytes (drop 1 xs)
      else if x = CHR 0xE2 \<and> take 2 xs = [CHR 0x84, CHR 0xAA] then CHR ''k'' # fold_bytes (drop 2 xs)
      else lower_char x # fold_bytes xs)"

definition EqualFold :: "string \<Rightarrow> string \<Rightarrow> bool" where
  "EqualFold s t \<longleftrightarrow> fold_bytes s = map lower_char t"

subsection \<open>Character classes of the sources' regular expressions\<close>

definition is_lower :: "char \<Rightarrow> bool" where
  "is_lower x \<longleftrightarrow> (let n = of_char x :: nat in 97 \<le> n \<and> n \<le> 122)"

definition is_upper :: "char \<Rightarrow> bool" where
  "is_upper x \<longleftrightarrow> (let n = of_char x :: nat in 65 \<le> n \<and> n \<le> 90)"

definition is_digit :: "char \<Rightarrow> bool" where
  "is_digit x \<longleftrightarrow> (let n = of_char x :: nat in 48 \<le> n \<and> n \<le> 57)"

definition is_alnum :: "char \<Rightarrow> bool" where
  "is_alnum x \<longleftrightarrow> is_lower x \<or> is_upper x \<or> is_digit x"

text \<open>
  A DNS label of at most \<open>n\<close> characters: \<open>[a-z0-9]([-a-z0-9]{0,n-2}[a-z0-9])?\<close>, anchored.
\<close>

definition dns_char :: "char \<Rightarrow> bool" where
  "dns_char x \<longleftrightarrow> is_lower x \<or> is_digit x"

definition dns_label :: "nat \<Rightarrow> string \<Rightarrow> bool" where
  "dns_label n s \<longleftrightarrow> s \<noteq> [] \<and> length s \<le> n \<and> dns_char (hd s) \<and> dns_char (last s) \<and>
     list_all (\<lambda>x. dns_char x \<or> x = CHR ''-'') s"


subsection \<open>Ranging over a string\<close>

text \<open>
  How many bytes the first rune of a non-empty string has, as \<open>range\<close> decodes it: a byte that begins no
  well-formed UTF-8 sequence is a rune of its own.
\<close>

definition between :: "nat \<Rightarrow> nat \<Rightarrow> char \<Rightarrow> bool" where
  "between lo hi x \<longleftrightarrow> (let n = of_char x :: nat in lo \<le> n \<and> n \<le> hi)"

definition rune3 :: "char \<Rightarrow> char \<Rightarrow> char \<Rightarrow> bool" where
  "rune3 a b c \<longleftrightarrow>
     (between 0xE0 0xE0 a \<and> between 0xA0 0xBF b \<or> between 0xE1 0xEC a \<and> between 0x80 0xBF b \<or>
      between 0xED 0xED a \<and> between 0x80 0x9F b \<or> between 0xEE 0xEF a \<and> between 0x80 0xBF b) \<and> between 0x80 0xBF c"

definition runeLen :: "string \<Rightarrow> nat" where
  "runeLen s =
     (case s of
        a # b # c # d # _ \<Rightarrow>
          if between 0xC2 0xDF a \<and> between 0x80 0xBF b then 2
          else if rune3 a b c then 3
          else if (between 0xF0 0xF0 a \<and> between 0x90 0xBF b \<or> between 0xF1 0xF3 a \<and> between 0x80 0xBF b \<or>
                   between 0xF4 0xF4 a \<and> between 0x80 0x8F b) \<and> between 0x80 0xBF c \<and> between 0x80 0xBF d then 4
          else 1
      | [a, b, c] \<Rightarrow> if between 0xC2 0xDF a \<and> between 0x80 0xBF b then 2 else if rune3 a b c then 3 else 1
      | [a, b] \<Rightarrow> if between 0xC2 0xDF a \<and> between 0x80 0xBF b then 2 else 1
      | _ \<Rightarrow> 1)"

lemma runeLen_pos [simp]: "0 < runeLen s"
  by (auto simp: runeLen_def split: list.split)

text \<open>\<open>strings.Contains\<close>.\<close>

definition Contains :: "string \<Rightarrow> string \<Rightarrow> bool" where
  "Contains s t \<longleftrightarrow> sublist t s"

definition CutSuffix :: "string \<Rightarrow> string \<Rightarrow> string \<times> bool" where
  "CutSuffix s p = (if HasSuffix s p then (take (length s - length p) s, True) else (s, False))"

text \<open>The value of a hex digit of either case.\<close>

definition hexValue :: "char \<Rightarrow> nat option" where
  "hexValue x =
     (let n = of_char x :: nat in
      if 48 \<le> n \<and> n \<le> 57 then Some (n - 48)
      else if 97 \<le> n \<and> n \<le> 102 then Some (n - 87)
      else if 65 \<le> n \<and> n \<le> 70 then Some (n - 55)
      else None)"

subsection \<open>Sorting\<close>

text \<open>
  \<open>sort.SliceStable\<close> with the order \<open>lt\<close>: an element goes behind those that are less and before
  those that follow it in the input and are not.
\<close>

fun insertStable :: "('a \<Rightarrow> 'a \<Rightarrow> bool) \<Rightarrow> 'a \<Rightarrow> 'a list \<Rightarrow> 'a list" where
  "insertStable lt x [] = [x]"
| "insertStable lt x (y # ys) = (if lt y x then y # insertStable lt x ys else x # y # ys)"

definition sortStable :: "('a \<Rightarrow> 'a \<Rightarrow> bool) \<Rightarrow> 'a list \<Rightarrow> 'a list" where
  "sortStable lt xs = foldr (insertStable lt) xs []"

subsection \<open>Decimal numbers\<close>

fun digits :: "nat \<Rightarrow> string" where
  "digits n = (if n < 10 then [char_of (n + 48)] else digits (n div 10) @ [char_of (n mod 10 + 48)])"

declare digits.simps [simp del]

text \<open>A number padded with zeros to a width, as \<open>time.Time.Format\<close> writes its fields.\<close>

definition padded :: "nat \<Rightarrow> int \<Rightarrow> string" where
  "padded width n =
     (let d = digits (nat \<bar>n\<bar>)
      in (if n < 0 then ''-'' else []) @ replicate (width - length d) (CHR ''0'') @ d)"

text \<open>
  \<open>UTC().Format("2006-01-02T15:04:05Z")\<close>: the civil date of a day counted from 1970 in the proleptic
  Gregorian calendar, and the time of day.
\<close>

definition civil :: "int \<Rightarrow> int \<times> int \<times> int" where
  "civil days =
     (let z = days + 719468;
          era = z div 146097;
          doe = z mod 146097;
          yoe = (doe - doe div 1460 + doe div 36524 - doe div 146096) div 365;
          doy = doe - (365 * yoe + yoe div 4 - yoe div 100);
          mp = (5 * doy + 2) div 153;
          m = (if mp < 10 then mp + 3 else mp - 9)
      in (yoe + era * 400 + (if m \<le> 2 then 1 else 0), m, doy - (153 * mp + 2) div 5 + 1))"

definition stamp :: "int \<Rightarrow> string" where
  "stamp t =
     (let secs = t div 1000000000; (y, m, d) = civil (secs div 86400); s = secs mod 86400
      in padded 4 y @ ''-'' @ padded 2 m @ ''-'' @ padded 2 d @ ''T'' @ padded 2 (s div 3600) @ '':'' @
         padded 2 (s mod 3600 div 60) @ '':'' @ padded 2 (s mod 60) @ ''Z'')"

subsection \<open>Lemmas shared by the components\<close>

lemma set_insertStable [simp]: "set (insertStable lt x xs) = insert x (set xs)"
  by (induction xs) auto

lemma set_sortStable [simp]: "set (sortStable lt xs) = set xs"
  by (induction xs) (auto simp: sortStable_def)

lemma length_insertStable [simp]: "length (insertStable lt x xs) = Suc (length xs)"
  by (induction xs) auto

lemma length_sortStable [simp]: "length (sortStable lt xs) = length xs"
  by (induction xs) (auto simp: sortStable_def)

lemma sortStable_Nil [simp]: "sortStable lt xs = [] \<longleftrightarrow> xs = []"
  by (simp flip: length_0_conv)

text \<open>The first element of a stable sort is the first one nothing is less than.\<close>

lemma hd_insertStable: "hd (insertStable lt x xs) = (if xs \<noteq> [] \<and> lt (hd xs) x then hd xs else x)"
  by (cases xs) auto

lemma hd_sortStable_Cons:
  "hd (sortStable lt (x # xs)) =
     (if xs \<noteq> [] \<and> lt (hd (sortStable lt xs)) x then hd (sortStable lt xs) else x)"
  by (simp add: sortStable_def hd_insertStable flip: sortStable_Nil [of lt xs, unfolded sortStable_def])

lemma hd_sortStable_least:
  assumes trans: "\<And>x y z. lt x y \<Longrightarrow> \<not> lt z y \<Longrightarrow> lt x z" and asym: "\<And>x y. lt x y \<Longrightarrow> \<not> lt y x"
    and "y \<in> set xs"
  shows "\<not> lt y (hd (sortStable lt xs))"
  using assms(3)
proof (induction xs)
  case (Cons x xs)
  let ?h = "hd (sortStable lt xs)"
  show ?case
  proof (cases "xs = []")
    case False
    consider "y = x" | "y \<in> set xs" using Cons.prems by auto
    then show ?thesis
    proof cases
      case 1
      then show ?thesis using asym [of ?h x] asym [of x x]
        by (auto simp: hd_sortStable_Cons)
    next
      case 2
      from Cons.IH [OF this] have "\<not> lt y ?h" .
      then show ?thesis using trans [of y x ?h] False by (auto simp: hd_sortStable_Cons)
    qed
  qed (use Cons asym [of x x] in \<open>auto simp: hd_sortStable_Cons\<close>)
qed simp


lemma hd_sortStable_snoc:
  assumes trans: "\<And>x y z. lt x y \<Longrightarrow> \<not> lt z y \<Longrightarrow> lt x z" and asym: "\<And>x y. lt x y \<Longrightarrow> \<not> lt y x"
    and "xs \<noteq> []" "\<not> lt x (hd (sortStable lt xs))"
  shows "hd (sortStable lt (xs @ [x])) = hd (sortStable lt xs)"
  using assms(3,4)
proof (induction xs)
  case (Cons y ys)
  let ?h = "hd (sortStable lt ys)"
  show ?case
  proof (cases "ys \<noteq> [] \<and> lt ?h y")
    case True
    then show ?thesis using Cons by (simp add: hd_sortStable_Cons)
  next
    case False
    then have y: "hd (sortStable lt (y # ys)) = y" by (auto simp: hd_sortStable_Cons)
    have "\<not> lt z y" if "z \<in> set (ys @ [x])" for z
      using that Cons.prems(2) hd_sortStable_least [of lt z "y # ys", OF trans asym] unfolding y by auto
    moreover have "hd (sortStable lt (ys @ [x])) \<in> set (ys @ [x])"
      by (metis hd_in_set set_sortStable sortStable_Nil append_is_Nil_conv not_Cons_self2)
    ultimately show ?thesis unfolding y by (simp add: hd_sortStable_Cons)
  qed
qed simp

lemma ball_keys_update:
  "(\<forall>k \<in> fst ` set (AList.update a b m). P k) \<longleftrightarrow> P a \<and> (\<forall>k \<in> fst ` set m. P k)"
  by (simp only: dom_update) auto

text \<open>Splitting at a separator and joining with it undo each other.\<close>

lemma Split_ne [simp]: "Split s c \<noteq> []"
  by (induction s) (auto split: list.split)

lemma Split_append: "Split (s @ c # t) c = Split s c @ Split t c"
  by (induction s) (auto split: list.split)

lemma Split_pieces: "p \<in> set (Split s c) \<Longrightarrow> c \<notin> set p"
proof (induction s arbitrary: p)
  case (Cons x s)
  then show ?case by (cases "Split s c") (auto split: if_splits)
qed simp

lemma Join_append:
  "xs \<noteq> [] \<Longrightarrow> ys \<noteq> [] \<Longrightarrow> Join (xs @ ys) sep = Join xs sep @ sep @ Join ys sep"
proof (induction xs sep rule: Join.induct)
  case (2 x sep)
  then show ?case by (cases ys) auto
qed auto

lemma Join_Cons: "ys \<noteq> [] \<Longrightarrow> Join (x # ys) sep = x @ sep @ Join ys sep"
  by (cases ys) auto

lemma Join_Split [simp]: "Join (Split s c) [c] = s"
proof (induction s)
  case (Cons x s)
  obtain p ps where "Split s c = p # ps" by (cases "Split s c") auto
  then show ?case using Cons by (cases ps) auto
qed simp

lemma Split_no_sep: "c \<notin> set s \<Longrightarrow> Split s c = [s]"
  by (induction s) auto

lemma Split_Join: "ps \<noteq> [] \<Longrightarrow> \<forall>p \<in> set ps. c \<notin> set p \<Longrightarrow> Split (Join ps [c]) c = ps"
proof (induction ps)
  case (Cons p ps)
  then show ?case
    by (cases "ps = []") (simp_all add: Join_Cons Split_no_sep Split_append)
qed simp

text \<open>A path is another or lies under it exactly when its segments begin with the other's.\<close>

lemma under_iff_segments:
  "p = d \<or> HasPrefix p (d @ [c]) \<longleftrightarrow> prefix (Split d c) (Split p c)"
proof
  assume "p = d \<or> HasPrefix p (d @ [c])"
  then show "prefix (Split d c) (Split p c)"
    by (auto simp: HasPrefix_def prefix_def Split_append)
next
  assume "prefix (Split d c) (Split p c)"
  then obtain zs where z: "Split p c = Split d c @ zs" by (auto simp: prefix_def)
  have "p = Join (Split d c @ zs) [c]" by (simp flip: z)
  then show "p = d \<or> HasPrefix p (d @ [c])"
    by (cases "zs = []") (auto simp: Join_append HasPrefix_def prefix_def)
qed

lemma last_segment_iff:
  assumes "c \<notin> set l"
  shows "s = l \<or> HasSuffix s (c # l) \<longleftrightarrow> last (Split s c) = l"
proof
  assume "s = l \<or> HasSuffix s (c # l)"
  then show "last (Split s c) = l"
    using assms by (auto simp: HasSuffix_def suffix_def Split_append Split_no_sep)
next
  assume l: "last (Split s c) = l"
  show "s = l \<or> HasSuffix s (c # l)"
  proof (cases "butlast (Split s c) = []")
    case True
    then have "Split s c = [l]" using l by (metis append_butlast_last_id append_Nil Split_ne)
    then have "Join [l] [c] = s" using Join_Split [of s c] by (simp only:)
    then show ?thesis by simp
  next
    case False
    have "Split s c = butlast (Split s c) @ [l]" using l by (metis append_butlast_last_id Split_ne)
    then have "s = Join (butlast (Split s c) @ [l]) [c]" using Join_Split [of s c] by (simp only:)
    then have "s = Join (butlast (Split s c)) [c] @ [c] @ l"
      using False by (simp add: Join_append)
    then show ?thesis by (auto simp: HasSuffix_def suffix_def)
  qed
qed

text \<open>A string that begins and ends with a printable ASCII character has no space to trim.\<close>

definition graphic :: "char \<Rightarrow> bool" where
  "graphic x \<longleftrightarrow> (let n = of_char x :: nat in 33 \<le> n \<and> n \<le> 126)"

lemma dropWords_id:
  assumes "s \<noteq> [] \<longrightarrow> (\<forall>w \<in> set ws. w \<noteq> [] \<longrightarrow> hd w \<noteq> hd s)"
  shows "dropWords ws s = s"
proof -
  have "find (\<lambda>w. w \<noteq> [] \<and> prefix w s) ws = None"
    using assms by (auto simp: find_None_iff prefix_def)
  then show ?thesis by (subst dropWords.simps) simp
qed

lemma graphic_no_space:
  "graphic x \<Longrightarrow> \<forall>w \<in> set go_spaces. hd w \<noteq> x"
  "graphic x \<Longrightarrow> \<forall>w \<in> set (map rev go_spaces). hd w \<noteq> x"
  by (auto simp: graphic_def go_spaces_def)

lemma TrimSpace_id:
  assumes "s = [] \<or> graphic (hd s) \<and> graphic (last s)"
  shows "TrimSpace s = s"
proof -
  have "dropWords go_spaces s = s"
    using assms graphic_no_space(1) [of "hd s"] by (intro dropWords_id) auto
  moreover have "dropWords (map rev go_spaces) (rev s) = rev s"
    using assms graphic_no_space(2) [of "last s"] by (intro dropWords_id) (auto simp: hd_rev)
  ultimately show ?thesis by (simp add: TrimSpace_def)
qed

lemma find_distinct:
  "distinct (map f xs) \<Longrightarrow> find (\<lambda>x. f x = k) xs = Some x \<longleftrightarrow> x \<in> set xs \<and> f x = k"
  by (induction xs) (auto simp: image_iff)

lemma disjoint_by:
  assumes "\<And>x. x \<in> A \<Longrightarrow> f x \<in> K" "\<And>x. x \<in> B \<Longrightarrow> f x \<in> L" "K \<inter> L = {}"
  shows "A \<inter> B = {}"
  using assms by blast

end
