(* ===== verification/Rights_Ids.thy ===== *)
theory Rights_Ids
  imports Go_Prelude
begin

section \<open>Identifiers of the rights store\<close>

text \<open>
  Package \<open>internal/director/authz\<close>: the one mapping by which a token's subject, a Keycloak
  group, a tenant, a cluster and an app become the users and objects of OpenFGA
  (\<open>authz.go\<close>, \<open>apps.go\<close>, \<open>roles.go\<close>), the names of a tenant's groups
  (\<open>internal/keycloak/groups.go\<close>) and the rules by which the Cluster claim's role holders
  hold their roles (\<open>roles.go\<close>). Every reconciliation, the guard and the bouncer go
  through these functions.
\<close>

subsection \<open>Encoding\<close>

datatype id_err = ErrInvalidID string

definition encode :: "string \<Rightarrow> id_err + string" where
  "encode s =
     (if s = [] \<or> ContainsAny s [CHR ''#'', CHR ''/'', CHR '' '', CHR 0x09, CHR 0x0D, CHR 0x0A]
      then Inl (ErrInvalidID s)
      else Inr (ReplaceAll s (CHR '':'') (CHR ''/'')))"

definition User :: "string \<Rightarrow> id_err + string" where
  "User sub = (case encode sub of Inl e \<Rightarrow> Inl e | Inr i \<Rightarrow> Inr (''user:'' @ i))"

definition Group :: "string \<Rightarrow> id_err + string" where
  "Group name = (case encode name of Inl e \<Rightarrow> Inl e | Inr i \<Rightarrow> Inr (''group:'' @ i))"

definition GroupFromPath :: "string \<Rightarrow> id_err + string" where
  "GroupFromPath path = Group (TrimPrefix path ''/'')"

definition Tenant :: "string \<Rightarrow> string" where
  "Tenant name = ''tenant:'' @ name"

definition Cluster :: "string \<Rightarrow> string" where
  "Cluster name = ''cluster:'' @ name"

definition App :: "string \<Rightarrow> string \<Rightarrow> string" where
  "App tenant profile = ''app:'' @ tenant @ ''/'' @ profile"

text \<open>\<open>view.go\<close>: an id of the store back in the spelling a person knows.\<close>

definition displayGroup :: "string \<Rightarrow> string" where
  "displayGroup user =
     (let (rest, ok) = CutPrefix user ''group:'' in
      if \<not> ok then user
      else let (r, after, found) = Cut rest (CHR ''#'') in ReplaceAll r (CHR ''/'') (CHR '':''))"

subsection \<open>A tenant's groups\<close>

definition tenantPrefix :: "string \<Rightarrow> string" where
  "tenantPrefix tenant = ''gentian:tenant:'' @ tenant @ '':''"

definition TenantMembersGroup :: "string \<Rightarrow> string" where
  "TenantMembersGroup tenant = tenantPrefix tenant @ ''members''"

definition TenantAdminsGroup :: "string \<Rightarrow> string" where
  "TenantAdminsGroup tenant = tenantPrefix tenant @ ''admins''"

definition TenantPlatformAdminsGroup :: "string \<Rightarrow> string" where
  "TenantPlatformAdminsGroup tenant = tenantPrefix tenant @ ''platform-admins''"

definition TenantAppGroup :: "string \<Rightarrow> string \<Rightarrow> string" where
  "TenantAppGroup tenant profile = tenantPrefix tenant @ ''app:'' @ profile"

definition TenantAppAdminsGroup :: "string \<Rightarrow> string" where
  "TenantAppAdminsGroup tenant = tenantPrefix tenant @ ''app-admins''"

definition appGroup :: "string \<Rightarrow> string \<Rightarrow> id_err + string" where
  "appGroup tenant profile = Group (TenantAppGroup tenant profile)"

subsection \<open>Names a tenant and a realm may have\<close>

text \<open>\<open>api/v1alpha1/tenancy.go\<close>: a DNS label of at most 38 characters.\<close>

definition MaxTenantNameLength :: nat where
  "MaxTenantNameLength = 38"

definition ValidTenantName :: "string \<Rightarrow> bool" where
  "ValidTenantName name \<longleftrightarrow> dns_label 38 name"

text \<open>The realm pattern \<open>^[A-Za-z0-9][A-Za-z0-9_-]{0,62}$\<close>.\<close>

definition holderRealm :: "string \<Rightarrow> bool" where
  "holderRealm s \<longleftrightarrow> s \<noteq> [] \<and> length s \<le> 63 \<and> is_alnum (hd s) \<and>
     list_all (\<lambda>x. is_alnum x \<or> x = CHR ''_'' \<or> x = CHR ''-'') s"

definition HolderUser :: "string \<Rightarrow> string \<Rightarrow> id_err + string" where
  "HolderUser realm sub =
     (if \<not> holderRealm realm then Inl (ErrInvalidID realm)
      else case encode sub of Inl e \<Rightarrow> Inl e | Inr i \<Rightarrow> Inr (''user:'' @ realm @ ''/'' @ i))"

subsection \<open>Roles\<close>

definition ClusterRoles :: "string list" where
  "ClusterRoles = [''admin'', ''security_officer'', ''auditor'', ''service_admin'',
     ''shared_apps_admin'', ''perimeter_approver'', ''break_glass'']"

definition ClaimRoles :: "(string, string) gomap" where
  "ClaimRoles = [(''admin'', ''admin''), (''breakGlass'', ''break_glass'')]"

definition HolderRoles :: "(string, string) gomap" where
  "HolderRoles =
     [(''securityOfficer'', ''security_officer''), (''auditor'', ''auditor''),
      (''serviceAdmin'', ''service_admin''), (''sharedAppsAdmin'', ''shared_apps_admin''),
      (''perimeterApprover'', ''perimeter_approver''), (''tenantAuditor'', ''auditor''),
      (''breakGlass'', ''break_glass'')]"

definition groupRelation :: "string \<Rightarrow> bool" where
  "groupRelation rel \<longleftrightarrow> list_ex (\<lambda>(f, r). r = rel) ClaimRoles"

definition holderRelation :: "string \<Rightarrow> bool" where
  "holderRelation rel \<longleftrightarrow> list_ex (\<lambda>(f, r). r = rel) HolderRoles"

text \<open>\<open>RolesFromClaim\<close>: one pass over the claim's fields, the unknown ones collected and sorted.\<close>

fun rolesFromClaim_loop ::
  "(string, string) gomap \<Rightarrow> (string, string) gomap \<Rightarrow> string list \<Rightarrow> (string, string) gomap \<times> string list" where
  "rolesFromClaim_loop [] roles unknown = (roles, unknown)"
| "rolesFromClaim_loop ((field, grp) # cs) roles unknown =
     (case map_of ClaimRoles field of
        None \<Rightarrow> rolesFromClaim_loop cs roles (unknown @ [field])
      | Some rel \<Rightarrow>
          (if grp \<noteq> [] then rolesFromClaim_loop cs (AList.update rel grp roles) unknown
           else rolesFromClaim_loop cs roles unknown))"

definition RolesFromClaim :: "(string, string) gomap \<Rightarrow> (string, string) gomap \<times> string list" where
  "RolesFromClaim claim =
     (let (roles, unknown) = rolesFromClaim_loop claim [] [] in (roles, sort unknown))"

definition PlatformTenant :: string where
  "PlatformTenant = ''platform''"

definition ScopeCluster :: string where
  "ScopeCluster = ''cluster''"

definition HolderScope :: "string \<Rightarrow> string \<Rightarrow> string \<times> bool" where
  "HolderScope role tenant =
     (let platform = (tenant = PlatformTenant) in
      if role = ''securityOfficer'' \<or> role = ''auditor'' then (ScopeCluster, True)
      else if role = ''serviceAdmin'' \<or> role = ''sharedAppsAdmin'' \<or> role = ''breakGlass''
        then (ScopeCluster, platform)
      else if role = ''perimeterApprover''
        then (if platform then (ScopeCluster, True) else (''tenant:'' @ tenant, True))
      else ([], False))"

definition EntryScope :: "string \<Rightarrow> string \<Rightarrow> string \<Rightarrow> string \<times> bool" where
  "EntryScope role tenant stated =
     (if role = ''tenantAuditor'' then
        (let (t, named) = CutPrefix stated ''tenant:'' in
         if tenant \<noteq> PlatformTenant \<or> \<not> named \<or> \<not> ValidTenantName t \<or> t = PlatformTenant
         then ([], False) else (stated, True))
      else
        (let (scope, ok) = HolderScope role tenant in
         if \<not> ok \<or> (stated \<noteq> [] \<and> stated \<noteq> scope) then ([], False) else (scope, True)))"

subsection \<open>Questions\<close>

text \<open>\<open>check\<close> is the server's answer to one question; an error is a denial.\<close>

definition CheckAs ::
  "(string \<Rightarrow> string \<Rightarrow> string \<Rightarrow> 'e + bool) \<Rightarrow> string \<Rightarrow> string \<Rightarrow> string \<Rightarrow> string \<Rightarrow> 'e + bool" where
  "CheckAs check user holder rel object =
     (case check user rel object of
        Inl e \<Rightarrow> Inl e
      | Inr ok \<Rightarrow> if ok \<or> holder = [] then Inr ok else check holder rel object)"

definition TenantAdministrator ::
  "(string \<Rightarrow> string \<Rightarrow> string \<Rightarrow> 'e + bool) \<Rightarrow> string \<Rightarrow> string \<Rightarrow> 'e + bool" where
  "TenantAdministrator check tenant sub =
     (case User sub of
        Inl e \<Rightarrow> Inr False
      | Inr user \<Rightarrow>
          (case Group (TenantAdminsGroup tenant) of
             Inl e \<Rightarrow> Inr False
           | Inr grp \<Rightarrow>
               if ContainsAny tenant '':/'' then Inr False else check user ''member'' grp))"

subsection \<open>Facts about the encoding\<close>

lemma encode_InrD:
  assumes "encode s = Inr i"
  shows "s \<noteq> []" "CHR ''/'' \<notin> set s" "CHR ''#'' \<notin> set s" "i = ReplaceAll s (CHR '':'') (CHR ''/'')"
  using assms by (auto simp: encode_def ContainsAny_def list_ex_iff split: if_splits)

lemma ReplaceAll_inj_on:
  assumes "b \<notin> set s" "b \<notin> set t" "ReplaceAll s a b = ReplaceAll t a b"
  shows "s = t"
  using assms
proof (induction s arbitrary: t)
  case Nil
  then show ?case by (simp add: ReplaceAll_def)
next
  case (Cons x s)
  then obtain y t' where "t = y # t'" by (cases t) (auto simp: ReplaceAll_def)
  with Cons show ?case by (auto simp: ReplaceAll_def split: if_splits)
qed

lemma ReplaceAll_back:
  "b \<notin> set s \<Longrightarrow> ReplaceAll (ReplaceAll s a b) b a = s"
  by (induction s) (auto simp: ReplaceAll_def)

lemma ReplaceAll_notin: "a \<noteq> b \<Longrightarrow> a \<notin> set (ReplaceAll s a b)"
  by (induction s) (auto simp: ReplaceAll_def)

lemma ReplaceAll_set: "set (ReplaceAll s a b) \<subseteq> insert b (set s)"
  by (auto simp: ReplaceAll_def)

lemma encode_ok:
  "s \<noteq> [] \<Longrightarrow> \<forall>x \<in> set s. x \<notin> {CHR ''#'', CHR ''/'', CHR '' '', CHR 0x09, CHR 0x0D, CHR 0x0A} \<Longrightarrow>
   encode s = Inr (ReplaceAll s (CHR '':'') (CHR ''/''))"
  by (auto simp: encode_def ContainsAny_def list_ex_iff)

lemma dns_char_ok:
  "dns_char x \<or> x = CHR ''-'' \<Longrightarrow>
   x \<notin> {CHR ''#'', CHR ''/'', CHR '' '', CHR 0x09, CHR 0x0D, CHR 0x0A, CHR '':'', CHR ''|''}"
  by (auto simp: dns_char_def is_lower_def is_digit_def Let_def)

lemma ValidTenantName_chars:
  assumes "ValidTenantName t"
  shows "t \<noteq> []" "x \<in> set t \<Longrightarrow> x \<notin> {CHR ''#'', CHR ''/'', CHR '' '', CHR 0x09, CHR 0x0D, CHR 0x0A, CHR '':'', CHR ''|''}"
    "ReplaceAll t (CHR '':'') (CHR ''/'') = t"
proof -
  show "t \<noteq> []" using assms by (simp add: ValidTenantName_def dns_label_def)
  show c: "x \<notin> {CHR ''#'', CHR ''/'', CHR '' '', CHR 0x09, CHR 0x0D, CHR 0x0A, CHR '':'', CHR ''|''}" if "x \<in> set t" for x
    using assms that by (intro dns_char_ok) (simp add: ValidTenantName_def dns_label_def list_all_iff)
  then show "ReplaceAll t (CHR '':'') (CHR ''/'') = t"
    unfolding ReplaceAll_def by (intro map_idI) auto
qed

lemma encode_inj:
  "encode s = Inr i \<Longrightarrow> encode t = Inr i \<Longrightarrow> s = t"
  by (rule ReplaceAll_inj_on [where a = "CHR '':''"]) (auto dest: encode_InrD(2) encode_InrD(4))

lemma encode_no_hash: "encode s = Inr i \<Longrightarrow> CHR ''#'' \<notin> set i"
  using ReplaceAll_set [of s "CHR '':''" "CHR ''/''"] encode_InrD(3) [of s i] encode_InrD(4) [of s i]
  by auto

lemma encode_no_colon: "encode s = Inr i \<Longrightarrow> CHR '':'' \<notin> set i"
  using ReplaceAll_notin [of "CHR '':''" "CHR ''/''" s] by (auto dest: encode_InrD(4))

lemma User_InrD: "User s = Inr u \<Longrightarrow> \<exists>i. encode s = Inr i \<and> u = ''user:'' @ i"
  by (auto simp: User_def split: sum.splits)

lemma Group_InrD: "Group s = Inr u \<Longrightarrow> \<exists>i. encode s = Inr i \<and> u = ''group:'' @ i"
  by (auto simp: Group_def split: sum.splits)

lemma HolderUser_InrD:
  "HolderUser r s = Inr u \<Longrightarrow> holderRealm r \<and> (\<exists>i. encode s = Inr i \<and> u = ''user:'' @ r @ ''/'' @ i)"
  by (auto simp: HolderUser_def split: sum.splits if_splits)

lemma alnum_not_special: "is_alnum x \<Longrightarrow> x \<noteq> CHR ''/'' \<and> x \<noteq> CHR '':'' \<and> x \<noteq> CHR ''#''"
  by (auto simp: is_alnum_def is_lower_def is_upper_def is_digit_def Let_def)

lemma holderRealm_chars:
  "holderRealm r \<Longrightarrow> CHR ''/'' \<notin> set r \<and> CHR '':'' \<notin> set r \<and> CHR ''#'' \<notin> set r \<and> r \<noteq> []"
  by (auto simp: holderRealm_def list_all_iff dest: alnum_not_special)

text \<open>The text before the first of a separator determines both parts.\<close>

lemma append_sep_inj:
  assumes "c \<notin> set a" "c \<notin> set b" "a @ c # x = b @ c # y"
  shows "a = b \<and> x = y"
  using assms
proof (induction a arbitrary: b)
  case Nil
  then show ?case by (cases b) auto
next
  case (Cons z a)
  then show ?case by (cases b) auto
qed

subsection \<open>Properties\<close>

text \<open>
  Users: two subjects that can be stored at all are never stored as one user, nor two
  groups as one group object.
\<close>

theorem user_group_ids_injective:
  "(User s = Inr u \<and> User t = Inr u \<longrightarrow> s = t) \<and> (Group g = Inr o1 \<and> Group h = Inr o1 \<longrightarrow> g = h)"
  by (auto dest!: User_InrD Group_InrD intro: encode_inj)

theorem user_group_ids_injective_witness:
  "User ''f:ldap:42'' = Inr ''user:f/ldap/42'' \<and> ''f:ldap:42'' = ''f:ldap:42''"
  using user_group_ids_injective [of "''f:ldap:42''" "''user:f/ldap/42''" "''f:ldap:42''"]
  by (simp add: User_def encode_def ContainsAny_def ReplaceAll_def)

text \<open>
  Role holders: the user a role holder is stored as determines the realm and the
  subject, so a holder's entry answers to the account of one realm only.
\<close>

theorem holder_user_injective:
  assumes "HolderUser r1 s1 = Inr u" "HolderUser r2 s2 = Inr u"
  shows "r1 = r2 \<and> s1 = s2"
proof -
  from assms obtain i1 i2 where i: "encode s1 = Inr i1" "encode s2 = Inr i2"
    and eq: "r1 @ CHR ''/'' # i1 = r2 @ CHR ''/'' # i2"
    by (auto dest!: HolderUser_InrD)
  moreover have "CHR ''/'' \<notin> set r1" "CHR ''/'' \<notin> set r2"
    using assms holderRealm_chars by (auto dest!: HolderUser_InrD)
  ultimately have "r1 = r2 \<and> i1 = i2" by (blast dest: append_sep_inj)
  with i show ?thesis by (auto intro: encode_inj)
qed


theorem holder_user_injective_witness:
  "HolderUser ''kernel'' ''42'' = Inr ''user:kernel/42'' \<and> ''kernel'' = ''kernel'' \<and> ''42'' = ''42''"
  using holder_user_injective [of "''kernel''" "''42''" "''user:kernel/42''" "''kernel''" "''42''"]
  by code_simp

lemma encode_realm_colon:
  assumes "holderRealm r" "encode s = Inr i"
  shows "encode (r @ '':'' @ s) = Inr (r @ ''/'' @ i)"
proof -
  have r: "x \<in> set r \<Longrightarrow> is_alnum x \<or> x = CHR ''_'' \<or> x = CHR ''-''" for x
    using assms(1) by (auto simp: holderRealm_def list_all_iff)
  have special: "\<not> is_alnum (CHR ''#'')" "\<not> is_alnum (CHR ''/'')" "\<not> is_alnum (CHR '' '')"
    "\<not> is_alnum (CHR 0x09)" "\<not> is_alnum (CHR 0x0D)" "\<not> is_alnum (CHR 0x0A)" "\<not> is_alnum (CHR '':'')"
    by code_simp+
  have ca: "\<not> ContainsAny r [CHR ''#'', CHR ''/'', CHR '' '', CHR 0x09, CHR 0x0D, CHR 0x0A]"
    using r special by (auto simp: ContainsAny_def list_ex_iff)
  have "CHR '':'' \<notin> set r" using r special by auto
  then have rr: "ReplaceAll r (CHR '':'') (CHR ''/'') = r"
    by (induction r) (auto simp: ReplaceAll_def)
  from ca rr assms(2) show ?thesis
    by (auto simp: encode_def ContainsAny_def ReplaceAll_def split: if_splits)
qed

text \<open>
  C18. When a plain subject is stored as the user of a role holder: for exactly one subject,
  the realm and the holder's subject joined by a colon. A subject without a colon never is;
  a federated subject, which Keycloak writes with colons, can be, since \<^const>\<open>encode\<close> turns
  the colon into the slash that \<^const>\<open>HolderUser\<close> separates the realm with.
\<close>

theorem plain_user_is_holder_iff:
  assumes "HolderUser r s = Inr u"
  shows "User t = Inr u \<longleftrightarrow> t = r @ '':'' @ s"
proof -
  from assms obtain i where i: "holderRealm r" "encode s = Inr i" "u = ''user:'' @ r @ ''/'' @ i"
    by (auto dest: HolderUser_InrD)
  have enc: "encode (r @ '':'' @ s) = Inr (r @ ''/'' @ i)" by (rule encode_realm_colon [OF i(1,2)])
  show ?thesis
  proof
    assume "User t = Inr u"
    then obtain j where "encode t = Inr j" "u = ''user:'' @ j" by (blast dest: User_InrD)
    with i(3) have "encode t = Inr (r @ ''/'' @ i)" by simp
    from this enc show "t = r @ '':'' @ s" by (rule encode_inj)
  next
    assume "t = r @ '':'' @ s"
    then have "encode t = Inr (r @ ''/'' @ i)" using enc by (simp only:)
    then show "User t = Inr u" by (simp only: User_def sum.case i(3))
  qed
qed

theorem plain_user_is_holder_iff_witness:
  "HolderUser ''f'' ''ldap:42'' = Inr ''user:f/ldap/42'' \<and>
   (User ''f:ldap:42'' = Inr ''user:f/ldap/42'' \<longleftrightarrow> ''f:ldap:42'' = ''f'' @ '':'' @ ''ldap:42'')"
proof -
  have h: "HolderUser ''f'' ''ldap:42'' = Inr ''user:f/ldap/42''" by code_simp
  show ?thesis using h plain_user_is_holder_iff [OF h, of "''f:ldap:42''"] by simp
qed

lemma Cut_append:
  "c \<notin> set a \<Longrightarrow> Cut (a @ c # b) c = (a, b, True)"
proof -
  assume "c \<notin> set a"
  then have "takeWhile (\<lambda>x. x \<noteq> c) (a @ c # b) = a" "dropWhile (\<lambda>x. x \<noteq> c) (a @ c # b) = c # b"
    by (auto simp: takeWhile_append dropWhile_append)
  then show ?thesis by (simp add: Cut_def)
qed

text \<open>
  Display: the console shows a group holding a role under the Keycloak name it was stored from.
\<close>

theorem display_group_roundtrip:
  assumes "Group g = Inr grp"
  shows "displayGroup (grp @ ''#member'') = g"
proof -
  from assms obtain i where i: "encode g = Inr i" "grp = ''group:'' @ i" by (auto dest: Group_InrD)
  have "CHR ''#'' \<notin> set i" using i(1) by (rule encode_no_hash)
  then have c: "Cut (i @ ''#member'') (CHR ''#'') = (i, ''member'', True)"
    using Cut_append [of "CHR ''#''" i "''member''"] by simp
  have "ReplaceAll i (CHR ''/'') (CHR '':'') = g"
    using encode_InrD(2,4) [OF i(1)] by (simp add: ReplaceAll_back)
  then show ?thesis
    using c i(2) by (simp add: displayGroup_def CutPrefix_def HasPrefix_def)
qed

theorem display_group_roundtrip_witness:
  "Group ''gentian:tenant:demo:admins'' = Inr ''group:gentian/tenant/demo/admins'' \<and>
   displayGroup (''group:gentian/tenant/demo/admins'' @ ''#member'') = ''gentian:tenant:demo:admins''"
proof -
  have h: "Group ''gentian:tenant:demo:admins'' = Inr ''group:gentian/tenant/demo/admins''" by code_simp
  show ?thesis using h display_group_roundtrip [OF h] by simp
qed


lemma CutPrefix_True: "CutPrefix s p = (t, True) \<longleftrightarrow> s = p @ t"
  by (auto simp: CutPrefix_def HasPrefix_def prefix_def)

lemmas scope_defs = EntryScope_def HolderScope_def ScopeCluster_def PlatformTenant_def

lemma HolderScope_True:
  assumes "HolderScope role tenant = (scope, True)"
  shows "(role = ''securityOfficer'' \<or> role = ''auditor'') \<and> scope = ScopeCluster \<or>
    (role = ''serviceAdmin'' \<or> role = ''sharedAppsAdmin'' \<or> role = ''breakGlass'') \<and>
      tenant = PlatformTenant \<and> scope = ScopeCluster \<or>
    role = ''perimeterApprover'' \<and> tenant = PlatformTenant \<and> scope = ScopeCluster \<or>
    role = ''perimeterApprover'' \<and> tenant \<noteq> PlatformTenant \<and> scope = Tenant tenant"
  using assms unfolding HolderScope_def Let_def Tenant_def
  by (simp only: prod.inject simp_thms split: if_splits)

lemma HolderRoles_fst:
  "role \<in> set (map fst HolderRoles) \<longleftrightarrow>
     role = ''securityOfficer'' \<or> role = ''auditor'' \<or> role = ''serviceAdmin'' \<or>
     role = ''sharedAppsAdmin'' \<or> role = ''perimeterApprover'' \<or> role = ''tenantAuditor'' \<or>
     role = ''breakGlass''"
  by (simp add: HolderRoles_def)

text \<open>
  How far a role held by name reaches: an entry that holds anything holds a role of the
  list, over the scope it states if it states one; a person of any tenant but the platform's
  reaches past their own tenant only as a security officer or an auditor; and one who audits
  a single tenant is of the platform tenant and audits another one.
\<close>

theorem entry_scope_reach:
  assumes "EntryScope role tenant stated = (scope, True)"
  shows "role \<in> set (map fst HolderRoles) \<and> (stated \<noteq> [] \<longrightarrow> stated = scope) \<and>
    (tenant \<noteq> PlatformTenant \<longrightarrow>
       (role = ''securityOfficer'' \<or> role = ''auditor'') \<and> scope = ScopeCluster \<or>
       role = ''perimeterApprover'' \<and> scope = Tenant tenant) \<and>
    (role = ''tenantAuditor'' \<longrightarrow>
       tenant = PlatformTenant \<and>
       (\<exists>t. scope = Tenant t \<and> ValidTenantName t \<and> t \<noteq> PlatformTenant))"
proof (cases "role = ''tenantAuditor''")
  case True
  obtain t named where c: "CutPrefix stated ''tenant:'' = (t, named)" by fastforce
  with assms True have "named" "tenant = PlatformTenant" "ValidTenantName t" "t \<noteq> PlatformTenant"
      "scope = stated"
    by (auto simp: EntryScope_def split: if_splits)
  moreover from this c have "stated = Tenant t" using CutPrefix_True by (simp add: Tenant_def)
  ultimately show ?thesis using True by (auto simp: HolderRoles_def)
next
  case False
  then have h: "HolderScope role tenant = (scope, True)" "stated \<noteq> [] \<longrightarrow> stated = scope"
    using assms by (auto simp: EntryScope_def split: if_splits prod.splits)
  from HolderScope_True [OF h(1)] show ?thesis
    using h(2) False unfolding HolderRoles_fst by (elim disjE conjE) simp_all
qed

theorem entry_scope_reach_witness:
  "EntryScope ''perimeterApprover'' ''demo'' [] = (''tenant:demo'', True) \<and>
   ''tenant:demo'' = Tenant ''demo''"
proof -
  have h: "EntryScope ''perimeterApprover'' ''demo'' [] = (''tenant:demo'', True)" by code_simp
  show ?thesis using h entry_scope_reach [OF h] by (simp add: PlatformTenant_def)
qed

lemma rolesFromClaim_loop_Cons:
  "rolesFromClaim_loop ((f, g) # cs) roles unknown =
     rolesFromClaim_loop cs
       (case map_of ClaimRoles f of
          Some rel \<Rightarrow> (if g \<noteq> [] then AList.update rel g roles else roles) | None \<Rightarrow> roles)
       (case map_of ClaimRoles f of None \<Rightarrow> unknown @ [f] | Some rel \<Rightarrow> unknown)"
  by (simp split: option.split)

declare rolesFromClaim_loop.simps(2) [simp del]

lemma ClaimRoles_groupRelation: "map_of ClaimRoles f = Some rel \<Longrightarrow> groupRelation rel"
  by (auto simp: groupRelation_def list_ex_iff dest: map_of_SomeD)

lemma rolesFromClaim_loop_keys:
  "rolesFromClaim_loop cs roles unknown = (roles', unknown') \<Longrightarrow>
   \<forall>rel \<in> fst ` set roles. groupRelation rel \<Longrightarrow> \<forall>rel \<in> fst ` set roles'. groupRelation rel"
proof (induction cs arbitrary: roles unknown)
  case (Cons c cs)
  obtain f g where c: "c = (f, g)" by fastforce
  let ?r = "case map_of ClaimRoles f of
          Some rel \<Rightarrow> (if g \<noteq> [] then AList.update rel g roles else roles) | None \<Rightarrow> roles"
  have "\<forall>rel \<in> fst ` set ?r. groupRelation rel"
    using Cons.prems(2) ClaimRoles_groupRelation [of f]
    by (cases "map_of ClaimRoles f"; cases "g = []") (simp_all only: option.case if_True if_False simp_thms ball_keys_update)
  with Cons.prems(1) show ?case
    unfolding c rolesFromClaim_loop_Cons by (rule Cons.IH)
qed simp

lemma rolesFromClaim_loop_unknown:
  "rolesFromClaim_loop cs roles unknown = (roles', unknown') \<Longrightarrow>
   set unknown' = set unknown \<union> {f \<in> fst ` set cs. map_of ClaimRoles f = None}"
proof (induction cs arbitrary: roles unknown)
  case (Cons c cs)
  obtain f g where c: "c = (f, g)" by fastforce
  show ?case
    using Cons.IH [OF Cons.prems [unfolded c rolesFromClaim_loop_Cons]]
    by (cases "map_of ClaimRoles f") (auto simp: c)
qed simp

lemma rolesFromClaim_loop_untouched:
  "rolesFromClaim_loop cs roles unknown = (roles', unknown') \<Longrightarrow>
   \<forall>f g. (f, g) \<in> set cs \<longrightarrow> map_of ClaimRoles f \<noteq> Some rel \<Longrightarrow>
   map_of roles' rel = map_of roles rel"
proof (induction cs arbitrary: roles unknown)
  case (Cons c cs)
  obtain f g where c: "c = (f, g)" by fastforce
  with Cons.prems(2) have f: "map_of ClaimRoles f \<noteq> Some rel"
    and rest: "\<forall>f g. (f, g) \<in> set cs \<longrightarrow> map_of ClaimRoles f \<noteq> Some rel" by auto
  have "map_of roles' rel = map_of (case map_of ClaimRoles f of
          Some rel \<Rightarrow> (if g \<noteq> [] then AList.update rel g roles else roles) | None \<Rightarrow> roles) rel"
    using Cons.prems(1) rest unfolding c rolesFromClaim_loop_Cons by (rule Cons.IH)
  with f show ?case by (auto simp: update_conv split: option.splits)
qed simp

lemma ClaimRoles_inj: "map_of ClaimRoles f = Some r \<Longrightarrow> map_of ClaimRoles f' = Some r \<Longrightarrow> f = f'"
  by (auto simp: ClaimRoles_def split: if_splits)

lemma rolesFromClaim_loop_lookup:
  "rolesFromClaim_loop cs roles unknown = (roles', unknown') \<Longrightarrow> distinct (map fst cs) \<Longrightarrow>
   (f, g) \<in> set cs \<Longrightarrow> g \<noteq> [] \<Longrightarrow> map_of ClaimRoles f = Some rel \<Longrightarrow> map_of roles' rel = Some g"
proof (induction cs arbitrary: roles unknown)
  case (Cons c cs)
  obtain f' g' where c: "c = (f', g')" by fastforce
  note step = Cons.prems(1) [unfolded c rolesFromClaim_loop_Cons]
  show ?case
  proof (cases "(f, g) = c")
    case True
    then have "\<forall>f2 g2. (f2, g2) \<in> set cs \<longrightarrow> map_of ClaimRoles f2 \<noteq> Some rel"
      using Cons.prems(2,5) ClaimRoles_inj c by (auto simp: image_iff)
    from rolesFromClaim_loop_untouched [OF step this] True c Cons.prems(4,5) show ?thesis
      by (simp add: update_conv)
  next
    case False
    then have "(f, g) \<in> set cs" using Cons.prems(3) by auto
    moreover have "distinct (map fst cs)" using Cons.prems(2) by simp
    ultimately show ?thesis using Cons.IH [OF step] Cons.prems(4,5) by blast
  qed
qed simp

text \<open>
  The claim's group roles: every relation the claim's fields are translated to is one a
  group may hold, so the reconciliation never refuses the translation; a known field with a
  group grants its relation to that group; the unknown fields are reported, all of them and
  nothing else.
\<close>

theorem roles_from_claim_sound:
  assumes "RolesFromClaim claim = (roles, unknown)" and "distinct (map fst claim)"
  shows "(\<forall>rel \<in> fst ` set roles. groupRelation rel) \<and>
    (\<forall>f g rel. (f, g) \<in> set claim \<and> g \<noteq> [] \<and> map_of ClaimRoles f = Some rel \<longrightarrow>
       map_of roles rel = Some g) \<and>
    set unknown = {f \<in> fst ` set claim. map_of ClaimRoles f = None} \<and> sorted unknown"
proof -
  obtain u where l: "rolesFromClaim_loop claim [] [] = (roles, u)" and u: "unknown = sort u"
    using assms(1) by (auto simp: RolesFromClaim_def split: prod.splits)
  show ?thesis
    using rolesFromClaim_loop_keys [OF l] rolesFromClaim_loop_unknown [OF l]
      rolesFromClaim_loop_lookup [OF l assms(2)] u
    by auto
qed

theorem roles_from_claim_sound_witness:
  "RolesFromClaim [(''breakGlass'', ''gentian:platform:break-glass''), (''owner'', ''x'')] =
     ([(''break_glass'', ''gentian:platform:break-glass'')], [''owner'']) \<and> groupRelation ''break_glass''"
proof -
  have h: "RolesFromClaim [(''breakGlass'', ''gentian:platform:break-glass''), (''owner'', ''x'')] =
     ([(''break_glass'', ''gentian:platform:break-glass'')], [''owner''])" by code_simp
  show ?thesis using h roles_from_claim_sound [OF h] by simp
qed

end
