(* ===== verification/Rights_Store.thy ===== *)
theory Rights_Store
  imports Go_Prelude
begin

section \<open>The rights store and its client\<close>

text \<open>
  Package \<open>internal/openfga\<close>: the client every part of the platform writes and reads OpenFGA
  with. The server is not part of the sources; what the client relies on is the locale
  \<open>rights_server\<close> (a read answers the stored entries that match, a write request is atomic) and,
  for a server that answers, \<open>live_server\<close>. The in-memory store the repository's own tests
  run against (\<open>internal/membership/membership_test.go\<close>, with OpenFGA's write semantics)
  interprets both.
\<close>

subsection \<open>Entries and filters\<close>

record tuple =
  t_user :: string
  t_relation :: string
  t_object :: string

abbreviation tup :: "string \<Rightarrow> string \<Rightarrow> string \<Rightarrow> tuple" where
  "tup u r ob \<equiv> \<lparr>t_user = u, t_relation = r, t_object = ob\<rparr>"

definition key :: "tuple \<Rightarrow> string" where
  "key t = t_user t @ ''|'' @ t_relation t @ ''|'' @ t_object t"

definition plain :: "tuple \<Rightarrow> tuple" where
  "plain t = tup (t_user t) (t_relation t) (t_object t)"

lemma tup_eta [simp]: "tup (t_user t) (t_relation t) (t_object t) = t"
  by simp

lemma plain_id [simp]: "plain t = t"
  by (simp add: plain_def)

text \<open>An empty field of a filter matches everything; an object filter may be a bare type.\<close>

definition matches :: "tuple \<Rightarrow> tuple \<Rightarrow> bool" where
  "matches f t \<longleftrightarrow>
     (t_user f = [] \<or> t_user f = t_user t) \<and>
     (t_relation f = [] \<or> t_relation f = t_relation t) \<and>
     (t_object f = [] \<or> t_object f = t_object t \<or>
      HasSuffix (t_object f) '':'' \<and> HasPrefix (t_object t) (t_object f))"

subsection \<open>Write requests\<close>

definition MaxWrite :: nat where
  "MaxWrite = 100"

datatype write_kind = KDeletes | KWrites

record write_request =
  wr_kind :: write_kind
  wr_tuples :: "tuple list"
  wr_policy :: "string option"
  wr_model :: "string option"

record write_options =
  wo_model :: string
  wo_on_duplicate :: string
  wo_on_missing :: string

definition unlessEmpty :: "string \<Rightarrow> string option" where
  "unlessEmpty s = (if s = [] then None else Some s)"

text \<open>
  The loop of \<open>Write\<close>: at most \<^const>\<open>MaxWrite\<close> entries a request, until none is left or a
  request fails. \<open>post\<close> is the request to the server, on the state of the server.
\<close>

function send ::
  "('w \<Rightarrow> write_request \<Rightarrow> 'e option \<times> 'w) \<Rightarrow> write_kind \<Rightarrow> string \<Rightarrow> string \<Rightarrow> 'w \<Rightarrow> tuple list \<Rightarrow>
   'e option \<times> 'w" where
  "send post kind policy model w tuples =
     (if tuples = [] then (None, w)
      else
        (let n = min (length tuples) MaxWrite in
         case post w \<lparr>wr_kind = kind, wr_tuples = take n tuples,
                      wr_policy = unlessEmpty policy, wr_model = unlessEmpty model\<rparr> of
           (Some e, w') \<Rightarrow> (Some e, w')
         | (None, w') \<Rightarrow> send post kind policy model w' (drop n tuples)))"
  by pat_completeness auto
termination
  by (relation "measure (\<lambda>(post, kind, policy, model, w, tuples). length tuples)")
    (auto simp: MaxWrite_def)

declare send.simps [simp del]

definition Write ::
  "('w \<Rightarrow> write_request \<Rightarrow> 'e option \<times> 'w) \<Rightarrow> tuple list \<Rightarrow> tuple list \<Rightarrow> write_options \<Rightarrow> 'w \<Rightarrow>
   'e option \<times> 'w" where
  "Write post writes deletes opts w =
     (case send post KDeletes (wo_on_missing opts) (wo_model opts) w deletes of
        (Some e, w') \<Rightarrow> (Some e, w')
      | (None, w') \<Rightarrow> send post KWrites (wo_on_duplicate opts) (wo_model opts) w' writes)"

subsection \<open>Paged reads\<close>

text \<open>
  The loop of \<open>Read\<close> and of \<open>StoresNamed\<close>: pages are followed until the server hands out an
  empty token. Nothing in the client bounds the number of pages.
\<close>

partial_function (option) follow ::
  "(string \<Rightarrow> 'e + 'a list \<times> string) \<Rightarrow> string \<Rightarrow> 'a list \<Rightarrow> ('e + 'a list) option" where
  "follow page token out =
     (case page token of
        Inl e \<Rightarrow> Some (Inl e)
      | Inr p \<Rightarrow>
          (if snd p = [] then Some (Inr (out @ fst p))
           else follow page (snd p) (out @ fst p)))"

definition Read :: "(tuple \<Rightarrow> string \<Rightarrow> 'e + tuple list \<times> string) \<Rightarrow> tuple \<Rightarrow> ('e + tuple list) option" where
  "Read page flt = follow (page flt) [] []"

subsection \<open>What the client relies on\<close>

lemma send_Nil [simp]: "send post kind policy model w [] = (None, w)"
  by (simp add: send.simps)

lemma send_step:
  "tuples \<noteq> [] \<Longrightarrow> send post kind policy model w tuples =
     (case post w \<lparr>wr_kind = kind, wr_tuples = take MaxWrite tuples,
                   wr_policy = unlessEmpty policy, wr_model = unlessEmpty model\<rparr> of
        (Some e, w') \<Rightarrow> (Some e, w')
      | (None, w') \<Rightarrow> send post kind policy model w' (drop MaxWrite tuples))"
proof -
  have "take (min (length tuples) MaxWrite) tuples = take MaxWrite tuples"
    "drop (min (length tuples) MaxWrite) tuples = drop MaxWrite tuples"
    by (auto simp: min_def)
  moreover assume "tuples \<noteq> []"
  ultimately show ?thesis
    by (simp add: send.simps [of post kind policy model w tuples] Let_def split: prod.split option.split)
qed

lemma drop_MaxWrite_less: "ts \<noteq> [] \<Longrightarrow> length (drop MaxWrite ts) < length ts"
  by (simp add: MaxWrite_def)

locale rights_server =
  fixes stored :: "'w \<Rightarrow> tuple set"
    and rd :: "'w \<Rightarrow> tuple \<Rightarrow> 'e + tuple list"
    and post :: "'w \<Rightarrow> write_request \<Rightarrow> 'e option \<times> 'w"
  assumes rd_sound: "rd w f = Inr ts \<Longrightarrow> set ts = {t \<in> stored w. matches f t}"
    and rd_distinct: "rd w f = Inr ts \<Longrightarrow> distinct ts"
    and post_atomic: "post w r = (Some e, w') \<Longrightarrow> stored w' = stored w"
    and post_deletes:
      "post w r = (None, w') \<Longrightarrow> wr_kind r = KDeletes \<Longrightarrow> stored w' = stored w - set (wr_tuples r)"
    and post_writes:
      "post w r = (None, w') \<Longrightarrow> wr_kind r = KWrites \<Longrightarrow> stored w' = stored w \<union> set (wr_tuples r)"
begin

text \<open>A loop of requests applies a first part of its entries, all of them when it does not fail.\<close>

lemma send_applies:
  "send post kind policy model w ts = (r, w') \<Longrightarrow>
   \<exists>n. stored w' = (if kind = KDeletes then stored w - set (take n ts) else stored w \<union> set (take n ts)) \<and>
       (r = None \<longrightarrow> length ts \<le> n)"
proof (induction "length ts" arbitrary: w ts rule: less_induct)
  case less
  show ?case
  proof (cases "ts = []")
    case True
    with less.prems show ?thesis by (auto intro: exI [of _ 0])
  next
    case False
    let ?r = "\<lparr>wr_kind = kind, wr_tuples = take MaxWrite ts,
               wr_policy = unlessEmpty policy, wr_model = unlessEmpty model\<rparr>"
    obtain e w1 where p: "post w ?r = (e, w1)" by fastforce
    show ?thesis
    proof (cases e)
      case (Some err)
      with less.prems p False have "r = Some err" "w' = w1" by (auto simp: send_step)
      with post_atomic p Some show ?thesis by (auto intro!: exI [of _ 0])
    next
      case None
      then have "send post kind policy model w1 (drop MaxWrite ts) = (r, w')"
        using less.prems p False by (simp add: send_step)
      from less.hyps [OF drop_MaxWrite_less [OF False] this] obtain n where n:
        "stored w' = (if kind = KDeletes then stored w1 - set (take n (drop MaxWrite ts))
                      else stored w1 \<union> set (take n (drop MaxWrite ts)))"
        "r = None \<longrightarrow> length (drop MaxWrite ts) \<le> n" by blast
      have t: "set (take (MaxWrite + n) ts) = set (take MaxWrite ts) \<union> set (take n (drop MaxWrite ts))"
        by (simp only: take_add set_append)
      have s: "stored w1 = (if kind = KDeletes then stored w - set (take MaxWrite ts)
                            else stored w \<union> set (take MaxWrite ts))"
        using p None post_deletes [of w ?r w1] post_writes [of w ?r w1] by (cases kind) auto
      show ?thesis
        by (rule exI [of _ "MaxWrite + n"]) (use n s t in auto)
    qed
  qed
qed

lemma Write_applies:
  assumes "Write post writes deletes opts w = (r, w')"
  shows "(r = None \<longrightarrow> stored w' = (stored w - set deletes) \<union> set writes) \<and>
    ((\<exists>n. stored w' = stored w - set (take n deletes)) \<or>
     (\<exists>n. stored w' = (stored w - set deletes) \<union> set (take n writes)))"
proof -
  obtain e w1 where d: "send post KDeletes (wo_on_missing opts) (wo_model opts) w deletes = (e, w1)"
    by fastforce
  from send_applies [OF d] obtain n where n: "stored w1 = stored w - set (take n deletes)"
    "e = None \<longrightarrow> length deletes \<le> n" by auto
  show ?thesis
  proof (cases e)
    case (Some err)
    with assms d have "r = Some err" "w' = w1" by (auto simp: Write_def)
    with n show ?thesis by auto
  next
    case None
    then have s: "send post KWrites (wo_on_duplicate opts) (wo_model opts) w1 writes = (r, w')"
      using assms d by (simp add: Write_def)
    from send_applies [OF s] obtain m where m: "stored w' = stored w1 \<union> set (take m writes)"
      "r = None \<longrightarrow> length writes \<le> m" by auto
    from n None have w1: "stored w1 = stored w - set deletes" by simp
    show ?thesis using m w1 by auto
  qed
qed

end

text \<open>A server that answers: what it is documented to accept, it accepts.\<close>

locale live_server = rights_server +
  assumes rd_total: "\<exists>ts. rd w f = Inr ts"
    and post_deletes_ok:
      "wr_kind r = KDeletes \<Longrightarrow> wr_tuples r \<noteq> [] \<Longrightarrow> length (wr_tuples r) \<le> MaxWrite \<Longrightarrow>
       distinct (wr_tuples r) \<Longrightarrow> set (wr_tuples r) \<subseteq> stored w \<Longrightarrow> \<exists>w'. post w r = (None, w')"
    and post_writes_ok:
      "wr_kind r = KWrites \<Longrightarrow> wr_tuples r \<noteq> [] \<Longrightarrow> length (wr_tuples r) \<le> MaxWrite \<Longrightarrow>
       distinct (wr_tuples r) \<Longrightarrow> set (wr_tuples r) \<inter> stored w = {} \<Longrightarrow> \<exists>w'. post w r = (None, w')"
begin

lemma send_succeeds:
  "distinct ts \<Longrightarrow> (kind = KDeletes \<longrightarrow> set ts \<subseteq> stored w) \<Longrightarrow>
   (kind = KWrites \<longrightarrow> set ts \<inter> stored w = {}) \<Longrightarrow> \<exists>w'. send post kind policy model w ts = (None, w')"
proof (induction "length ts" arbitrary: w ts rule: less_induct)
  case less
  show ?case
  proof (cases "ts = []")
    case False
    let ?r = "\<lparr>wr_kind = kind, wr_tuples = take MaxWrite ts,
               wr_policy = unlessEmpty policy, wr_model = unlessEmpty model\<rparr>"
    have dis: "set (take MaxWrite ts) \<inter> set (drop MaxWrite ts) = {}"
      using less.prems(1) by (rule set_take_disj_set_drop_if_distinct) simp
    have sub: "set (take MaxWrite ts) \<subseteq> set ts" "set (drop MaxWrite ts) \<subseteq> set ts"
      by (auto dest: in_set_takeD in_set_dropD)
    have ne: "take MaxWrite ts \<noteq> []" using False by (simp add: MaxWrite_def)
    have dt: "distinct (take MaxWrite ts)" using less.prems(1) by simp
    have "\<exists>w1. post w ?r = (None, w1)"
    proof (cases kind)
      case KDeletes
      then show ?thesis
        using post_deletes_ok [of ?r w] less.prems(2) sub(1) ne dt by auto
    next
      case KWrites
      then show ?thesis
        using post_writes_ok [of ?r w] less.prems(3) sub(1) ne dt by auto
    qed
    then obtain w1 where p: "post w ?r = (None, w1)" by blast
    have s: "stored w1 = (if kind = KDeletes then stored w - set (take MaxWrite ts)
                          else stored w \<union> set (take MaxWrite ts))"
      using p post_deletes [of w ?r w1] post_writes [of w ?r w1] by (cases kind) auto
    have "\<exists>w'. send post kind policy model w1 (drop MaxWrite ts) = (None, w')"
      by (rule less.hyps [OF drop_MaxWrite_less [OF False]])
        (use less.prems dis sub s in auto)
    with p False show ?thesis by (simp add: send_step)
  qed simp
qed

lemma Write_succeeds:
  assumes "distinct deletes" "set deletes \<subseteq> stored w" "distinct writes" "set writes \<inter> stored w = {}"
  shows "\<exists>w'. Write post writes deletes opts w = (None, w')"
proof -
  have "\<exists>w1. send post KDeletes (wo_on_missing opts) (wo_model opts) w deletes = (None, w1)"
    by (rule send_succeeds [OF assms(1)]) (simp_all add: assms(2))
  then obtain w1 where d: "send post KDeletes (wo_on_missing opts) (wo_model opts) w deletes = (None, w1)"
    by blast
  from send_applies [OF d] have "stored w1 = stored w - set deletes" by fastforce
  with assms(4) have "set writes \<inter> stored w1 = {}" by blast
  then have "\<exists>w'. send post KWrites (wo_on_duplicate opts) (wo_model opts) w1 writes = (None, w')"
    by (intro send_succeeds [OF assms(3)]) simp_all
  with d show ?thesis by (simp add: Write_def)
qed

end


subsection \<open>The store of the repository's tests\<close>

text \<open>
  \<open>membership_test.go\<close>: a set of entries. Writing one that exists or deleting one that does not
  fails the request, as it does at OpenFGA.
\<close>

datatype mem_err = DoesNotExist tuple | AlreadyExists tuple

type_synonym memory = "tuple list"

definition mem_read :: "memory \<Rightarrow> tuple \<Rightarrow> mem_err + tuple list" where
  "mem_read m f = Inr (filter (matches f) (remdups m))"

definition mem_write :: "memory \<Rightarrow> tuple list \<Rightarrow> tuple list \<Rightarrow> mem_err option \<times> memory" where
  "mem_write m writes deletes =
     (case find (\<lambda>t. t \<notin> set m) deletes of
        Some t \<Rightarrow> (Some (DoesNotExist t), m)
      | None \<Rightarrow>
          (case find (\<lambda>t. t \<in> set m) writes of
             Some t \<Rightarrow> (Some (AlreadyExists t), m)
           | None \<Rightarrow> (None, filter (\<lambda>t. t \<notin> set deletes) m @ writes)))"

text \<open>One request to it carries deletes or writes.\<close>

definition mem_post :: "memory \<Rightarrow> write_request \<Rightarrow> mem_err option \<times> memory" where
  "mem_post m r =
     (case wr_kind r of KDeletes \<Rightarrow> mem_write m [] (wr_tuples r) | KWrites \<Rightarrow> mem_write m (wr_tuples r) [])"

lemma mem_post_cases:
  "mem_post m r = (e, m') \<Longrightarrow>
   (wr_kind r = KDeletes \<longrightarrow> e = None \<longrightarrow> set m' = set m - set (wr_tuples r)) \<and>
   (wr_kind r = KWrites \<longrightarrow> e = None \<longrightarrow> set m' = set m \<union> set (wr_tuples r)) \<and>
   (e \<noteq> None \<longrightarrow> m' = m)"
  by (cases "wr_kind r") (auto simp: mem_post_def mem_write_def split: option.splits)

interpretation mem: live_server "set :: memory \<Rightarrow> tuple set" mem_read mem_post
proof unfold_locales
  fix w f ts assume "mem_read w f = Inr ts"
  then show "set ts = {t \<in> set w. matches f t}" "distinct ts"
    by (auto simp: mem_read_def)
next
  fix w r e w' assume "mem_post w r = (Some e, w')"
  then show "set w' = set w" using mem_post_cases by blast
next
  fix w r w' assume "mem_post w r = (None, w')"
  note c = mem_post_cases [OF this]
  show "wr_kind r = KDeletes \<Longrightarrow> set w' = set w - set (wr_tuples r)"
    "wr_kind r = KWrites \<Longrightarrow> set w' = set w \<union> set (wr_tuples r)" using c by auto
next
  fix w f show "\<exists>ts. mem_read w f = Inr ts" by (simp add: mem_read_def)
next
  fix r :: write_request and w :: memory
  show "\<exists>w'. mem_post w r = (None, w')"
    if "wr_kind r = KDeletes" "set (wr_tuples r) \<subseteq> set w"
    using that by (auto simp: mem_post_def mem_write_def find_Some_iff split: option.split)
  show "\<exists>w'. mem_post w r = (None, w')"
    if "wr_kind r = KWrites" "set (wr_tuples r) \<inter> set w = {}"
    using that disjoint_iff nth_mem
    by (fastforce simp: mem_post_def mem_write_def find_Some_iff split: option.split)
qed

subsection \<open>Properties\<close>

text \<open>
  C16. A write: when it succeeds, the store is what it was without the deletes and with the
  writes. When it is cut off, a first part of the deletes has been applied and nothing
  written, or every delete and a first part of the writes: it never leaves an entry that was
  to be deleted beside one that was to be written.
\<close>

theorem write_deletes_before_it_writes:
  assumes "rights_server stored rd post"
    and "Write post writes deletes opts w = (r, w')"
  shows "(r = None \<longrightarrow> stored w' = (stored w - set deletes) \<union> set writes) \<and>
    ((\<exists>n. stored w' = stored w - set (take n deletes)) \<or>
     (\<exists>n. stored w' = (stored w - set deletes) \<union> set (take n writes)))"
  using assms by (rule rights_server.Write_applies)

theorem write_deletes_before_it_writes_witness:
  "\<exists>m'. Write mem_post [tup ''a'' ''r'' ''x''] [tup ''b'' ''r'' ''x'']
          \<lparr>wo_model = [], wo_on_duplicate = [], wo_on_missing = []\<rparr> [tup ''b'' ''r'' ''x''] = (None, m') \<and>
        set m' = {tup ''a'' ''r'' ''x''}"
proof -
  let ?w = "Write mem_post [tup ''a'' ''r'' ''x''] [tup ''b'' ''r'' ''x'']
          \<lparr>wo_model = [], wo_on_duplicate = [], wo_on_missing = []\<rparr> [tup ''b'' ''r'' ''x'']"
  have h: "?w = (None, [tup ''a'' ''r'' ''x''])"
    by (simp add: Write_def send_step MaxWrite_def mem_post_def mem_write_def)
  show ?thesis
    using h write_deletes_before_it_writes [OF mem.rights_server_axioms h] by simp
qed

text \<open>
  C17. A write that is well founded is carried out whole, however many requests it takes: on a
  server that answers, deleting entries that are there and writing entries that are not
  succeeds.
\<close>

theorem write_succeeds:
  assumes "live_server stored rd post"
    and "distinct deletes" "set deletes \<subseteq> stored w" "distinct writes" "set writes \<inter> stored w = {}"
  shows "\<exists>w'. Write post writes deletes opts w = (None, w') \<and>
              stored w' = (stored w - set deletes) \<union> set writes"
proof -
  from live_server.Write_succeeds [OF assms]
  obtain w' where w': "Write post writes deletes opts w = (None, w')" by blast
  with rights_server.Write_applies [OF live_server.axioms(1) [OF assms(1)] w'] show ?thesis by simp
qed

theorem write_succeeds_witness:
  "\<exists>m'. Write mem_post [tup ''a'' ''r'' ''x''] [tup ''b'' ''r'' ''x'']
          \<lparr>wo_model = [], wo_on_duplicate = [], wo_on_missing = []\<rparr> [tup ''b'' ''r'' ''x''] = (None, m') \<and>
        set m' = ({tup ''b'' ''r'' ''x''} - {tup ''b'' ''r'' ''x''}) \<union> {tup ''a'' ''r'' ''x''}"
  using write_succeeds [OF mem.live_server_axioms,
    of "[tup ''b'' ''r'' ''x'']" "[tup ''b'' ''r'' ''x'']" "[tup ''a'' ''r'' ''x'']"]
  by simp

lemma follow_all:
  assumes "\<And>tok. \<exists>ts next. page tok = Inr (ts, next) \<and>
      rest tok = ts @ (if next = [] then [] else rest next) \<and> (next \<noteq> [] \<longrightarrow> left next < (left tok :: nat))"
  shows "follow page tok out = Some (Inr (out @ rest tok))"
proof (induction "left tok" arbitrary: tok out rule: less_induct)
  case less
  from assms [of tok] obtain ts nxt where p: "page tok = Inr (ts, nxt)"
    "rest tok = ts @ (if nxt = [] then [] else rest nxt)" "nxt \<noteq> [] \<longrightarrow> left nxt < left tok" by blast
  show ?case
    using p less.hyps [of nxt] by (simp add: follow.simps [of page tok out])
qed

text \<open>
  C10. A read returns every entry of the answer, in order, when the server's pages end: \<open>rest\<close>
  is what a token stands for and \<open>left\<close> how many pages it still has.
\<close>

theorem read_follows_every_page:
  fixes left :: "string \<Rightarrow> nat"
  assumes "\<And>tok. \<exists>ts next. page flt tok = Inr (ts, next) \<and>
      rest tok = ts @ (if next = [] then [] else rest next) \<and> (next \<noteq> [] \<longrightarrow> left next < left tok)"
  shows "Read page flt = Some (Inr (rest []))"
  using follow_all [of "page flt" rest left "[]" "[]"] assms by (simp add: Read_def)

text \<open>Two pages, the first without an entry: an empty page is not the end while it carries a token.\<close>

theorem read_follows_every_page_witness:
  "Read (\<lambda>(flt :: tuple) tok. Inr (if tok = [] then ([], ''next'') else ([tup ''a'' ''r'' ''x''], [])) :: unit + tuple list \<times> string)
     (tup ''a'' [] []) = Some (Inr [tup ''a'' ''r'' ''x''])"
  by (rule read_follows_every_page [where rest = "\<lambda>tok. [tup ''a'' ''r'' ''x'']"
      and left = "\<lambda>tok. if tok = [] then 1 else 0"]) auto

end
