(* ===== verification/Rights_Reconcile.thy ===== *)
theory Rights_Reconcile
  imports Rights_Ids Rights_Store
begin

section \<open>Reconciling stored entries with wanted ones\<close>

text \<open>
  The part the reconciliations of \<open>internal/director/authz\<close> share (\<open>roles.go\<close>,
  \<open>tenants.go\<close>, \<open>apps.go\<close>): a map \<open>want\<close> from an entry's key to the entry, the pass over what is
  stored that takes a wanted entry out of the map and collects every other for deletion, and
  the write of what is left, sorted, skipped when there is nothing to change. The state of the
  server does not change between the reads: the operator is the one writer of these relations.
\<close>

subsection \<open>Definitions\<close>

datatype 'e reconcile_err =
    NotHeldByGroup string
  | BadRoleGroup string string id_err
  | NotHeldByHolder string
  | BadHolder string string id_err
  | BadTenant string id_err
  | BadApp string string id_err
  | ReadFailed string 'e
  | WriteFailed 'e

fun keepOrDelete ::
  "(string, tuple) gomap \<Rightarrow> tuple list \<Rightarrow> tuple list \<Rightarrow> (string, tuple) gomap \<times> tuple list" where
  "keepOrDelete want deletes [] = (want, deletes)"
| "keepOrDelete want deletes (t # hv) =
     (if map_of want (key t) \<noteq> None then keepOrDelete (AList.delete (key t) want) deletes hv
      else keepOrDelete want (deletes @ [plain t]) hv)"

text \<open>\<open>OpenFGA.Write\<close> of the director: the pinned model, no policy for duplicates.\<close>

definition modelOptions :: "string \<Rightarrow> write_options" where
  "modelOptions model = \<lparr>wo_model = model, wo_on_duplicate = [], wo_on_missing = []\<rparr>"

definition applyChange ::
  "('w \<Rightarrow> write_request \<Rightarrow> 'e option \<times> 'w) \<Rightarrow> string \<Rightarrow> tuple list \<Rightarrow> tuple list \<Rightarrow> 'w \<Rightarrow>
   'e reconcile_err option \<times> 'w" where
  "applyChange post model writes deletes w =
     (if writes = [] \<and> deletes = [] then (None, w)
      else case Write post (sort_key key writes) (sort_key key deletes) (modelOptions model) w of
             (Some e, w') \<Rightarrow> (Some (WriteFailed e), w')
           | (None, w') \<Rightarrow> (None, w'))"

subsection \<open>Keys\<close>

text \<open>
  The key of an entry is not injective on all strings, since a holder may contain the bar. It is
  on the entries of one object under relations without a bar, and an entry whose three parts
  have none shares its key with no other at all.
\<close>

lemma key_same_object:
  assumes "key s = key t" "t_object s = t_object t" "CHR ''|'' \<notin> set (t_relation s)" "CHR ''|'' \<notin> set (t_relation t)"
  shows "s = t"
proof -
  have "rev (t_relation s) @ CHR ''|'' # rev (t_user s) = rev (t_relation t) @ CHR ''|'' # rev (t_user t)"
    using arg_cong [OF assms(1), of rev] assms(2) by (simp add: key_def)
  then have "rev (t_relation s) = rev (t_relation t) \<and> rev (t_user s) = rev (t_user t)"
    using assms(3,4) by (intro append_sep_inj) auto
  with assms(2) show ?thesis by simp
qed

definition barFree :: "tuple \<Rightarrow> bool" where
  "barFree t \<longleftrightarrow> CHR ''|'' \<notin> set (t_user t) \<and> CHR ''|'' \<notin> set (t_relation t) \<and> CHR ''|'' \<notin> set (t_object t)"

lemma key_bar_count:
  "count_list (key t) (CHR ''|'') =
     2 + count_list (t_user t) (CHR ''|'') + count_list (t_relation t) (CHR ''|'') + count_list (t_object t) (CHR ''|'')"
  by (simp add: key_def)

lemma key_barFree:
  assumes k: "key s = key t" and t: "barFree t"
  shows "s = t"
proof -
  have "count_list (key s) (CHR ''|'') = 2"
    using t unfolding k key_bar_count barFree_def by (simp add: count_list_0_iff)
  then have s: "barFree s"
    unfolding key_bar_count barFree_def count_list_0_iff [symmetric] by linarith
  have e: "t_user s @ CHR ''|'' # (t_relation s @ CHR ''|'' # t_object s) =
           t_user t @ CHR ''|'' # (t_relation t @ CHR ''|'' # t_object t)"
    using k by (simp add: key_def)
  from append_sep_inj [OF _ _ e] s t
  have u: "t_user s = t_user t" and e': "t_relation s @ CHR ''|'' # t_object s = t_relation t @ CHR ''|'' # t_object t"
    by (simp_all only: barFree_def not_False_eq_True)
  from append_sep_inj [OF _ _ e'] s t have "t_relation s = t_relation t \<and> t_object s = t_object t"
    by (simp only: barFree_def not_False_eq_True)
  with u show ?thesis by simp
qed

subsection \<open>Filters\<close>

text \<open>
  A filter on an object matches the entries of that object alone, unless its id is that of a bare
  type, which ends in a colon.
\<close>

lemma matches_object:
  "\<not> HasSuffix object '':'' \<Longrightarrow> object \<noteq> [] \<Longrightarrow> rel \<noteq> [] \<Longrightarrow>
   matches (tup [] rel object) t \<longleftrightarrow> t_relation t = rel \<and> t_object t = object"
  by (auto simp: matches_def)

lemma matches_entry:
  "\<not> HasSuffix (t_object f) '':'' \<Longrightarrow> t_object f \<noteq> [] \<Longrightarrow> t_relation f \<noteq> [] \<Longrightarrow> t_user f \<noteq> [] \<Longrightarrow>
   matches f t \<longleftrightarrow> t = f"
  by (cases f; cases t) (auto simp: matches_def)

lemma HasSuffix_colon: "s \<noteq> [] \<Longrightarrow> HasSuffix (p @ s) '':'' \<longleftrightarrow> last s = CHR '':''"
  by (cases s rule: rev_cases) (auto simp: HasSuffix_def suffix_def)

lemma Cluster_ne [simp]: "Cluster c \<noteq> []"
  by (simp add: Cluster_def)

lemma Tenant_ne [simp]: "Tenant t \<noteq> []"
  by (simp add: Tenant_def)

lemma Tenant_inj [simp]: "Tenant s = Tenant t \<longleftrightarrow> s = t"
  by (simp add: Tenant_def)

subsection \<open>The pass over what is stored\<close>

lemma keepOrDelete_append:
  "keepOrDelete want deletes (xs @ ys) =
     keepOrDelete (fst (keepOrDelete want deletes xs)) (snd (keepOrDelete want deletes xs)) ys"
  by (induction want deletes xs rule: keepOrDelete.induct) auto

lemma keepOrDelete_want:
  "map_of (fst (keepOrDelete want deletes ts)) k = (if k \<in> key ` set ts then None else map_of want k)"
  by (induction want deletes ts rule: keepOrDelete.induct) (auto simp: delete_conv)

lemma keepOrDelete_distinct:
  "distinct (map fst want) \<Longrightarrow> distinct (map fst (fst (keepOrDelete want deletes ts)))"
  by (induction want deletes ts rule: keepOrDelete.induct) (auto simp: distinct_delete)

text \<open>The deletes, where a stored entry under a wanted key is the wanted entry.\<close>

lemma keepOrDelete_deletes:
  assumes "\<And>t v. t \<in> set ts \<Longrightarrow> map_of want (key t) = Some v \<Longrightarrow> v = t" "distinct ts"
  shows "snd (keepOrDelete want deletes ts) = deletes @ filter (\<lambda>t. map_of want (key t) = None) ts"
  using assms
proof (induction want deletes ts rule: keepOrDelete.induct)
  case (2 want deletes t ts)
  show ?case
  proof (cases "map_of want (key t)")
    case None
    then show ?thesis using 2 by simp
  next
    case (Some v)
    then have "v = t" using 2(3) by simp
    have k: "key s = key t \<longleftrightarrow> False" if "s \<in> set ts" for s
    proof -
      have "key s = key t \<Longrightarrow> v = s" using 2(3) [of s] that Some by simp
      with \<open>v = t\<close> that 2(4) show ?thesis by auto
    qed
    have "snd (keepOrDelete (AList.delete (key t) want) deletes ts) =
        deletes @ filter (\<lambda>s. map_of (AList.delete (key t) want) (key s) = None) ts"
      using 2(3,4) Some by (intro 2(1)) (auto simp: delete_conv split: if_splits)
    moreover have "filter (\<lambda>s. map_of (AList.delete (key t) want) (key s) = None) ts =
        filter (\<lambda>s. map_of want (key s) = None) ts"
      using k by (intro filter_cong) (auto simp: delete_conv)
    ultimately show ?thesis using Some by simp
  qed
qed simp

text \<open>A map that files every entry under its own key.\<close>

definition keyed :: "(string, tuple) gomap \<Rightarrow> bool" where
  "keyed want \<longleftrightarrow> distinct (map fst want) \<and> (\<forall>k t. map_of want k = Some t \<longrightarrow> k = key t)"

lemma keyed_Nil [simp]: "keyed []"
  by (simp add: keyed_def)

lemma keyed_update: "keyed want \<Longrightarrow> keyed (AList.update (key t) t want)"
  by (auto simp: keyed_def distinct_update update_conv)

lemma keyed_map_of:
  "keyed want \<Longrightarrow> map_of want k = Some t \<longleftrightarrow> t \<in> snd ` set want \<and> k = key t"
  using map_of_eq_Some_iff [of want k t] by (auto simp: keyed_def image_iff map_of_eq_Some_iff intro: bexI [of _ "(k, t)"])

lemma keyed_None:
  assumes "keyed want"
  shows "map_of want k = None \<longleftrightarrow> k \<notin> key ` snd ` set want"
proof -
  have "map_of want k = None \<longleftrightarrow> (\<nexists>t. map_of want k = Some t)" by (cases "map_of want k") simp_all
  then show ?thesis by (auto simp: keyed_map_of [OF assms])
qed

lemma keyed_keepOrDelete: "keyed want \<Longrightarrow> keyed (fst (keepOrDelete want deletes ts))"
  using keepOrDelete_distinct [of want deletes ts] by (simp add: keyed_def keepOrDelete_want)

lemma keyed_values_eq: "keyed want \<Longrightarrow> snd ` set want = {t. map_of want (key t) = Some t}"
  using keyed_map_of [of want] by blast

lemma keyed_update_values:
  assumes "keyed want"
  shows "snd ` set (AList.update (key t) t want) = insert t {v \<in> snd ` set want. key v \<noteq> key t}"
  unfolding keyed_values_eq [OF assms] keyed_values_eq [OF keyed_update [OF assms]]
  by (auto simp: update_conv split: if_splits)

text \<open>What a pass leaves to write, each entry once.\<close>

lemma keepOrDelete_writes:
  assumes "keyed want"
  shows "snd ` set (fst (keepOrDelete want deletes ts)) = {t \<in> snd ` set want. key t \<notin> key ` set ts}"
  unfolding keyed_values_eq [OF keyed_keepOrDelete [OF assms]] keyed_values_eq [OF assms]
  by (auto simp: keepOrDelete_want)

lemma keyed_distinct_values:
  assumes "keyed want"
  shows "distinct (map snd want)"
proof -
  have "inj_on snd (set want)"
  proof (rule inj_onI)
    fix p q assume pq: "p \<in> set want" "q \<in> set want" "snd p = snd q"
    have "fst r = key (snd r)" if "r \<in> set want" for r
      using assms that map_of_eq_Some_iff [of want "fst r" "snd r"] by (simp add: keyed_def)
    then show "p = q" using pq by (simp add: prod_eq_iff)
  qed
  then show ?thesis
    using assms by (simp add: keyed_def distinct_map distinct_map [of fst])
qed

text \<open>
  The change a pass ends in: what was passed over and is not wanted is deleted, what is wanted
  and was not passed over is written.
\<close>

lemma keepOrDelete_change:
  assumes k: "keyed want" and p: "keepOrDelete want [] ts = (want', deletes)" and d: "distinct ts"
    and agree: "\<forall>t \<in> set ts. \<forall>v \<in> snd ` set want. key t = key v \<longrightarrow> t = v"
  shows "distinct deletes" "distinct (map snd want')" "set deletes = set ts - snd ` set want"
    "set (map snd want') = snd ` set want - set ts"
proof -
  have w: "want' = fst (keepOrDelete want [] ts)" and dl: "deletes = snd (keepOrDelete want [] ts)"
    using p by simp_all
  have "v = t" if "t \<in> set ts" "map_of want (key t) = Some v" for t v
    using agree that keyed_map_of [OF k, of "key t" v] by blast
  then have e: "deletes = filter (\<lambda>t. map_of want (key t) = None) ts"
    using keepOrDelete_deletes [of ts want "[]"] d dl by simp
  show "distinct deletes" using e d by simp
  show "distinct (map snd want')"
    using keyed_distinct_values [OF keyed_keepOrDelete [OF k]] w by simp
  show sd: "set deletes = set ts - snd ` set want"
    using agree e keyed_None [OF k] by (fastforce simp: image_iff)
  show sw: "set (map snd want') = snd ` set want - set ts"
  proof -
    have "t \<in> set ts \<longleftrightarrow> key t \<in> key ` set ts" if "t \<in> snd ` set want" for t
      using agree that by (metis image_iff)
    then show ?thesis using keepOrDelete_writes [OF k, of "[]" ts] w by auto
  qed
qed

subsection \<open>A change of a region\<close>

text \<open>
  A change \<open>(writes, deletes)\<close> of the stored entries \<open>S\<close> brings a region \<open>R\<close> to the entries \<open>W\<close>: it
  deletes what is stored in \<open>R\<close> and not in \<open>W\<close> and writes what is missing of \<open>W\<close>, each once.
\<close>

definition brings :: "tuple set \<Rightarrow> tuple set \<Rightarrow> tuple set \<Rightarrow> tuple list \<times> tuple list \<Rightarrow> bool" where
  "brings S R W c \<longleftrightarrow> distinct (fst c) \<and> distinct (snd c) \<and> set (fst c) = W - S \<and> set (snd c) = S \<inter> R - W"

lemma brings_Nil: "brings S {} {} ([], [])"
  by (simp add: brings_def)

text \<open>Changes of regions that have nothing to do with each other can be made at once.\<close>

lemma brings_append:
  assumes "brings S R W (ws, ds)" "brings S R' W' (ws', ds')" "(R \<union> W) \<inter> (R' \<union> W') = {}"
  shows "brings S (R \<union> R') (W \<union> W') (ws @ ws', ds @ ds')"
  using assms unfolding brings_def by (auto simp: disjoint_iff)

lemma brings_keepOrDelete:
  assumes "keyed want" "keepOrDelete want [] ts = (want', deletes)" "distinct ts"
    "\<forall>t \<in> set ts. \<forall>v \<in> snd ` set want. key t = key v \<longrightarrow> t = v"
    "set ts = S \<inter> R" "snd ` set want \<subseteq> R"
  shows "brings S R (snd ` set want) (map snd want', deletes)"
proof -
  have "snd ` set want - set ts = snd ` set want - S" using assms(5,6) by blast
  then show ?thesis
    using keepOrDelete_change [OF assms(1-4)] assms(5) by (simp only: brings_def fst_conv snd_conv)
qed

subsection \<open>Applying the change\<close>

context live_server
begin

lemma applyChange_exact:
  assumes "distinct writes" "distinct deletes" "set deletes \<subseteq> stored w" "set writes \<inter> stored w = {}"
  shows "\<exists>w'. applyChange post model writes deletes w = (None, w') \<and>
              stored w' = (stored w - set deletes) \<union> set writes"
proof (cases "writes = [] \<and> deletes = []")
  case True
  then show ?thesis by (simp add: applyChange_def)
next
  case False
  have "\<exists>w'. Write post (sort_key key writes) (sort_key key deletes) (modelOptions model) w = (None, w')"
    using assms by (intro Write_succeeds) simp_all
  then obtain w' where w: "Write post (sort_key key writes) (sort_key key deletes) (modelOptions model) w = (None, w')"
    by blast
  with False Write_applies [OF w] show ?thesis by (auto simp: applyChange_def)
qed

lemma applyChange_brings:
  assumes "brings (stored w) R W (writes, deletes)"
  shows "\<exists>w'. applyChange post model writes deletes w = (None, w') \<and> stored w' = (stored w - R) \<union> W"
proof -
  have "(stored w - set deletes) \<union> set writes = (stored w - R) \<union> W"
    using assms by (auto simp: brings_def)
  then show ?thesis
    using applyChange_exact [of writes deletes w model] assms by (auto simp: brings_def)
qed

end

end
