(* ===== verification/Rights_Roles.thy ===== *)
theory Rights_Roles
  imports Rights_Reconcile
begin

section \<open>The cluster's roles\<close>

text \<open>
  \<open>ReconcileClusterRoles\<close> of \<open>internal/director/authz/roles.go\<close>: the entries on the cluster object are
  made equal to what the Cluster claim assigns, the group roles of \<open>roles\<close> and the role holders
  of scope cluster. \<open>rd\<close> and \<open>post\<close> are the reads and write requests of the server.
\<close>

record role_holder =
  h_relation :: string
  h_realm :: string
  h_subject :: string
  h_tenant :: string

subsection \<open>Definitions\<close>

text \<open>What the claim's group roles want, in the order of \<^const>\<open>ClusterRoles\<close>.\<close>

fun wantGroups ::
  "(string, string) gomap \<Rightarrow> string \<Rightarrow> string list \<Rightarrow> (string, tuple) gomap \<Rightarrow>
   'e reconcile_err + (string, tuple) gomap" where
  "wantGroups roles object [] want = Inr want"
| "wantGroups roles object (rel # rels) want =
     (case map_of roles rel of
        None \<Rightarrow> wantGroups roles object rels want
      | Some grp \<Rightarrow>
          if grp = [] then wantGroups roles object rels want
          else
            (case Group grp of
               Inl e \<Rightarrow> Inl (BadRoleGroup rel grp e)
             | Inr obj \<Rightarrow>
                 (let t = tup (obj @ ''#member'') rel object in
                  wantGroups roles object rels (AList.update (key t) t want))))"

fun wantHolders ::
  "string \<Rightarrow> role_holder list \<Rightarrow> (string, tuple) gomap \<Rightarrow> 'e reconcile_err + (string, tuple) gomap" where
  "wantHolders object [] want = Inr want"
| "wantHolders object (h # hs) want =
     (if h_tenant h \<noteq> [] then wantHolders object hs want
      else if \<not> holderRelation (h_relation h) then Inl (NotHeldByHolder (h_relation h))
      else
        (case HolderUser (h_realm h) (h_subject h) of
           Inl e \<Rightarrow> Inl (BadHolder (h_realm h) (h_subject h) e)
         | Inr user \<Rightarrow>
             (let t = tup user (h_relation h) object in
              wantHolders object hs (AList.update (key t) t want))))"

fun readRoles ::
  "('w \<Rightarrow> tuple \<Rightarrow> 'e + tuple list) \<Rightarrow> 'w \<Rightarrow> string \<Rightarrow> string list \<Rightarrow> (string, tuple) gomap \<Rightarrow> tuple list \<Rightarrow>
   'e reconcile_err + (string, tuple) gomap \<times> tuple list" where
  "readRoles rd w object [] want deletes = Inr (want, deletes)"
| "readRoles rd w object (rel # rels) want deletes =
     (case rd w (tup [] rel object) of
        Inl e \<Rightarrow> Inl (ReadFailed rel e)
      | Inr hv \<Rightarrow>
          (let (want, deletes) = keepOrDelete want deletes hv in
           readRoles rd w object rels want deletes))"

definition ReconcileClusterRoles ::
  "('w \<Rightarrow> tuple \<Rightarrow> 'e + tuple list) \<Rightarrow> ('w \<Rightarrow> write_request \<Rightarrow> 'e option \<times> 'w) \<Rightarrow> string \<Rightarrow>
   string \<Rightarrow> (string, string) gomap \<Rightarrow> role_holder list \<Rightarrow> 'w \<Rightarrow> 'e reconcile_err option \<times> 'w" where
  "ReconcileClusterRoles rd post model cluster roles holders w =
     (let object = Cluster cluster in
      case find (\<lambda>(rel, grp). \<not> groupRelation rel) roles of
        Some (rel, grp) \<Rightarrow> (Some (NotHeldByGroup rel), w)
      | None \<Rightarrow>
          (case wantGroups roles object ClusterRoles [] of
             Inl e \<Rightarrow> (Some e, w)
           | Inr want \<Rightarrow>
               (case wantHolders object holders want of
                  Inl e \<Rightarrow> (Some e, w)
                | Inr want \<Rightarrow>
                    (case readRoles rd w object ClusterRoles want [] of
                       Inl e \<Rightarrow> (Some e, w)
                     | Inr (want, deletes) \<Rightarrow> applyChange post model (map snd want) deletes w))))"

subsection \<open>What is wanted\<close>

text \<open>The claim's assignment as the entries it stands for, and when it can be stored at all.\<close>

definition claimedGroups :: "(string, string) gomap \<Rightarrow> string \<Rightarrow> string list \<Rightarrow> tuple set" where
  "claimedGroups roles object rels =
     {tup (g @ ''#member'') rel object | g rel grp.
        rel \<in> set rels \<and> map_of roles rel = Some grp \<and> grp \<noteq> [] \<and> Group grp = Inr g}"

definition claimedHolders :: "role_holder list \<Rightarrow> string \<Rightarrow> tuple set" where
  "claimedHolders holders object =
     {tup u (h_relation h) object | u h.
        h \<in> set holders \<and> h_tenant h = [] \<and> HolderUser (h_realm h) (h_subject h) = Inr u}"

definition storableGroups :: "(string, string) gomap \<Rightarrow> string list \<Rightarrow> bool" where
  "storableGroups roles rels \<longleftrightarrow>
     list_all (\<lambda>rel. case map_of roles rel of None \<Rightarrow> True
                     | Some grp \<Rightarrow> grp = [] \<or> (\<exists>g. Group grp = Inr g)) rels"

definition storableHolders :: "role_holder list \<Rightarrow> bool" where
  "storableHolders holders \<longleftrightarrow>
     list_all (\<lambda>h. h_tenant h \<noteq> [] \<or> holderRelation (h_relation h) \<and>
                   (\<exists>u. HolderUser (h_realm h) (h_subject h) = Inr u)) holders"

definition storableClaim :: "(string, string) gomap \<Rightarrow> role_holder list \<Rightarrow> bool" where
  "storableClaim roles holders \<longleftrightarrow>
     list_all (\<lambda>(rel, grp). groupRelation rel) roles \<and> storableGroups roles ClusterRoles \<and> storableHolders holders"

lemma ClusterRoles_chars:
  "rel \<in> set ClusterRoles \<Longrightarrow> rel \<noteq> [] \<and> CHR ''|'' \<notin> set rel"
  by (auto simp: ClusterRoles_def)

lemma ClusterRoles_distinct: "distinct ClusterRoles"
  by (simp add: ClusterRoles_def)

lemma holderRelation_ClusterRoles: "holderRelation rel \<Longrightarrow> rel \<in> set ClusterRoles"
  by (auto simp: holderRelation_def HolderRoles_def ClusterRoles_def)

text \<open>A map of entries of one object under the cluster's roles, filed under their keys.\<close>

definition onCluster :: "string \<Rightarrow> (string, tuple) gomap \<Rightarrow> bool" where
  "onCluster object want \<longleftrightarrow> keyed want \<and>
     (\<forall>t \<in> snd ` set want. t_object t = object \<and> t_relation t \<in> set ClusterRoles)"

lemma onCluster_Nil: "onCluster object []"
  by (simp add: onCluster_def)

lemma onCluster_agree:
  assumes "onCluster object want" "v \<in> snd ` set want" "key t = key v"
    "t_object t = object" "t_relation t \<in> set ClusterRoles"
  shows "t = v"
  using assms ClusterRoles_chars by (intro key_same_object) (auto simp: onCluster_def)

lemma onCluster_update:
  fixes u :: string
  assumes "onCluster object want" "rel \<in> set ClusterRoles"
  defines "t \<equiv> tup u rel object"
  shows "onCluster object (AList.update (key t) t want)"
    "snd ` set (AList.update (key t) t want) = insert t (snd ` set want)"
proof -
  have k: "keyed want" using assms(1) by (simp add: onCluster_def)
  have "v = t" if "v \<in> snd ` set want" "key v = key t" for v
    using onCluster_agree [OF assms(1) that(1), of t] that(2) assms(2) by (simp add: t_def)
  then show e: "snd ` set (AList.update (key t) t want) = insert t (snd ` set want)"
    using keyed_update_values [OF k, of t] by auto
  show "onCluster object (AList.update (key t) t want)"
    using assms(1,2) keyed_update [OF k, of t] unfolding onCluster_def e by (simp add: t_def)
qed

lemma wantGroups_ok:
  assumes "onCluster object want" "set rels \<subseteq> set ClusterRoles" "storableGroups roles rels"
  shows "\<exists>want'. (wantGroups roles object rels want :: 'e reconcile_err + _) = Inr want' \<and> onCluster object want' \<and>
           snd ` set want' = snd ` set want \<union> claimedGroups roles object rels"
  using assms
proof (induction rels arbitrary: want)
  case (Cons rel rels)
  consider "map_of roles rel = None \<or> map_of roles rel = Some []"
    | grp g where "map_of roles rel = Some grp" "grp \<noteq> []" "Group grp = Inr g"
    using Cons.prems(3) by (auto simp: storableGroups_def split: option.splits)
  then show ?case
  proof cases
    case 1
    then have "claimedGroups roles object (rel # rels) = claimedGroups roles object rels"
      by (auto simp: claimedGroups_def)
    with 1 Cons show ?thesis by (auto simp: storableGroups_def)
  next
    case 2
    then have c: "claimedGroups roles object (rel # rels) =
        insert (tup (g @ ''#member'') rel object) (claimedGroups roles object rels)"
      by (auto simp: claimedGroups_def)
    note u = onCluster_update [OF Cons.prems(1), of rel "g @ ''#member''"]
    from Cons.IH [OF u(1)] 2 Cons.prems u(2) show ?thesis
      by (simp add: c storableGroups_def Let_def)
  qed
qed (simp add: claimedGroups_def)

lemma wantGroups_bad:
  "\<not> storableGroups roles rels \<Longrightarrow> \<exists>e. wantGroups roles object rels want = Inl e"
  by (induction rels arbitrary: want)
    (auto simp: storableGroups_def Let_def split: option.split sum.split)

lemma wantHolders_ok:
  assumes "onCluster object want" "storableHolders hs"
  shows "\<exists>want'. (wantHolders object hs want :: 'e reconcile_err + _) = Inr want' \<and> onCluster object want' \<and>
           snd ` set want' = snd ` set want \<union> claimedHolders hs object"
  using assms
proof (induction hs arbitrary: want)
  case (Cons h hs)
  show ?case
  proof (cases "h_tenant h = []")
    case False
    then have "claimedHolders (h # hs) object = claimedHolders hs object"
      by (auto simp: claimedHolders_def)
    with False Cons show ?thesis by (auto simp: storableHolders_def)
  next
    case True
    with Cons.prems(2) obtain u where h: "holderRelation (h_relation h)" "HolderUser (h_realm h) (h_subject h) = Inr u"
      by (auto simp: storableHolders_def)
    then have c: "claimedHolders (h # hs) object = insert (tup u (h_relation h) object) (claimedHolders hs object)"
      using True by (auto simp: claimedHolders_def)
    note u = onCluster_update [OF Cons.prems(1) holderRelation_ClusterRoles [OF h(1)], of u]
    from Cons.IH [OF u(1)] True h Cons.prems(2) u(2) show ?thesis
      by (simp add: c storableHolders_def Let_def)
  qed
qed (simp add: claimedHolders_def)

lemma wantHolders_bad:
  "\<not> storableHolders hs \<Longrightarrow> \<exists>e. wantHolders object hs want = Inl e"
  by (induction hs arbitrary: want)
    (auto simp: storableHolders_def Let_def split: sum.split)

subsection \<open>What is read and written\<close>

context live_server
begin

lemma readRoles_passes:
  assumes "\<not> HasSuffix object '':''" "object \<noteq> []" "distinct rels" "\<forall>rel \<in> set rels. rel \<noteq> []"
  shows "\<exists>ts. readRoles rd w object rels want deletes = Inr (keepOrDelete want deletes ts) \<and> distinct ts \<and>
           set ts = {t \<in> stored w. t_object t = object \<and> t_relation t \<in> set rels}"
  using assms(3,4)
proof (induction rels arbitrary: want deletes)
  case (Cons rel rels)
  obtain hv where r: "rd w (tup [] rel object) = Inr hv" using rd_total by blast
  have hv: "set hv = {t \<in> stored w. t_relation t = rel \<and> t_object t = object}" "distinct hv"
    using rd_sound [OF r] rd_distinct [OF r] matches_object [OF assms(1,2)] Cons.prems by auto
  from Cons.IH [of "fst (keepOrDelete want deletes hv)" "snd (keepOrDelete want deletes hv)"] Cons.prems
  obtain ts where ts: "readRoles rd w object rels (fst (keepOrDelete want deletes hv)) (snd (keepOrDelete want deletes hv)) =
        Inr (keepOrDelete want deletes (hv @ ts))" "distinct ts"
      "set ts = {t \<in> stored w. t_object t = object \<and> t_relation t \<in> set rels}"
    by (auto simp: keepOrDelete_append)
  have "distinct (hv @ ts)" "set (hv @ ts) = {t \<in> stored w. t_object t = object \<and> t_relation t \<in> set (rel # rels)}"
    using hv ts(2,3) Cons.prems(1) by auto
  then show ?case using r ts(1) by (auto simp: split_beta Let_def)
qed simp

lemma ReconcileClusterRoles_effect:
  assumes ob: "\<not> HasSuffix (Cluster cluster) '':''"
    and claim: "storableClaim roles holders"
  shows "\<exists>w'. ReconcileClusterRoles rd post model cluster roles holders w = (None, w') \<and>
     stored w' = {t \<in> stored w. \<not> (t_object t = Cluster cluster \<and> t_relation t \<in> set ClusterRoles)} \<union>
        claimedGroups roles (Cluster cluster) ClusterRoles \<union> claimedHolders holders (Cluster cluster)"
    (is "\<exists>w'. _ \<and> _ = ?keep \<union> ?g \<union> ?h")
proof -
  let ?o = "Cluster cluster"
  from claim have ok: "list_all (\<lambda>(rel, grp). groupRelation rel) roles" "storableGroups roles ClusterRoles" "storableHolders holders"
    by (simp_all add: storableClaim_def)
  then have f: "find (\<lambda>(rel, grp). \<not> groupRelation rel) roles = None"
    by (auto simp: find_None_iff list_all_iff)
  obtain want1 where w1: "(wantGroups roles ?o ClusterRoles [] :: 'b reconcile_err + _) = Inr want1"
    "onCluster ?o want1" "snd ` set want1 = ?g"
    using wantGroups_ok [OF onCluster_Nil [of ?o] subset_refl ok(2), where 'e = 'b] by auto
  obtain want where w2: "(wantHolders ?o holders want1 :: 'b reconcile_err + _) = Inr want"
    "onCluster ?o want" "snd ` set want = ?g \<union> ?h"
    using wantHolders_ok [OF w1(2) ok(3)] w1(3) by auto
  obtain ts where ts: "readRoles rd w ?o ClusterRoles want [] = Inr (keepOrDelete want [] ts)" "distinct ts"
    "set ts = {t \<in> stored w. t_object t = ?o \<and> t_relation t \<in> set ClusterRoles}"
    using readRoles_passes [OF ob Cluster_ne ClusterRoles_distinct, of w want "[]"] ClusterRoles_chars by auto
  obtain want' deletes where k: "keepOrDelete want [] ts = (want', deletes)" by fastforce
  let ?R = "{t. t_object t = ?o \<and> t_relation t \<in> set ClusterRoles}"
  have wk: "keyed want" and wR: "snd ` set want \<subseteq> ?R" using w2(2) by (auto simp: onCluster_def)
  have tR: "set ts = stored w \<inter> ?R" using ts(3) by blast
  have agree: "\<forall>t \<in> set ts. \<forall>v \<in> snd ` set want. key t = key v \<longrightarrow> t = v"
    using onCluster_agree [OF w2(2)] ts(3) by blast
  have keep: "stored w - ?R = ?keep" by blast
  have "ReconcileClusterRoles rd post model cluster roles holders w =
      applyChange post model (map snd want') deletes w"
    by (simp add: ReconcileClusterRoles_def Let_def f w1(1) w2(1) ts(1) k)
  with applyChange_brings [OF brings_keepOrDelete [OF wk k ts(2) agree tR wR], of model]
  show ?thesis unfolding w2(3) keep Un_assoc by simp
qed

end

lemma ReconcileClusterRoles_refused:
  fixes rd :: "'w \<Rightarrow> tuple \<Rightarrow> 'e + tuple list"
  assumes "\<not> storableClaim roles holders"
  shows "\<exists>e. ReconcileClusterRoles rd post model cluster roles holders w = (Some e, w)"
proof (cases "find (\<lambda>(rel, grp). \<not> groupRelation rel) roles")
  case None
  then have "list_all (\<lambda>(rel, grp). groupRelation rel) roles" by (auto simp: find_None_iff list_all_iff)
  then have bad: "\<not> storableGroups roles ClusterRoles \<or> \<not> storableHolders holders"
    using assms by (simp add: storableClaim_def)
  show ?thesis
  proof (cases "wantGroups roles (Cluster cluster) ClusterRoles [] :: 'e reconcile_err + _")
    case (Inl e)
    then show ?thesis using None by (simp add: ReconcileClusterRoles_def Let_def)
  next
    case (Inr want)
    then have "\<not> storableHolders holders"
      using bad wantGroups_bad [of roles ClusterRoles "Cluster cluster" "[]", where 'a = 'e] by auto
    from wantHolders_bad [OF this, of "Cluster cluster" want, where 'a = 'e] Inr None show ?thesis
      by (auto simp: ReconcileClusterRoles_def Let_def)
  qed
next
  case (Some p)
  then show ?thesis by (cases p) (simp add: ReconcileClusterRoles_def Let_def)
qed

subsection \<open>Properties\<close>

text \<open>
  C1. The claim is the whole truth about the cluster's roles. On a server that answers, an
  assignment that can be stored leaves exactly the entries it stands for under the cluster's
  roles, whatever was stored there before, and every other entry as it was; one that cannot
  is refused and changes nothing.
\<close>

theorem cluster_roles_are_the_claims:
  assumes "live_server stored rd post" "\<not> HasSuffix (Cluster cluster) '':''"
  shows "if storableClaim roles holders
    then \<exists>w'. ReconcileClusterRoles rd post model cluster roles holders w = (None, w') \<and>
      stored w' = {t \<in> stored w. \<not> (t_object t = Cluster cluster \<and> t_relation t \<in> set ClusterRoles)} \<union>
        claimedGroups roles (Cluster cluster) ClusterRoles \<union> claimedHolders holders (Cluster cluster)
    else \<exists>e. ReconcileClusterRoles rd post model cluster roles holders w = (Some e, w)"
  by (cases "storableClaim roles holders")
    (simp_all only: if_True if_False live_server.ReconcileClusterRoles_effect [OF assms] ReconcileClusterRoles_refused
      simp_thms)

text \<open>
  A claim that drops the administrators' group: the stored entry of the group goes, a holder is
  added, an entry of another object stays.
\<close>

theorem cluster_roles_are_the_claims_witness:
  "\<exists>m'. ReconcileClusterRoles mem_read mem_post ''m1'' ''c'' [(''break_glass'', ''ops'')]
          [\<lparr>h_relation = ''auditor'', h_realm = ''platform'', h_subject = ''u1'', h_tenant = []\<rparr>]
          [tup ''group:old#member'' ''admin'' ''cluster:c'', tup ''user:x'' ''admin'' ''cluster:d''] = (None, m') \<and>
        set m' = {tup ''user:x'' ''admin'' ''cluster:d'', tup ''group:ops#member'' ''break_glass'' ''cluster:c'',
                  tup ''user:platform/u1'' ''auditor'' ''cluster:c''}"
proof -
  let ?roles = "[(''break_glass'', ''ops'')]"
  let ?hs = "[\<lparr>h_relation = ''auditor'', h_realm = ''platform'', h_subject = ''u1'', h_tenant = []\<rparr>]"
  have g: "Group ''ops'' = Inr ''group:ops''" "HolderUser ''platform'' ''u1'' = Inr ''user:platform/u1''"
    by code_simp+
  have "claimedGroups ?roles ''cluster:c'' ClusterRoles = {tup ''group:ops#member'' ''break_glass'' ''cluster:c''}"
    by (auto simp: claimedGroups_def ClusterRoles_def g)
  moreover have "claimedHolders ?hs ''cluster:c'' = {tup ''user:platform/u1'' ''auditor'' ''cluster:c''}"
    by (auto simp: claimedHolders_def g)
  moreover have "storableClaim ?roles ?hs"
    by (simp add: storableClaim_def groupRelation_def holderRelation_def ClaimRoles_def HolderRoles_def storableGroups_def storableHolders_def ClusterRoles_def g)
  moreover have "\<not> HasSuffix (Cluster ''c'') '':''" "Cluster ''c'' = ''cluster:c''" by (simp_all add: Cluster_def HasSuffix_def suffix_def)
  moreover have "{t \<in> set [tup ''group:old#member'' ''admin'' ''cluster:c'', tup ''user:x'' ''admin'' ''cluster:d''].
      \<not> (t_object t = ''cluster:c'' \<and> t_relation t \<in> set ClusterRoles)} = {tup ''user:x'' ''admin'' ''cluster:d''}"
    by (auto simp: ClusterRoles_def)
  ultimately show ?thesis
    using cluster_roles_are_the_claims [OF mem.live_server_axioms, of "''c''" ?roles ?hs "''m1''"
      "[tup ''group:old#member'' ''admin'' ''cluster:c'', tup ''user:x'' ''admin'' ''cluster:d'']"]
    by (simp only: if_True not_False_eq_True Un_insert_left sup_bot_left insert_commute)
qed

end
