(* ===== verification/Rights_Tenants.thy ===== *)
theory Rights_Tenants
  imports Rights_Reconcile
begin

section \<open>A tenant in the rights store\<close>

text \<open>
  \<open>ReconcileTenants\<close> of \<open>internal/director/authz/tenants.go\<close> and \<open>tenantDefaults\<close> of \<open>storeonly.go\<close>: each
  tenant is attached to its cluster and its two roles are held by its groups; who approves its
  perimeter and who audits it is what the Cluster claim names and nobody else; the consent to
  being operated by the cluster is written when the tenant is first attached, and for the
  platform tenant always.
\<close>

subsection \<open>Definitions\<close>

record tenant_rights =
  r_name :: string
  r_approvers :: "string list"
  r_auditors :: "string list"

definition tenantRoleGroups :: "(string \<times> string) list" where
  "tenantRoleGroups = [(''admin'', ''admins''), (''member'', ''members'')]"

definition claimTenantRelations :: "string list" where
  "claimTenantRelations = [''perimeter_approver'', ''auditor'']"

definition claimTenantRelation :: "string \<Rightarrow> bool" where
  "claimTenantRelation rel \<longleftrightarrow> list_ex (\<lambda>r. r = rel) claimTenantRelations"

definition heldBy :: "tenant_rights \<Rightarrow> string list list" where
  "heldBy r = [r_approvers r, r_auditors r]"

definition TenantsNamed :: "string list \<Rightarrow> tenant_rights list" where
  "TenantsNamed names = map (\<lambda>name. \<lparr>r_name = name, r_approvers = [], r_auditors = []\<rparr>) names"

fun roleEntries ::
  "string \<Rightarrow> (string \<times> string) list \<Rightarrow> 'e reconcile_err + tuple list" where
  "roleEntries tenant [] = Inr []"
| "roleEntries tenant ((rel, sfx) # roles) =
     (case Group (''gentian:tenant:'' @ tenant @ '':'' @ sfx) of
        Inl e \<Rightarrow> Inl (BadTenant tenant e)
      | Inr grp \<Rightarrow>
          (case roleEntries tenant roles of
             Inl e \<Rightarrow> Inl e
           | Inr ts \<Rightarrow> Inr (tup (grp @ ''#member'') rel (Tenant tenant) # ts)))"

text \<open>The standing entries, and the one written when the tenant is first attached.\<close>

definition tenantDefaults :: "string \<Rightarrow> string \<Rightarrow> 'e reconcile_err + tuple list \<times> tuple list" where
  "tenantDefaults cluster tenant =
     (case roleEntries tenant tenantRoleGroups of
        Inl e \<Rightarrow> Inl e
      | Inr ts \<Rightarrow>
          Inr (tup (Cluster cluster) ''cluster'' (Tenant tenant) # ts,
               [tup (Cluster cluster) ''operated_by'' (Tenant tenant)]))"

text \<open>One entry, written when a read of it finds nothing.\<close>

definition writeIfMissing ::
  "('w \<Rightarrow> tuple \<Rightarrow> 'e + tuple list) \<Rightarrow> 'w \<Rightarrow> tuple \<Rightarrow> 'e reconcile_err + tuple list" where
  "writeIfMissing rd w t =
     (case rd w t of
        Inl e \<Rightarrow> Inl (ReadFailed (t_relation t) e)
      | Inr hv \<Rightarrow> Inr (if hv = [] then [t] else []))"

fun writeMissing ::
  "('w \<Rightarrow> tuple \<Rightarrow> 'e + tuple list) \<Rightarrow> 'w \<Rightarrow> tuple list \<Rightarrow> 'e reconcile_err + tuple list" where
  "writeMissing rd w [] = Inr []"
| "writeMissing rd w (t # ts) =
     (case writeIfMissing rd w t of
        Inl e \<Rightarrow> Inl e
      | Inr ws \<Rightarrow> (case writeMissing rd w ts of Inl e \<Rightarrow> Inl e | Inr vs \<Rightarrow> Inr (ws @ vs)))"

text \<open>\<open>named\<close> is a set of holders, as a list without duplicates.\<close>

fun keepNamed :: "string list \<Rightarrow> tuple list \<Rightarrow> tuple list \<Rightarrow> string list \<times> tuple list" where
  "keepNamed named deletes [] = (named, deletes)"
| "keepNamed named deletes (t # hv) =
     (if t_user t \<in> set named then keepNamed (removeAll (t_user t) named) deletes hv
      else keepNamed named (deletes @ [plain t]) hv)"

fun reconcileHeld ::
  "('w \<Rightarrow> tuple \<Rightarrow> 'e + tuple list) \<Rightarrow> 'w \<Rightarrow> string \<Rightarrow> (string \<times> string list) list \<Rightarrow>
   'e reconcile_err + tuple list \<times> tuple list" where
  "reconcileHeld rd w obj [] = Inr ([], [])"
| "reconcileHeld rd w obj ((rel, users) # hs) =
     (case rd w (tup [] rel obj) of
        Inl e \<Rightarrow> Inl (ReadFailed rel e)
      | Inr hv \<Rightarrow>
          (let (named, deletes) = keepNamed (remdups users) [] hv in
           case reconcileHeld rd w obj hs of
             Inl e \<Rightarrow> Inl e
           | Inr (ws, ds) \<Rightarrow> Inr (map (\<lambda>user. tup user rel obj) named @ ws, deletes @ ds)))"

definition reconcileTenant ::
  "('w \<Rightarrow> tuple \<Rightarrow> 'e + tuple list) \<Rightarrow> 'w \<Rightarrow> string \<Rightarrow> tenant_rights \<Rightarrow>
   'e reconcile_err + tuple list \<times> tuple list" where
  "reconcileTenant rd w cluster rights =
     (let tenant = r_name rights; obj = Tenant tenant; clusterObj = Cluster cluster in
      case rd w (tup clusterObj ''cluster'' obj) of
        Inl e \<Rightarrow> Inl (ReadFailed ''cluster'' e)
      | Inr attached \<Rightarrow>
          (let attach = (if attached = [] then [tup clusterObj ''cluster'' obj] else []) in
           case (if attached = [] \<or> tenant = PlatformTenant
                 then writeIfMissing rd w (tup clusterObj ''operated_by'' obj) else Inr []) of
             Inl e \<Rightarrow> Inl e
           | Inr operated \<Rightarrow>
               (case tenantDefaults cluster tenant of
                  Inl e \<Rightarrow> Inl e
                | Inr (standing, _) \<Rightarrow>
                    (case writeMissing rd w (tl standing) of
                       Inl e \<Rightarrow> Inl e
                     | Inr roles \<Rightarrow>
                         (case reconcileHeld rd w obj (zip claimTenantRelations (heldBy rights)) of
                            Inl e \<Rightarrow> Inl e
                          | Inr (writes, deletes) \<Rightarrow>
                              Inr (attach @ operated @ roles @ writes, deletes))))))"

fun reconcileTenants_loop ::
  "('w \<Rightarrow> tuple \<Rightarrow> 'e + tuple list) \<Rightarrow> 'w \<Rightarrow> string \<Rightarrow> tenant_rights list \<Rightarrow>
   'e reconcile_err + tuple list \<times> tuple list" where
  "reconcileTenants_loop rd w cluster [] = Inr ([], [])"
| "reconcileTenants_loop rd w cluster (r # rs) =
     (case reconcileTenant rd w cluster r of
        Inl e \<Rightarrow> Inl e
      | Inr (ws, ds) \<Rightarrow>
          (case reconcileTenants_loop rd w cluster rs of
             Inl e \<Rightarrow> Inl e
           | Inr (ws', ds') \<Rightarrow> Inr (ws @ ws', ds @ ds')))"

definition ReconcileTenants ::
  "('w \<Rightarrow> tuple \<Rightarrow> 'e + tuple list) \<Rightarrow> ('w \<Rightarrow> write_request \<Rightarrow> 'e option \<times> 'w) \<Rightarrow> string \<Rightarrow>
   string \<Rightarrow> tenant_rights list \<Rightarrow> 'w \<Rightarrow> 'e reconcile_err option \<times> 'w" where
  "ReconcileTenants rd post model cluster tenants w =
     (case reconcileTenants_loop rd w cluster tenants of
        Inl e \<Rightarrow> (Some e, w)
      | Inr (writes, deletes) \<Rightarrow> applyChange post model writes deletes w)"

subsection \<open>What a tenant stands for in the store\<close>

text \<open>The entries a tenant always has, and those its claim names.\<close>

definition standingRoles :: "string \<Rightarrow> tuple list" where
  "standingRoles tenant =
     [tup (''group:gentian/tenant/'' @ tenant @ ''/admins#member'') ''admin'' (Tenant tenant),
      tup (''group:gentian/tenant/'' @ tenant @ ''/members#member'') ''member'' (Tenant tenant)]"

definition heldEntries :: "string \<Rightarrow> (string \<times> string list) list \<Rightarrow> tuple set" where
  "heldEntries obj hs = {tup u rel obj | u rel users. (rel, users) \<in> set hs \<and> u \<in> set users}"

definition consent :: "string \<Rightarrow> string \<Rightarrow> tuple" where
  "consent cluster tenant = tup (Cluster cluster) ''operated_by'' (Tenant tenant)"

definition attachment :: "string \<Rightarrow> string \<Rightarrow> tuple" where
  "attachment cluster tenant = tup (Cluster cluster) ''cluster'' (Tenant tenant)"

definition tenantEntries :: "tuple set \<Rightarrow> string \<Rightarrow> tenant_rights \<Rightarrow> tuple set" where
  "tenantEntries S cluster r =
     {attachment cluster (r_name r)} \<union>
     (if attachment cluster (r_name r) \<notin> S \<or> r_name r = PlatformTenant then {consent cluster (r_name r)} else {}) \<union>
     set (standingRoles (r_name r)) \<union>
     heldEntries (Tenant (r_name r)) [(''perimeter_approver'', r_approvers r), (''auditor'', r_auditors r)]"

definition claimOwned :: "tenant_rights \<Rightarrow> tuple set" where
  "claimOwned r = {t. t_object t = Tenant (r_name r) \<and> t_relation t \<in> {''perimeter_approver'', ''auditor''}}"

lemma tenant_role_group:
  assumes "ValidTenantName t" "sfx = ''admins'' \<or> sfx = ''members''"
  shows "Group (''gentian:tenant:'' @ t @ '':'' @ sfx) = Inr (''group:gentian/tenant/'' @ t @ ''/'' @ sfx)"
proof -
  have "encode (''gentian:tenant:'' @ t @ '':'' @ sfx) =
      Inr (ReplaceAll (''gentian:tenant:'' @ t @ '':'' @ sfx) (CHR '':'') (CHR ''/''))"
    using assms(2) ValidTenantName_chars(2) [OF assms(1)] by (intro encode_ok) auto
  moreover have "ReplaceAll (''gentian:tenant:'' @ t @ '':'' @ sfx) (CHR '':'') (CHR ''/'') =
      ''gentian/tenant/'' @ ReplaceAll t (CHR '':'') (CHR ''/'') @ ''/'' @ sfx"
    using assms(2) by (auto simp: ReplaceAll_def)
  ultimately show ?thesis using ValidTenantName_chars(3) [OF assms(1)] by (simp add: Group_def)
qed

lemma tenantDefaults_ok:
  "ValidTenantName t \<Longrightarrow>
   tenantDefaults cluster t = Inr (attachment cluster t # standingRoles t, [consent cluster t])"
  using tenant_role_group [of t]
  by (simp add: tenantDefaults_def tenantRoleGroups_def standingRoles_def attachment_def consent_def)

lemma keepNamed_eq:
  assumes "distinct (map t_user hv)"
  shows "keepNamed named deletes hv =
    (filter (\<lambda>u. u \<notin> t_user ` set hv) named, deletes @ filter (\<lambda>t. t_user t \<notin> set named) hv)"
  using assms
proof (induction named deletes hv rule: keepNamed.induct)
  case (2 named deletes t hv)
  have "filter (\<lambda>s. t_user s \<notin> set (removeAll (t_user t) named)) hv = filter (\<lambda>s. t_user s \<notin> set named) hv"
    using 2(3) by (intro filter_cong) (auto simp: image_iff)
  with 2 show ?case by (auto simp: removeAll_filter_not_eq intro!: filter_cong)
qed simp

lemma keepNamed_brings:
  assumes hv: "set hv = {t \<in> S. t_relation t = rel \<and> t_object t = obj}" "distinct hv"
  shows "brings S {t. t_object t = obj \<and> t_relation t = rel} {tup u rel obj | u. u \<in> set users}
    (map (\<lambda>u. tup u rel obj) (filter (\<lambda>u. u \<notin> t_user ` set hv) (remdups users)),
     filter (\<lambda>t. t_user t \<notin> set users) hv)"
proof -
  have iff: "u \<in> t_user ` set hv \<longleftrightarrow> tup u rel obj \<in> S" for u
    unfolding hv(1) by (auto simp: image_iff intro: exI [of _ "tup u rel obj"])
  have "t = tup u rel obj \<longleftrightarrow> t_user t = u" if "t \<in> set hv" for t u
    using that unfolding hv(1) by (cases t) auto
  then have "set (filter (\<lambda>t. t_user t \<notin> set users) hv) =
      S \<inter> {t. t_object t = obj \<and> t_relation t = rel} - {tup u rel obj | u. u \<in> set users}"
    using hv(1) by auto
  moreover have "set (map (\<lambda>u. tup u rel obj) (filter (\<lambda>u. u \<notin> t_user ` set hv) (remdups users))) =
      {tup u rel obj | u. u \<in> set users} - S"
    unfolding iff by auto
  ultimately show ?thesis
    using hv(2) by (simp add: brings_def distinct_map inj_on_def)
qed

lemma Tenant_no_colon: "ValidTenantName t \<Longrightarrow> \<not> HasSuffix (Tenant t) '':''"
  using ValidTenantName_chars(1,2) [of t] HasSuffix_colon [of t "''tenant:''"] last_in_set [of t]
  by (auto simp: Tenant_def)

lemma heldEntries_region: "heldEntries obj hs \<subseteq> {t. t_object t = obj \<and> t_relation t \<in> fst ` set hs}"
  by (force simp: heldEntries_def)

lemma heldEntries_Cons:
  "heldEntries obj ((rel, users) # hs) = {tup u rel obj | u. u \<in> set users} \<union> heldEntries obj hs"
  by (auto simp: heldEntries_def)

text \<open>The parts of a tenant's entries are told apart by their relations.\<close>

lemma tenant_parts_disjoint:
  fixes r cluster S
  defines "t \<equiv> r_name r"
  defines "H \<equiv> heldEntries (Tenant t) [(''perimeter_approver'', r_approvers r), (''auditor'', r_auditors r)]"
  defines "C \<equiv> if attachment cluster t \<notin> S \<or> t = PlatformTenant then {consent cluster t} else {}"
  shows "({} \<union> set (standingRoles t)) \<inter> (claimOwned r \<union> H) = {}"
    "({} \<union> C) \<inter> ({} \<union> claimOwned r \<union> (set (standingRoles t) \<union> H)) = {}"
    "({} \<union> {attachment cluster t}) \<inter> ({} \<union> ({} \<union> claimOwned r) \<union> (C \<union> (set (standingRoles t) \<union> H))) = {}"
proof -
  have H: "t_relation x \<in> {''perimeter_approver'', ''auditor''}" if "x \<in> claimOwned r \<union> H" for x
    using that by (auto simp: H_def claimOwned_def heldEntries_def)
  have R: "t_relation x \<in> {''admin'', ''member''}" if "x \<in> set (standingRoles t)" for x
    using that by (auto simp: standingRoles_def)
  have C: "t_relation x = ''operated_by''" if "x \<in> C" for x
    using that by (auto simp: C_def consent_def split: if_splits)
  show "({} \<union> set (standingRoles t)) \<inter> (claimOwned r \<union> H) = {}"
    by (rule disjoint_by [where f = t_relation and K = "{''admin'', ''member''}", OF _ H]) (use R in auto)
  show "({} \<union> C) \<inter> ({} \<union> claimOwned r \<union> (set (standingRoles t) \<union> H)) = {}"
    by (rule disjoint_by [where f = t_relation and K = "{''operated_by''}" and
          L = "{''perimeter_approver'', ''auditor'', ''admin'', ''member''}"]) (use H R C in auto)
  show "({} \<union> {attachment cluster t}) \<inter> ({} \<union> ({} \<union> claimOwned r) \<union> (C \<union> (set (standingRoles t) \<union> H))) = {}"
    by (rule disjoint_by [where f = t_relation and K = "{''cluster''}" and
          L = "{''perimeter_approver'', ''auditor'', ''admin'', ''member'', ''operated_by''}"])
      (use H R C in \<open>auto simp: attachment_def\<close>)
qed

lemma standingRoles_distinct: "distinct (standingRoles t)"
  by (simp add: standingRoles_def)

lemma claimOwned_object: "t \<in> claimOwned r \<Longrightarrow> t_object t = Tenant (r_name r)"
  by (simp add: claimOwned_def)

lemma tenantEntries_object: "t \<in> tenantEntries S cluster r \<Longrightarrow> t_object t = Tenant (r_name r)"
  by (auto simp: tenantEntries_def attachment_def consent_def standingRoles_def heldEntries_def split: if_splits)

lemma zip_heldBy:
  "zip claimTenantRelations (heldBy r) = [(''perimeter_approver'', r_approvers r), (''auditor'', r_auditors r)]"
  by (simp add: claimTenantRelations_def heldBy_def)

context live_server
begin

lemma rd_entry:
  assumes "\<not> HasSuffix (t_object t) '':'' \<and> t_object t \<noteq> [] \<and> t_relation t \<noteq> [] \<and> t_user t \<noteq> []"
  shows "\<exists>hv. rd w t = Inr hv \<and> (hv = [] \<longleftrightarrow> t \<notin> stored w)"
proof -
  obtain hv where r: "rd w t = Inr hv" using rd_total by blast
  have "matches t s \<longleftrightarrow> s = t" for s using assms by (intro matches_entry) simp_all
  then have "set hv = {s \<in> stored w. s = t}" using rd_sound [OF r] by simp
  then have "set hv = {} \<longleftrightarrow> t \<notin> stored w" by auto
  with r show ?thesis by (simp only: set_empty) blast
qed

lemma writeIfMissing_brings:
  assumes "\<not> HasSuffix (t_object t) '':'' \<and> t_object t \<noteq> [] \<and> t_relation t \<noteq> [] \<and> t_user t \<noteq> []"
  shows "\<exists>ws. writeIfMissing rd w t = Inr ws \<and> brings (stored w) {} {t} (ws, [])"
  using rd_entry [OF assms, of w] by (cases "t \<in> stored w") (auto simp: writeIfMissing_def brings_def)

lemma writeMissing_brings:
  assumes "\<forall>t \<in> set ts. \<not> HasSuffix (t_object t) '':'' \<and> t_object t \<noteq> [] \<and> t_relation t \<noteq> [] \<and> t_user t \<noteq> []" "distinct ts"
  shows "\<exists>ws. writeMissing rd w ts = Inr ws \<and> brings (stored w) {} (set ts) (ws, [])"
  using assms
proof (induction ts)
  case (Cons t ts)
  then obtain ws vs where "writeIfMissing rd w t = Inr ws" "brings (stored w) {} {t} (ws, [])"
    "writeMissing rd w ts = Inr vs" "brings (stored w) {} (set ts) (vs, [])"
    using writeIfMissing_brings [of t w] by auto
  with brings_append [of "stored w" "{}" "{t}" ws "[]" "{}" "set ts" vs "[]"] Cons.prems(2) show ?case by auto
qed (simp add: brings_Nil)

lemma reconcileHeld_brings:
  assumes ob: "\<not> HasSuffix obj '':''" "obj \<noteq> []"
    and hs: "distinct (map fst hs)" "\<forall>rel \<in> fst ` set hs. rel \<noteq> []"
  shows "\<exists>ws ds. reconcileHeld rd w obj hs = Inr (ws, ds) \<and>
           brings (stored w) {t. t_object t = obj \<and> t_relation t \<in> fst ` set hs} (heldEntries obj hs) (ws, ds)"
  using hs
proof (induction hs)
  case Nil
  then show ?case by (simp add: brings_Nil heldEntries_def)
next
  case (Cons h hs)
  obtain rel users where h: "h = (rel, users)" by fastforce
  obtain hv where r: "rd w (tup [] rel obj) = Inr hv" using rd_total by blast
  have hv: "set hv = {t \<in> stored w. t_relation t = rel \<and> t_object t = obj}" "distinct hv"
    using rd_sound [OF r] rd_distinct [OF r] matches_object [OF ob, of rel] Cons.prems(2) h by simp_all
  have "inj_on t_user (set hv)" unfolding hv(1) by (rule inj_onI) (simp add: tuple.equality)
  then have "distinct (map t_user hv)" using hv(2) by (simp add: distinct_map)
  note k = keepNamed_eq [OF this, of "remdups users" "[]"]
  let ?ws = "map (\<lambda>u. tup u rel obj) (filter (\<lambda>u. u \<notin> t_user ` set hv) (remdups users))"
  let ?ds = "filter (\<lambda>t. t_user t \<notin> set users) hv"
  note b = keepNamed_brings [OF hv, of users]
  have "distinct (map fst hs)" "\<forall>rel \<in> fst ` set hs. rel \<noteq> []" using Cons.prems by simp_all
  from Cons.IH [OF this] obtain ws ds where i: "reconcileHeld rd w obj hs = Inr (ws, ds)"
    "brings (stored w) {t. t_object t = obj \<and> t_relation t \<in> fst ` set hs} (heldEntries obj hs) (ws, ds)"
    by blast
  have d: "({t. t_object t = obj \<and> t_relation t = rel} \<union> {tup u rel obj | u. u \<in> set users}) \<inter>
      ({t. t_object t = obj \<and> t_relation t \<in> fst ` set hs} \<union> heldEntries obj hs) = {}"
  proof (rule disjoint_by [where f = t_relation and K = "{rel}" and L = "fst ` set hs"])
    show "t_relation t \<in> fst ` set hs"
      if "t \<in> {t. t_object t = obj \<and> t_relation t \<in> fst ` set hs} \<union> heldEntries obj hs" for t
      using that heldEntries_region [of obj hs] by blast
  qed (use Cons.prems(1) h in auto)
  have e: "{t. t_object t = obj \<and> t_relation t \<in> fst ` set (h # hs)} =
      {t. t_object t = obj \<and> t_relation t = rel} \<union> {t. t_object t = obj \<and> t_relation t \<in> fst ` set hs}"
    "heldEntries obj (h # hs) = {tup u rel obj | u. u \<in> set users} \<union> heldEntries obj hs"
    unfolding h heldEntries_Cons by auto
  have "brings (stored w) {t. t_object t = obj \<and> t_relation t \<in> fst ` set (h # hs)} (heldEntries obj (h # hs))
      (?ws @ ws, ?ds @ ds)" unfolding e by (rule brings_append [OF b i(2) d])
  moreover have "reconcileHeld rd w obj (h # hs) = Inr (?ws @ ws, ?ds @ ds)"
    unfolding h by (simp add: r k i(1))
  ultimately show ?case by (intro exI conjI)
qed

lemma standingRoles_wf:
  assumes "ValidTenantName t" "s \<in> set (standingRoles t) \<or> s = attachment cluster t \<or> s = consent cluster t"
  shows "\<not> HasSuffix (t_object s) '':'' \<and> t_object s \<noteq> [] \<and> t_relation s \<noteq> [] \<and> t_user s \<noteq> []"
  using assms(2) Tenant_no_colon [OF assms(1)]
  by (auto simp: standingRoles_def attachment_def consent_def)

lemma reconcileTenant_brings:
  assumes "ValidTenantName (r_name r)"
  shows "\<exists>ws ds. reconcileTenant rd w cluster r = Inr (ws, ds) \<and>
           brings (stored w) (claimOwned r) (tenantEntries (stored w) cluster r) (ws, ds)"
proof -
  let ?t = "r_name r" and ?S = "stored w"
  let ?hs = "[(''perimeter_approver'', r_approvers r), (''auditor'', r_auditors r)]"
  let ?a = "attachment cluster ?t" and ?c = "consent cluster ?t"
  note wf = standingRoles_wf [OF assms, of _ cluster]
  obtain as where a: "rd w ?a = Inr as" and as: "as = [] \<longleftrightarrow> ?a \<notin> ?S"
    using rd_entry [OF wf [of ?a], of w] by auto
  have ba: "brings ?S {} {?a} (if as = [] then [?a] else [], [])"
    using as by (auto simp: brings_def)
  let ?C = "if ?a \<notin> ?S \<or> ?t = PlatformTenant then {?c} else {}"
  have "\<exists>os. (if as = [] \<or> ?t = PlatformTenant then writeIfMissing rd w ?c else Inr []) = Inr os \<and>
      brings ?S {} ?C (os, [])"
    using writeIfMissing_brings [of ?c w] wf [of ?c] as by (cases "as = [] \<or> ?t = PlatformTenant") (auto simp: brings_Nil)
  then obtain os where o: "(if as = [] \<or> ?t = PlatformTenant then writeIfMissing rd w ?c else Inr []) = Inr os"
    "brings ?S {} ?C (os, [])" by blast
  obtain rs where rs: "writeMissing rd w (standingRoles ?t) = Inr rs" "brings ?S {} (set (standingRoles ?t)) (rs, [])"
    using writeMissing_brings [of "standingRoles ?t" w] wf standingRoles_distinct by auto
  obtain ws ds where h: "reconcileHeld rd w (Tenant ?t) ?hs = Inr (ws, ds)"
    "brings ?S (claimOwned r) (heldEntries (Tenant ?t) ?hs) (ws, ds)"
    using reconcileHeld_brings [OF Tenant_no_colon [OF assms] Tenant_ne, of ?hs w] by (auto simp: claimOwned_def)
  note d = tenant_parts_disjoint
  have "brings ?S (claimOwned r) (tenantEntries ?S cluster r) ((if as = [] then [?a] else []) @ os @ rs @ ws, ds)"
    using brings_append [OF ba brings_append [OF o(2) brings_append [OF rs(2) h(2) d(1)] d(2)] d(3)]
    unfolding tenantEntries_def Un_empty_left Un_assoc append_Nil .
  moreover have "reconcileTenant rd w cluster r = Inr ((if as = [] then [?a] else []) @ os @ rs @ ws, ds)"
    by (simp only: reconcileTenant_def Let_def attachment_def [symmetric] consent_def [symmetric] a o(1)
        sum.case prod.case tenantDefaults_ok [OF assms] list.sel rs(1) zip_heldBy h(1))
  ultimately show ?thesis by (intro exI conjI)
qed

lemma reconcileTenants_loop_brings:
  assumes "\<forall>r \<in> set rs. ValidTenantName (r_name r)" "distinct (map r_name rs)"
  shows "\<exists>ws ds. reconcileTenants_loop rd w cluster rs = Inr (ws, ds) \<and>
           brings (stored w) (\<Union> (claimOwned ` set rs)) (\<Union> (tenantEntries (stored w) cluster ` set rs)) (ws, ds)"
  using assms
proof (induction rs)
  case (Cons r rs)
  obtain ws ds where r: "reconcileTenant rd w cluster r = Inr (ws, ds)"
    "brings (stored w) (claimOwned r) (tenantEntries (stored w) cluster r) (ws, ds)"
    using reconcileTenant_brings [of r w cluster] Cons.prems(1) by auto
  obtain ws' ds' where i: "reconcileTenants_loop rd w cluster rs = Inr (ws', ds')"
    "brings (stored w) (\<Union> (claimOwned ` set rs)) (\<Union> (tenantEntries (stored w) cluster ` set rs)) (ws', ds')"
    using Cons.IH Cons.prems by auto
  have "(claimOwned r \<union> tenantEntries (stored w) cluster r) \<inter>
      (\<Union> (claimOwned ` set rs) \<union> \<Union> (tenantEntries (stored w) cluster ` set rs)) = {}"
    by (rule disjoint_by [where f = t_object and K = "{Tenant (r_name r)}" and L = "Tenant ` r_name ` set rs"])
      (use Cons.prems(2) tenantEntries_object claimOwned_object in auto)
  from brings_append [OF r(2) i(2) this] have "brings (stored w) (\<Union> (claimOwned ` set (r # rs)))
      (\<Union> (tenantEntries (stored w) cluster ` set (r # rs))) (ws @ ws', ds @ ds')"
    by (simp only: list.set UN_insert)
  with r(1) i(1) show ?case by simp
qed (simp add: brings_Nil)

end

subsection \<open>Properties\<close>

text \<open>
  C2. The projection of the tenants. On a server that answers, every tenant given ends with its
  entries: attached to the cluster, its roles held by its groups, its approvers and auditors
  those the claim names and nobody else. Consent is written for a tenant that was not attached
  yet and for the platform tenant; a tenant that withdrew it stays withdrawn, since the entry is
  not among those written and every other stored entry is kept.
\<close>

theorem tenants_projected:
  assumes "live_server stored rd post"
    and "\<forall>r \<in> set tenants. ValidTenantName (r_name r)" "distinct (map r_name tenants)"
  shows "\<exists>w'. ReconcileTenants rd post model cluster tenants w = (None, w') \<and>
    stored w' = (stored w - \<Union> (claimOwned ` set tenants)) \<union> \<Union> (tenantEntries (stored w) cluster ` set tenants)"
proof -
  from live_server.reconcileTenants_loop_brings [OF assms, of w cluster]
  obtain ws ds where l: "reconcileTenants_loop rd w cluster tenants = Inr (ws, ds)"
    "brings (stored w) (\<Union> (claimOwned ` set tenants)) (\<Union> (tenantEntries (stored w) cluster ` set tenants)) (ws, ds)"
    by blast
  then show ?thesis
    using live_server.applyChange_brings [OF assms(1) l(2), of model] by (simp add: ReconcileTenants_def)
qed

text \<open>
  A tenant attached before that withdrew its consent, with an auditor somebody wrote by hand and
  an approver the claim names.
\<close>

theorem tenants_projected_witness:
  "\<exists>m'. ReconcileTenants mem_read mem_post ''m1'' ''c''
          [\<lparr>r_name = ''acme'', r_approvers = [''user:acme/u1''], r_auditors = []\<rparr>]
          [tup ''cluster:c'' ''cluster'' ''tenant:acme'', tup ''user:x'' ''auditor'' ''tenant:acme''] = (None, m') \<and>
        tup ''user:acme/u1'' ''perimeter_approver'' ''tenant:acme'' \<in> set m' \<and>
        tup ''user:x'' ''auditor'' ''tenant:acme'' \<notin> set m' \<and>
        tup ''cluster:c'' ''operated_by'' ''tenant:acme'' \<notin> set m'"
proof -
  let ?r = "\<lparr>r_name = ''acme'', r_approvers = [''user:acme/u1''], r_auditors = []\<rparr>"
  let ?m = "[tup ''cluster:c'' ''cluster'' ''tenant:acme'', tup ''user:x'' ''auditor'' ''tenant:acme'']"
  have v: "\<forall>r \<in> set [?r]. ValidTenantName (r_name r)" "distinct (map r_name [?r])"
    by (simp_all add: ValidTenantName_def dns_label_def dns_char_def is_lower_def)
  obtain m' where m: "ReconcileTenants mem_read mem_post ''m1'' ''c'' [?r] ?m = (None, m')"
    "set m' = (set ?m - \<Union> (claimOwned ` set [?r])) \<union> \<Union> (tenantEntries (set ?m) ''c'' ` set [?r])"
    using tenants_projected [OF mem.live_server_axioms v, of "''m1''" "''c''" ?m] by blast
  have "set m' = (set ?m - claimOwned ?r) \<union> tenantEntries (set ?m) ''c'' ?r" using m(2) by simp
  then show ?thesis
    using m(1)
    by (auto simp: claimOwned_def tenantEntries_def Tenant_def Cluster_def attachment_def consent_def
        standingRoles_def heldEntries_def PlatformTenant_def)
qed

end
