(* ===== verification/Rights_Apps.thy ===== *)
theory Rights_Apps
  imports Rights_Reconcile
begin

section \<open>Installed apps in the rights store\<close>

text \<open>
  \<open>internal/director/authz/apps.go\<close>: every installed app is attached to its tenant and entitled by
  groups, its own or, where addons are activated inside it, theirs; \<open>ReconcileApps\<close> makes the store
  hold exactly that for the tenants given, and removes what is left of an app that is gone.
\<close>

subsection \<open>Definitions\<close>

record installed_app =
  ia_profile :: string
  ia_addons :: "string list"

fun addEntitled ::
  "string \<Rightarrow> string \<Rightarrow> string list \<Rightarrow> (string, tuple) gomap \<Rightarrow> 'e reconcile_err + (string, tuple) gomap" where
  "addEntitled tenant object [] want = Inr want"
| "addEntitled tenant object (b # bs) want =
     (case appGroup tenant b of
        Inl e \<Rightarrow> Inl (BadApp tenant b e)
      | Inr grp \<Rightarrow>
          (let e = tup (grp @ ''#member'') ''entitled'' object in
           addEntitled tenant object bs (AList.update (key e) e want)))"

definition addApp ::
  "string \<Rightarrow> string \<Rightarrow> string list \<Rightarrow> (string, tuple) gomap \<Rightarrow> 'e reconcile_err + (string, tuple) gomap" where
  "addApp tenant profile entitledBy want =
     (let object = App tenant profile; t = tup (Tenant tenant) ''tenant'' object in
      addEntitled tenant object entitledBy (AList.update (key t) t want))"

fun addAddons ::
  "string \<Rightarrow> string list \<Rightarrow> (string, tuple) gomap \<Rightarrow> 'e reconcile_err + (string, tuple) gomap" where
  "addAddons tenant [] want = Inr want"
| "addAddons tenant (a # as) want =
     (case addApp tenant a [a] want of Inl e \<Rightarrow> Inl e | Inr want \<Rightarrow> addAddons tenant as want)"

fun appTuples_loop ::
  "string \<Rightarrow> installed_app list \<Rightarrow> (string, tuple) gomap \<Rightarrow> 'e reconcile_err + (string, tuple) gomap" where
  "appTuples_loop tenant [] want = Inr want"
| "appTuples_loop tenant (app # apps) want =
     (if ia_profile app = [] then appTuples_loop tenant apps want
      else
        (let addons = filter (\<lambda>a. a \<noteq> []) (ia_addons app);
             base = (if addons \<noteq> [] then addons else [ia_profile app]) in
         case addApp tenant (ia_profile app) base want of
           Inl e \<Rightarrow> Inl e
         | Inr want \<Rightarrow>
             (case addAddons tenant addons want of
                Inl e \<Rightarrow> Inl e
              | Inr want \<Rightarrow> appTuples_loop tenant apps want)))"

definition appTuples :: "string \<Rightarrow> installed_app list \<Rightarrow> 'e reconcile_err + (string, tuple) gomap" where
  "appTuples tenant apps = appTuples_loop tenant apps []"

text \<open>
  The objects a tenant's reconciliation looks at: those the store attaches to the tenant under its
  own name, and those of the wanted entries. A set, as a list without duplicates.
\<close>

definition appObjects :: "string \<Rightarrow> tuple list \<Rightarrow> (string, tuple) gomap \<Rightarrow> string list" where
  "appObjects tenant attached want =
     remdups (filter (\<lambda>ob. HasPrefix ob (''app:'' @ tenant @ ''/'')) (map t_object attached) @
              map (\<lambda>(k, t). t_object t) want)"

fun readObjects ::
  "('w \<Rightarrow> tuple \<Rightarrow> 'e + tuple list) \<Rightarrow> 'w \<Rightarrow> string list \<Rightarrow> (string, tuple) gomap \<Rightarrow> tuple list \<Rightarrow>
   'e reconcile_err + (string, tuple) gomap \<times> tuple list" where
  "readObjects rd w [] want deletes = Inr (want, deletes)"
| "readObjects rd w (object # objects) want deletes =
     (case rd w (tup [] [] object) of
        Inl e \<Rightarrow> Inl (ReadFailed object e)
      | Inr hv \<Rightarrow>
          (let (want, deletes) =
             keepOrDelete want deletes (filter (\<lambda>t. t_relation t = ''tenant'' \<or> t_relation t = ''entitled'') hv) in
           readObjects rd w objects want deletes))"

definition reconcileApps_tenant ::
  "('w \<Rightarrow> tuple \<Rightarrow> 'e + tuple list) \<Rightarrow> 'w \<Rightarrow> string \<Rightarrow> installed_app list \<Rightarrow>
   'e reconcile_err + tuple list \<times> tuple list" where
  "reconcileApps_tenant rd w tenant apps =
     (case appTuples tenant apps of
        Inl e \<Rightarrow> Inl e
      | Inr want \<Rightarrow>
          (case rd w (tup (Tenant tenant) ''tenant'' ''app:'') of
             Inl e \<Rightarrow> Inl (ReadFailed tenant e)
           | Inr attached \<Rightarrow>
               (case readObjects rd w (appObjects tenant attached want) want [] of
                  Inl e \<Rightarrow> Inl e
                | Inr (want, deletes) \<Rightarrow> Inr (map snd want, deletes))))"

fun reconcileApps_loop ::
  "('w \<Rightarrow> tuple \<Rightarrow> 'e + tuple list) \<Rightarrow> 'w \<Rightarrow> (string \<Rightarrow> installed_app list) \<Rightarrow> string list \<Rightarrow>
   'e reconcile_err + tuple list \<times> tuple list" where
  "reconcileApps_loop rd w installed [] = Inr ([], [])"
| "reconcileApps_loop rd w installed (tenant # tenants) =
     (case reconcileApps_tenant rd w tenant (installed tenant) of
        Inl e \<Rightarrow> Inl e
      | Inr (ws, ds) \<Rightarrow>
          (case reconcileApps_loop rd w installed tenants of
             Inl e \<Rightarrow> Inl e
           | Inr (ws', ds') \<Rightarrow> Inr (ws @ ws', ds @ ds')))"

definition ReconcileApps ::
  "('w \<Rightarrow> tuple \<Rightarrow> 'e + tuple list) \<Rightarrow> ('w \<Rightarrow> write_request \<Rightarrow> 'e option \<times> 'w) \<Rightarrow> string \<Rightarrow>
   (string, installed_app list) gomap \<Rightarrow> 'w \<Rightarrow> 'e reconcile_err option \<times> 'w" where
  "ReconcileApps rd post model installed w =
     (case reconcileApps_loop rd w (\<lambda>t. the (map_of installed t)) (sort (map fst installed)) of
        Inl e \<Rightarrow> (Some e, w)
      | Inr (writes, deletes) \<Rightarrow> applyChange post model writes deletes w)"

subsection \<open>What the installed apps stand for\<close>

text \<open>Every profile or addon with the names whose groups entitle to it.\<close>

definition entitlements :: "installed_app \<Rightarrow> (string \<times> string list) list" where
  "entitlements app =
     (let addons = filter (\<lambda>a. a \<noteq> []) (ia_addons app) in
      if ia_profile app = [] then []
      else (ia_profile app, if addons = [] then [ia_profile app] else addons) # map (\<lambda>a. (a, [a])) addons)"

definition appGroupId :: "string \<Rightarrow> string \<Rightarrow> string" where
  "appGroupId tenant b = ''group:gentian/tenant/'' @ tenant @ ''/app/'' @ b"

text \<open>A name of an object of the cluster: none of the characters the store or its keys give a meaning.\<close>

definition plainName :: "string \<Rightarrow> bool" where
  "plainName n \<longleftrightarrow> n \<noteq> [] \<and>
     list_all (\<lambda>x. x \<notin> {CHR ''#'', CHR ''/'', CHR '' '', CHR 0x09, CHR 0x0D, CHR 0x0A, CHR '':'', CHR ''|''}) n"

lemma appGroup_ok:
  assumes "ValidTenantName t" "plainName b"
  shows "appGroup t b = Inr (appGroupId t b)"
proof -
  have b: "ReplaceAll b (CHR '':'') (CHR ''/'') = b"
    unfolding ReplaceAll_def by (intro map_idI) (use assms(2) in \<open>auto simp: plainName_def list_all_iff\<close>)
  have "encode (TenantAppGroup t b) = Inr (ReplaceAll (TenantAppGroup t b) (CHR '':'') (CHR ''/''))"
    using ValidTenantName_chars(2) [OF assms(1)] assms(2)
    by (intro encode_ok) (auto simp: TenantAppGroup_def tenantPrefix_def plainName_def list_all_iff)
  moreover have "ReplaceAll (TenantAppGroup t b) (CHR '':'') (CHR ''/'') =
      ''gentian/tenant/'' @ ReplaceAll t (CHR '':'') (CHR ''/'') @ ''/app/'' @ ReplaceAll b (CHR '':'') (CHR ''/'')"
    by (simp add: TenantAppGroup_def tenantPrefix_def ReplaceAll_def)
  ultimately show ?thesis
    using b ValidTenantName_chars(3) [OF assms(1)] by (simp add: appGroup_def Group_def appGroupId_def)
qed

text \<open>A map of bar-free entries, filed under their keys.\<close>

definition barKeyed :: "(string, tuple) gomap \<Rightarrow> bool" where
  "barKeyed want \<longleftrightarrow> keyed want \<and> (\<forall>t \<in> snd ` set want. barFree t)"

lemma barKeyed_Nil: "barKeyed []"
  by (simp add: barKeyed_def)

lemma barKeyed_update:
  assumes "barKeyed want" "barFree t"
  shows "barKeyed (AList.update (key t) t want)"
    "snd ` set (AList.update (key t) t want) = insert t (snd ` set want)"
proof -
  have k: "keyed want" using assms(1) by (simp add: barKeyed_def)
  have "v = t" if "v \<in> snd ` set want" "key v = key t" for v
    using key_barFree [OF that(2) assms(2)] .
  then show e: "snd ` set (AList.update (key t) t want) = insert t (snd ` set want)"
    using keyed_update_values [OF k, of t] by auto
  show "barKeyed (AList.update (key t) t want)"
    using assms keyed_update [OF k, of t] unfolding barKeyed_def e by simp
qed

lemma barFree_app:
  assumes "ValidTenantName t" "plainName p"
  shows "barFree (tup (Tenant t) ''tenant'' (App t p))"
    "plainName b \<Longrightarrow> barFree (tup (appGroupId t b @ ''#member'') ''entitled'' (App t p))"
  using ValidTenantName_chars(2) [OF assms(1), of "CHR ''|''"] assms(2)
  by (auto simp: barFree_def App_def Tenant_def appGroupId_def plainName_def list_all_iff)

definition entitledEntries :: "string \<Rightarrow> string \<Rightarrow> string list \<Rightarrow> tuple set" where
  "entitledEntries t p bs = (\<lambda>b. tup (appGroupId t b @ ''#member'') ''entitled'' (App t p)) ` set bs"

lemma addEntitled_ok:
  assumes "ValidTenantName t" "plainName p" "list_all plainName bs" "barKeyed want"
  shows "\<exists>want'. (addEntitled t (App t p) bs want :: 'e reconcile_err + _) = Inr want' \<and> barKeyed want' \<and>
     snd ` set want' = snd ` set want \<union> entitledEntries t p bs"
  using assms(3,4)
proof (induction bs arbitrary: want)
  case Nil
  then show ?case by (simp add: entitledEntries_def)
next
  case (Cons b bs)
  then have b: "plainName b" "list_all plainName bs" by simp_all
  let ?e = "tup (appGroupId t b @ ''#member'') ''entitled'' (App t p)"
  note u = barKeyed_update [OF Cons.prems(2) barFree_app(2) [OF assms(1,2) b(1)]]
  have "(addEntitled t (App t p) (b # bs) want :: 'e reconcile_err + _) =
      addEntitled t (App t p) bs (AList.update (key ?e) ?e want)"
    by (simp only: addEntitled.simps appGroup_ok [OF assms(1) b(1)] sum.case Let_def)
  moreover have "insert ?e (snd ` set want) \<union> entitledEntries t p bs = snd ` set want \<union> entitledEntries t p (b # bs)"
    by (simp add: entitledEntries_def)
  ultimately show ?case using Cons.IH [OF b(2) u(1)] unfolding u(2) by simp
qed

definition appEntry :: "string \<Rightarrow> string \<times> string list \<Rightarrow> tuple set" where
  "appEntry t e = insert (tup (Tenant t) ''tenant'' (App t (fst e))) (entitledEntries t (fst e) (snd e))"

lemma addApp_ok:
  assumes "ValidTenantName t" "plainName p" "list_all plainName bs" "barKeyed want"
  shows "\<exists>want'. (addApp t p bs want :: 'e reconcile_err + _) = Inr want' \<and> barKeyed want' \<and>
     snd ` set want' = snd ` set want \<union> appEntry t (p, bs)"
proof -
  note u = barKeyed_update [OF assms(4) barFree_app(1) [OF assms(1,2)]]
  from addEntitled_ok [OF assms(1,2,3) u(1), where 'e = 'e] show ?thesis
    unfolding u(2) by (simp add: addApp_def Let_def appEntry_def)
qed

lemma addAddons_ok:
  assumes "ValidTenantName t" "list_all plainName as" "barKeyed want"
  shows "\<exists>want'. (addAddons t as want :: 'e reconcile_err + _) = Inr want' \<and> barKeyed want' \<and>
     snd ` set want' = snd ` set want \<union> \<Union> (appEntry t ` set (map (\<lambda>a. (a, [a])) as))"
  using assms(2,3)
proof (induction as arbitrary: want)
  case (Cons a as)
  from addApp_ok [OF assms(1), of a "[a]" want, where 'e = 'e] Cons.prems
  obtain w1 where w1: "(addApp t a [a] want :: 'e reconcile_err + _) = Inr w1" "barKeyed w1"
    "snd ` set w1 = snd ` set want \<union> appEntry t (a, [a])" by auto
  from Cons.IH [OF _ w1(2)] Cons.prems(1) w1(1,3) show ?case by (simp add: Un_assoc)
qed simp

lemma appTuples_loop_ok:
  assumes "ValidTenantName t" "list_all (\<lambda>(p, bs). plainName p \<and> list_all plainName bs) (concat (map entitlements apps))"
    "barKeyed want"
  shows "\<exists>want'. (appTuples_loop t apps want :: 'e reconcile_err + _) = Inr want' \<and> barKeyed want' \<and>
     snd ` set want' = snd ` set want \<union> \<Union> (appEntry t ` set (concat (map entitlements apps)))"
  using assms(2,3)
proof (induction apps arbitrary: want)
  case (Cons app apps)
  show ?case
  proof (cases "ia_profile app = []")
    case True
    then show ?thesis using Cons by (simp add: entitlements_def)
  next
    case False
    let ?addons = "filter (\<lambda>a. a \<noteq> []) (ia_addons app)"
    let ?base = "if ?addons \<noteq> [] then ?addons else [ia_profile app]"
    have e: "entitlements app = (ia_profile app, ?base) # map (\<lambda>a. (a, [a])) ?addons"
      using False by (simp add: entitlements_def Let_def)
    have p: "plainName (ia_profile app)" "list_all plainName ?base" "list_all plainName ?addons"
      using Cons.prems(1) unfolding list.map concat.simps list_all_append e by (simp_all add: list_all_iff)
    obtain w1 where w1: "(addApp t (ia_profile app) ?base want :: 'e reconcile_err + _) = Inr w1" "barKeyed w1"
      "snd ` set w1 = snd ` set want \<union> appEntry t (ia_profile app, ?base)"
      using addApp_ok [OF assms(1) p(1,2) Cons.prems(2), where 'e = 'e] by blast
    obtain w2 where w2: "(addAddons t ?addons w1 :: 'e reconcile_err + _) = Inr w2" "barKeyed w2"
      "snd ` set w2 = snd ` set w1 \<union> \<Union> (appEntry t ` set (map (\<lambda>a. (a, [a])) ?addons))"
      using addAddons_ok [OF assms(1) p(3) w1(2), where 'e = 'e] by blast
    have "snd ` set w2 = snd ` set want \<union> \<Union> (appEntry t ` set (entitlements app))"
      unfolding w2(3) w1(3) e by (simp add: Un_assoc)
    moreover have "(appTuples_loop t (app # apps) want :: 'e reconcile_err + _) = appTuples_loop t apps w2"
      using False by (simp only: appTuples_loop.simps if_False Let_def w1(1) w2(1) sum.case)
    ultimately show ?thesis
      using Cons.IH [OF _ w2(2)] Cons.prems(1) by (simp add: Un_assoc del: appTuples_loop.simps)
  qed
qed simp

subsection \<open>What is read\<close>

abbreviation appRelation :: "tuple \<Rightarrow> bool" where
  "appRelation t \<equiv> t_relation t = ''tenant'' \<or> t_relation t = ''entitled''"

lemma matches_whole_object:
  "\<not> HasSuffix object '':'' \<Longrightarrow> object \<noteq> [] \<Longrightarrow> matches (tup [] [] object) t \<longleftrightarrow> t_object t = object"
  by (auto simp: matches_def)

lemma matches_attached:
  "matches (tup (Tenant tenant) ''tenant'' ''app:'') t \<longleftrightarrow>
   t_user t = Tenant tenant \<and> t_relation t = ''tenant'' \<and> HasPrefix (t_object t) ''app:''"
  by (auto simp: matches_def HasSuffix_def HasPrefix_def suffix_def)

lemma App_wf: "plainName p \<Longrightarrow> \<not> HasSuffix (App t p) '':'' \<and> App t p \<noteq> []"
  using HasSuffix_colon [of p "''app:'' @ t @ ''/''"] last_in_set [of p]
  by (auto simp: App_def plainName_def list_all_iff)

lemma appEntry_object: "x \<in> appEntry t e \<Longrightarrow> t_object x = App t (fst e) \<and> appRelation x"
  by (auto simp: appEntry_def entitledEntries_def)

lemma appEntry_objects: "t_object ` appEntry t e = {App t (fst e)}"
  by (auto simp: appEntry_def entitledEntries_def)

text \<open>The objects of a tenant's apps: those wanted, and those the store attaches to it under its name.\<close>

definition appRegion :: "tuple set \<Rightarrow> string \<Rightarrow> (string \<times> string list) list \<Rightarrow> tuple set" where
  "appRegion S t es = {x. appRelation x \<and> (t_object x \<in> App t ` fst ` set es \<or>
     HasPrefix (t_object x) (''app:'' @ t @ ''/'') \<and> tup (Tenant t) ''tenant'' (t_object x) \<in> S)}"

lemma appObjects_set:
  assumes "set attached = {x \<in> S. t_user x = Tenant t \<and> t_relation x = ''tenant'' \<and> HasPrefix (t_object x) ''app:''}"
    and "snd ` set want = \<Union> (appEntry t ` set es)"
  shows "ob \<in> set (appObjects t attached want) \<longleftrightarrow> ob \<in> App t ` fst ` set es \<or>
     HasPrefix ob (''app:'' @ t @ ''/'') \<and> tup (Tenant t) ''tenant'' ob \<in> S"
proof -
  have p: "HasPrefix ob (''app:'' @ t @ ''/'') \<Longrightarrow> HasPrefix ob ''app:''" by (auto simp: HasPrefix_def prefix_def)
  have "ob \<in> t_object ` set attached \<longleftrightarrow> HasPrefix ob ''app:'' \<and> tup (Tenant t) ''tenant'' ob \<in> S"
  proof
    assume "ob \<in> t_object ` set attached"
    then obtain x where x: "x \<in> S" "t_user x = Tenant t" "t_relation x = ''tenant''" "HasPrefix (t_object x) ''app:''" "ob = t_object x"
      unfolding assms(1) by blast
    then have e: "tup (Tenant t) ''tenant'' ob = x" by (cases x) simp
    from x(1,4,5) show "HasPrefix ob ''app:'' \<and> tup (Tenant t) ''tenant'' ob \<in> S" unfolding e by simp
  next
    assume "HasPrefix ob ''app:'' \<and> tup (Tenant t) ''tenant'' ob \<in> S"
    then have "tup (Tenant t) ''tenant'' ob \<in> set attached" unfolding assms(1) by simp
    then show "ob \<in> t_object ` set attached" by (rule rev_image_eqI) simp
  qed
  moreover have "ob \<in> t_object ` snd ` set want \<longleftrightarrow> ob \<in> App t ` fst ` set es"
    unfolding assms(2) image_UN appEntry_objects by auto
  moreover have "ob \<in> set (appObjects t attached want) \<longleftrightarrow>
      ob \<in> t_object ` set attached \<and> HasPrefix ob (''app:'' @ t @ ''/'') \<or> ob \<in> t_object ` snd ` set want"
    by (auto simp: appObjects_def split_beta image_image)
  ultimately show ?thesis using p by blast
qed

definition entitled :: "installed_app list \<Rightarrow> (string \<times> string list) list" where
  "entitled apps = concat (map entitlements apps)"

definition appsEntries :: "string \<Rightarrow> installed_app list \<Rightarrow> tuple set" where
  "appsEntries t apps = \<Union> (appEntry t ` set (entitled apps))"

definition installable :: "installed_app list \<Rightarrow> bool" where
  "installable apps \<longleftrightarrow> list_all (\<lambda>(p, bs). plainName p \<and> list_all plainName bs) (entitled apps)"

text \<open>An app object names its tenant before the first slash.\<close>

definition tenantOfApp :: "string \<Rightarrow> string" where
  "tenantOfApp ob = takeWhile (\<lambda>x. x \<noteq> CHR ''/'') (drop 4 ob)"

lemma tenantOfApp_prefix:
  assumes "ValidTenantName t" "HasPrefix ob (''app:'' @ t @ ''/'')"
  shows "tenantOfApp ob = t"
proof -
  obtain p where ob: "ob = ''app:'' @ t @ CHR ''/'' # p" using assms(2) by (auto simp: HasPrefix_def prefix_def)
  have "takeWhile (\<lambda>x. x \<noteq> CHR ''/'') (t @ CHR ''/'' # p) = t"
    using ValidTenantName_chars(2) [OF assms(1)] by (subst takeWhile_append2) auto
  then show ?thesis by (simp add: tenantOfApp_def ob)
qed

lemma tenantOfApp_region:
  assumes "ValidTenantName t" "x \<in> appRegion S t es \<or> x \<in> appsEntries t apps"
  shows "tenantOfApp (t_object x) = t"
proof -
  have a: "HasPrefix (App t p) (''app:'' @ t @ ''/'')" for p by (simp add: App_def HasPrefix_def)
  have "HasPrefix (t_object x) (''app:'' @ t @ ''/'')"
    using assms(2)
  proof
    assume "x \<in> appRegion S t es"
    then show ?thesis using a by (auto simp: appRegion_def)
  next
    assume "x \<in> appsEntries t apps"
    then obtain e where "x \<in> appEntry t e" by (auto simp: appsEntries_def)
    then show ?thesis using a appEntry_object by simp
  qed
  then show ?thesis by (rule tenantOfApp_prefix [OF assms(1)])
qed

context live_server
begin

lemma readObjects_passes:
  assumes "distinct objects" "\<forall>ob \<in> set objects. \<not> HasSuffix ob '':'' \<and> ob \<noteq> []"
  shows "\<exists>ts. readObjects rd w objects want deletes = Inr (keepOrDelete want deletes ts) \<and> distinct ts \<and>
           set ts = {t \<in> stored w. appRelation t \<and> t_object t \<in> set objects}"
  using assms
proof (induction objects arbitrary: want deletes)
  case (Cons ob objects)
  obtain hv where r: "rd w (tup [] [] ob) = Inr hv" using rd_total by blast
  let ?hv = "filter appRelation hv"
  have "matches (tup [] [] ob) t \<longleftrightarrow> t_object t = ob" for t
    using Cons.prems(2) by (intro matches_whole_object) simp_all
  then have hv: "set ?hv = {t \<in> stored w. appRelation t \<and> t_object t = ob}" "distinct ?hv"
    using rd_sound [OF r] rd_distinct [OF r] by auto
  have d: "distinct objects" "\<forall>ob \<in> set objects. \<not> HasSuffix ob '':'' \<and> ob \<noteq> []" using Cons.prems by simp_all
  from Cons.IH [OF d, of "fst (keepOrDelete want deletes ?hv)" "snd (keepOrDelete want deletes ?hv)"]
  obtain ts where ts: "readObjects rd w objects (fst (keepOrDelete want deletes ?hv)) (snd (keepOrDelete want deletes ?hv)) =
        Inr (keepOrDelete want deletes (?hv @ ts))" "distinct ts"
      "set ts = {t \<in> stored w. appRelation t \<and> t_object t \<in> set objects}"
    unfolding keepOrDelete_append by blast
  have "distinct (?hv @ ts)"
    unfolding distinct_append hv(1) ts(3) using hv(2) ts(2) Cons.prems(1) by auto
  moreover have "set (?hv @ ts) = {t \<in> stored w. appRelation t \<and> t_object t \<in> set (ob # objects)}"
    unfolding set_append hv(1) ts(3) by auto
  moreover have "readObjects rd w (ob # objects) want deletes = Inr (keepOrDelete want deletes (?hv @ ts))"
    using ts(1) by (simp only: readObjects.simps r sum.case Let_def split_beta)
  ultimately show ?case by (intro exI conjI)
qed simp

lemma reconcileApps_tenant_brings:
  assumes t: "ValidTenantName t" and wf: "\<forall>x \<in> stored w. \<not> HasSuffix (t_object x) '':''"
    and es: "es = concat (map entitlements apps)" "list_all (\<lambda>(p, bs). plainName p \<and> list_all plainName bs) es"
  shows "\<exists>ws ds. reconcileApps_tenant rd w t apps = Inr (ws, ds) \<and>
           brings (stored w) (appRegion (stored w) t es) (\<Union> (appEntry t ` set es)) (ws, ds)"
proof -
  obtain want where w: "(appTuples t apps :: 'b reconcile_err + _) = Inr want" "barKeyed want"
    "snd ` set want = \<Union> (appEntry t ` set es)"
    using appTuples_loop_ok [OF t es(2) [unfolded es(1)] barKeyed_Nil, where 'e = 'b]
    unfolding appTuples_def es(1) [symmetric] by auto
  obtain att where a: "rd w (tup (Tenant t) ''tenant'' ''app:'') = Inr att" using rd_total by blast
  have att: "set att = {x \<in> stored w. t_user x = Tenant t \<and> t_relation x = ''tenant'' \<and> HasPrefix (t_object x) ''app:''}"
    using rd_sound [OF a] unfolding matches_attached .
  note obs = appObjects_set [OF att w(3)]
  have "\<not> HasSuffix ob '':'' \<and> ob \<noteq> []" if "ob \<in> set (appObjects t att want)" for ob
    using that [unfolded obs]
  proof
    assume "ob \<in> App t ` fst ` set es"
    then show ?thesis using es(2) App_wf by (auto simp: list_all_iff)
  next
    assume "HasPrefix ob (''app:'' @ t @ ''/'') \<and> tup (Tenant t) ''tenant'' ob \<in> stored w"
    then show ?thesis using wf by (force simp: HasPrefix_def)
  qed
  then obtain ts where ts: "readObjects rd w (appObjects t att want) want [] = Inr (keepOrDelete want [] ts)" "distinct ts"
    "set ts = {x \<in> stored w. appRelation x \<and> t_object x \<in> set (appObjects t att want)}"
    using readObjects_passes [of "appObjects t att want" w want "[]"] by (auto simp: appObjects_def)
  obtain want' deletes where k: "keepOrDelete want [] ts = (want', deletes)" by fastforce
  have wk: "keyed want" using w(2) by (simp add: barKeyed_def)
  have agree: "\<forall>x \<in> set ts. \<forall>v \<in> snd ` set want. key x = key v \<longrightarrow> x = v"
    using key_barFree w(2) by (auto simp: barKeyed_def)
  have tR: "set ts = stored w \<inter> appRegion (stored w) t es"
    unfolding ts(3) obs appRegion_def by blast
  have wR: "snd ` set want \<subseteq> appRegion (stored w) t es"
  proof
    fix x assume "x \<in> snd ` set want"
    then obtain e where e: "e \<in> set es" "x \<in> appEntry t e" unfolding w(3) by blast
    then have "t_object x \<in> App t ` fst ` set es" using appEntry_object [OF e(2)] by simp
    with appEntry_object [OF e(2)] show "x \<in> appRegion (stored w) t es" unfolding appRegion_def by blast
  qed
  have "reconcileApps_tenant rd w t apps = Inr (map snd want', deletes)"
    by (simp only: reconcileApps_tenant_def w(1) a ts(1) k sum.case prod.case)
  with brings_keepOrDelete [OF wk k ts(2) agree tR wR] show ?thesis unfolding w(3) by blast
qed

lemma reconcileApps_loop_brings:
  assumes wf: "\<forall>x \<in> stored w. \<not> HasSuffix (t_object x) '':''"
    and ts: "distinct ts" "\<forall>t \<in> set ts. ValidTenantName t \<and> installable (apps t)"
  shows "\<exists>ws ds. reconcileApps_loop rd w apps ts = Inr (ws, ds) \<and>
     brings (stored w) (\<Union>t \<in> set ts. appRegion (stored w) t (entitled (apps t)))
       (\<Union>t \<in> set ts. appsEntries t (apps t)) (ws, ds)"
  using ts
proof (induction ts)
  case (Cons t ts)
  let ?S = "stored w"
  let ?R = "\<lambda>t. appRegion ?S t (entitled (apps t))" and ?W = "\<lambda>t. appsEntries t (apps t)"
  have v: "ValidTenantName t" "list_all (\<lambda>(p, bs). plainName p \<and> list_all plainName bs) (entitled (apps t))"
    using Cons.prems(2) by (simp_all add: installable_def)
  obtain ws ds where r: "reconcileApps_tenant rd w t (apps t) = Inr (ws, ds)" "brings ?S (?R t) (?W t) (ws, ds)"
    using reconcileApps_tenant_brings [OF v(1) wf entitled_def v(2)] unfolding appsEntries_def by blast
  have "distinct ts" "\<forall>t \<in> set ts. ValidTenantName t \<and> installable (apps t)" using Cons.prems by simp_all
  from Cons.IH [OF this] obtain ws' ds' where i: "reconcileApps_loop rd w apps ts = Inr (ws', ds')"
    "brings ?S (\<Union>t \<in> set ts. ?R t) (\<Union>t \<in> set ts. ?W t) (ws', ds')" by blast
  have "(?R t \<union> ?W t) \<inter> ((\<Union>t \<in> set ts. ?R t) \<union> (\<Union>t \<in> set ts. ?W t)) = {}"
  proof (rule disjoint_by [where f = "\<lambda>x. tenantOfApp (t_object x)" and K = "{t}" and L = "set ts"])
    show "{t} \<inter> set ts = {}" using Cons.prems(1) by simp
    show "tenantOfApp (t_object x) \<in> {t}" if "x \<in> ?R t \<union> ?W t" for x
      using that tenantOfApp_region [OF v(1)] by blast
    show "tenantOfApp (t_object x) \<in> set ts" if "x \<in> (\<Union>t \<in> set ts. ?R t) \<union> (\<Union>t \<in> set ts. ?W t)" for x
    proof -
      from that obtain u where "u \<in> set ts" "x \<in> ?R u \<union> ?W u" by blast
      moreover have "ValidTenantName u" using calculation(1) Cons.prems(2) by simp
      ultimately show ?thesis using tenantOfApp_region [of u x] by blast
    qed
  qed
  from brings_append [OF r(2) i(2) this]
  have "brings ?S (\<Union>t \<in> set (t # ts). ?R t) (\<Union>t \<in> set (t # ts). ?W t) (ws @ ws', ds @ ds')"
    by (simp only: list.set UN_insert)
  with r(1) i(1) show ?case by simp
qed (simp add: brings_Nil)

end

subsection \<open>Properties\<close>

text \<open>
  C3. The projection of the installed apps. On a server that answers, whose objects have ids of
  their own, the apps of every tenant given end with exactly the entries that attach and entitle
  them, each entitled by the groups of the addons activated in it or by its own where there is
  none; an app that is no longer installed loses its entries, every other relation on an app
  and every tenant not given is left alone.
\<close>

theorem apps_projected:
  assumes "live_server stored rd post"
    and "\<forall>x \<in> stored w. \<not> HasSuffix (t_object x) '':''"
    and "distinct (map fst installed)" "\<forall>(t, apps) \<in> set installed. ValidTenantName t \<and> installable apps"
  shows "\<exists>w'. ReconcileApps rd post model installed w = (None, w') \<and>
     stored w' = (stored w - (\<Union>(t, apps) \<in> set installed. appRegion (stored w) t (entitled apps))) \<union>
                 (\<Union>(t, apps) \<in> set installed. appsEntries t apps)"
proof -
  let ?f = "\<lambda>t. the (map_of installed t)" and ?ts = "sort (map fst installed)"
  have f: "?f t = apps" if "(t, apps) \<in> set installed" for t apps
    using that assms(3) by simp
  have "distinct ?ts" "\<forall>t \<in> set ?ts. ValidTenantName t \<and> installable (?f t)"
    using assms(3,4) f by auto
  from live_server.reconcileApps_loop_brings [OF assms(1,2) this]
  obtain ws ds where l: "reconcileApps_loop rd w ?f ?ts = Inr (ws, ds)"
    "brings (stored w) (\<Union>t \<in> set ?ts. appRegion (stored w) t (entitled (?f t))) (\<Union>t \<in> set ?ts. appsEntries t (?f t)) (ws, ds)"
    by blast
  have u: "(\<Union>t \<in> set ?ts. g t (?f t)) = (\<Union>(t, apps) \<in> set installed. g t apps)" for g :: "string \<Rightarrow> _ \<Rightarrow> tuple set"
  proof -
    have "g (fst p) (?f (fst p)) = (case p of (t, apps) \<Rightarrow> g t apps)" if "p \<in> set installed" for p
      using f [of "fst p" "snd p"] that by (simp add: split_beta)
    then show ?thesis by simp
  qed
  from live_server.applyChange_brings [OF assms(1) l(2), of model] l(1) show ?thesis
    unfolding u [of "\<lambda>t apps. appRegion (stored w) t (entitled apps)"] u [of appsEntries]
    by (simp add: ReconcileApps_def)
qed

text \<open>
  An app with an addon: the base is entitled by the addon's group, the addon by its own; the
  entry of an app that is gone is removed.
\<close>

theorem apps_projected_witness:
  "\<exists>m'. ReconcileApps mem_read mem_post ''m1'' [(''acme'', [\<lparr>ia_profile = ''erp'', ia_addons = [''crm'']\<rparr>])]
          [tup ''tenant:acme'' ''tenant'' ''app:acme/old''] = (None, m') \<and>
        tup ''group:gentian/tenant/acme/app/crm#member'' ''entitled'' ''app:acme/erp'' \<in> set m' \<and>
        tup ''group:gentian/tenant/acme/app/erp#member'' ''entitled'' ''app:acme/erp'' \<notin> set m' \<and>
        tup ''tenant:acme'' ''tenant'' ''app:acme/old'' \<notin> set m'"
proof -
  let ?i = "[(''acme'', [\<lparr>ia_profile = ''erp'', ia_addons = [''crm'']\<rparr>])]"
  let ?m = "[tup ''tenant:acme'' ''tenant'' ''app:acme/old'']"
  have e: "entitled [\<lparr>ia_profile = ''erp'', ia_addons = [''crm'']\<rparr>] = [(''erp'', [''crm'']), (''crm'', [''crm''])]"
    by (simp add: entitled_def entitlements_def Let_def)
  have "ValidTenantName ''acme''" "plainName ''erp''" "plainName ''crm''"
    by (simp_all add: ValidTenantName_def dns_label_def dns_char_def is_lower_def plainName_def)
  then have v: "\<forall>(t, apps) \<in> set ?i. ValidTenantName t \<and> installable apps" "distinct (map fst ?i)"
    "\<forall>x \<in> set ?m. \<not> HasSuffix (t_object x) '':''"
    by (simp_all add: installable_def e HasSuffix_def suffix_def)
  obtain m' where m: "ReconcileApps mem_read mem_post ''m1'' ?i ?m = (None, m')"
    "set m' = (set ?m - (\<Union>(t, apps) \<in> set ?i. appRegion (set ?m) t (entitled apps))) \<union> (\<Union>(t, apps) \<in> set ?i. appsEntries t apps)"
    using apps_projected [where stored = set and w = ?m and installed = ?i and model = "''m1''",
        OF mem.live_server_axioms] v by blast
  have W: "appsEntries ''acme'' [\<lparr>ia_profile = ''erp'', ia_addons = [''crm'']\<rparr>] =
      {tup ''tenant:acme'' ''tenant'' ''app:acme/erp'',
       tup ''group:gentian/tenant/acme/app/crm#member'' ''entitled'' ''app:acme/erp'',
       tup ''tenant:acme'' ''tenant'' ''app:acme/crm'',
       tup ''group:gentian/tenant/acme/app/crm#member'' ''entitled'' ''app:acme/crm''}"
    by (simp add: appsEntries_def e appEntry_def entitledEntries_def appGroupId_def App_def Tenant_def insert_commute)
  have "tup ''tenant:acme'' ''tenant'' ''app:acme/old'' \<in> appRegion (set ?m) ''acme'' (entitled [\<lparr>ia_profile = ''erp'', ia_addons = [''crm'']\<rparr>])"
    by (simp add: appRegion_def Tenant_def HasPrefix_def)
  then have "set m' = appsEntries ''acme'' [\<lparr>ia_profile = ''erp'', ia_addons = [''crm'']\<rparr>]"
    using m(2) by simp
  then show ?thesis using m(1) unfolding W by simp
qed

end
