(* ===== verification/Bouncer_Table.thy ===== *)
theory Bouncer_Table
  imports Go_Prelude
begin

section \<open>The bouncer's route table\<close>

text \<open>
  Package \<open>internal/bouncer\<close>, \<open>table.go\<close> and \<open>cookies.go\<close>: the table the operator writes beside the
  routes it reconciles, read and checked by \<open>ParseTable\<close>, the route a host has, the paths a
  route refuses outright, and the session cookies taken out of a request. The value the YAML
  decoder produces is the argument of \<open>ParseTable\<close>; \<open>ul\<close> is the Unicode case table and
  \<open>urlParse\<close> what \<open>net/url\<close> makes of an address.
\<close>

subsection \<open>Routes\<close>

record route =
  rt_host :: string
  rt_relation :: string
  rt_object :: string
  rt_authMode :: string
  rt_keepClientToken :: bool
  rt_idTokenSession :: bool
  rt_idTokenAudience :: string
  rt_forwardToken :: bool
  rt_exchangeScope :: string
  rt_denyPaths :: "string list"
  rt_sessionCookies :: "string list"
  rt_sessionCookiePrefixes :: "string list"
  rt_deniedRedirect :: string

definition AuthModeOIDC :: string where "AuthModeOIDC = ''oidc''"

definition AuthModeBearer :: string where "AuthModeBearer = ''bearer''"

record url_parts =
  u_scheme :: string
  u_host :: string
  u_hasUser :: bool

text \<open>\<open>pathOnly\<close> drops the query and the fragment.\<close>

definition pathOnly :: "string \<Rightarrow> string" where
  "pathOnly path = cutAny path ''?#''"

definition Denies :: "route \<Rightarrow> string \<Rightarrow> bool" where
  "Denies r path =
     (let p = pathOnly path in
      list_ex (\<lambda>d. d \<noteq> [] \<and>
                   (d = ''/'' \<or> (let d' = TrimSuffix d ''/'' in p = d' \<or> HasPrefix p (d' @ ''/''))))
        (rt_denyPaths r))"

fun normalisePaths :: "string list \<Rightarrow> string list" where
  "normalisePaths [] = []"
| "normalisePaths (p # ps) =
     (let q = TrimSpace p in
      if q = [] then normalisePaths ps
      else (if HasPrefix q ''/'' then q else ''/'' @ q) # normalisePaths ps)"

datatype table_err =
    NeedsHostRelationObject nat
  | NeedsAuthMode nat
  | ExchangesOnlyBehindSession nat
  | HostListedTwice string
  | EmptySessionCookie nat
  | BadDeniedRedirect nat

definition badRedirect :: "(string \<Rightarrow> url_parts option) \<Rightarrow> route \<Rightarrow> bool" where
  "badRedirect urlParse r \<longleftrightarrow> rt_deniedRedirect r \<noteq> [] \<and>
     (rt_authMode r \<noteq> AuthModeOIDC \<or>
      (case urlParse (rt_deniedRedirect r) of
         None \<Rightarrow> True
       | Some u \<Rightarrow> u_scheme u \<noteq> ''https'' \<or> u_host u = [] \<or> u_hasUser u))"

fun ParseTable_loop ::
  "(string \<Rightarrow> string) \<Rightarrow> (string \<Rightarrow> url_parts option) \<Rightarrow> nat \<Rightarrow> string list \<Rightarrow> route list \<Rightarrow> table_err + route list" where
  "ParseTable_loop ul urlParse i seen [] = Inr []"
| "ParseTable_loop ul urlParse i seen (r # rs) =
     (let host = ToLower ul (TrimSpace (rt_host r)) in
      if host = [] \<or> rt_relation r = [] \<or> rt_object r = [] then Inl (NeedsHostRelationObject i)
      else if rt_authMode r \<noteq> AuthModeOIDC \<and> rt_authMode r \<noteq> AuthModeBearer then Inl (NeedsAuthMode i)
      else if rt_exchangeScope r \<noteq> [] \<and>
        (rt_authMode r \<noteq> AuthModeOIDC \<or> rt_forwardToken r \<or> rt_keepClientToken r \<or> rt_idTokenSession r)
        then Inl (ExchangesOnlyBehindSession i)
      else if host \<in> set seen then Inl (HostListedTwice host)
      else if list_ex (\<lambda>n. TrimSpace n = []) (rt_sessionCookies r @ rt_sessionCookiePrefixes r)
        then Inl (EmptySessionCookie i)
      else if badRedirect urlParse r then Inl (BadDeniedRedirect i)
      else
        (case ParseTable_loop ul urlParse (i + 1) (host # seen) rs of
           Inl e \<Rightarrow> Inl e
         | Inr out \<Rightarrow> Inr (r\<lparr>rt_host := host, rt_denyPaths := normalisePaths (rt_denyPaths r)\<rparr> # out)))"

definition ParseTable ::
  "(string \<Rightarrow> string) \<Rightarrow> (string \<Rightarrow> url_parts option) \<Rightarrow> route list \<Rightarrow> table_err + route list" where
  "ParseTable ul urlParse rs = ParseTable_loop ul urlParse 0 [] rs"

text \<open>A host without its port: cut at the last colon, unless it stands in an IPv6 literal.\<close>

definition stripPort :: "string \<Rightarrow> string" where
  "stripPort host =
     (let after = takeWhile (\<lambda>x. x \<noteq> CHR '':'') (rev host); i = length host - length after - 1 in
      if CHR '':'' \<in> set host \<and> i > 0 \<and> CHR '']'' \<notin> set after then take i host else host)"

definition Match :: "(string \<Rightarrow> string) \<Rightarrow> route list \<Rightarrow> string \<Rightarrow> route option" where
  "Match ul routes host = (let h = stripPort (ToLower ul host) in find (\<lambda>r. rt_host r = h) routes)"

subsection \<open>Cookies\<close>

definition ownsCookie :: "route \<Rightarrow> string \<Rightarrow> bool" where
  "ownsCookie r name \<longleftrightarrow>
     list_ex (\<lambda>n. name = n) (rt_sessionCookies r) \<or> list_ex (\<lambda>p. HasPrefix name p) (rt_sessionCookiePrefixes r)"

definition ownedPiece :: "route \<Rightarrow> string \<Rightarrow> bool" where
  "ownedPiece r piece \<longleftrightarrow> CHR ''='' \<in> set piece \<and> ownsCookie r (Trim (takeWhile (\<lambda>x. x \<noteq> CHR ''='') piece) [CHR '' '', CHR 0x09])"

definition withoutSessionCookies :: "route \<Rightarrow> string \<Rightarrow> string \<times> bool" where
  "withoutSessionCookies r header =
     (if header = [] \<or> (rt_sessionCookies r = [] \<and> rt_sessionCookiePrefixes r = []) then (header, False)
      else
        (let pieces = Split header (CHR '';''); kept = filter (\<lambda>p. \<not> ownedPiece r p) pieces in
         if list_ex (ownedPiece r) pieces
         then (TrimLeft (Join kept '';'') [CHR '' '', CHR 0x09], True)
         else (header, False)))"

subsection \<open>Lemmas\<close>

text \<open>A table that was accepted, with the hosts \<open>seen\<close> before it.\<close>

definition wfRoute :: "(string \<Rightarrow> url_parts option) \<Rightarrow> route \<Rightarrow> bool" where
  "wfRoute urlParse r \<longleftrightarrow>
     rt_host r \<noteq> [] \<and> rt_relation r \<noteq> [] \<and> rt_object r \<noteq> [] \<and>
     rt_authMode r \<in> {AuthModeOIDC, AuthModeBearer} \<and>
     (rt_exchangeScope r \<noteq> [] \<longrightarrow>
        rt_authMode r = AuthModeOIDC \<and> \<not> rt_forwardToken r \<and> \<not> rt_keepClientToken r \<and> \<not> rt_idTokenSession r) \<and>
     list_all (\<lambda>d. HasPrefix d ''/'') (rt_denyPaths r) \<and>
     list_all (\<lambda>n. n \<noteq> []) (rt_sessionCookies r @ rt_sessionCookiePrefixes r) \<and>
     \<not> badRedirect urlParse r"

lemma dropWords_Nil [simp]: "dropWords ws [] = []"
  by (subst dropWords.simps) (auto simp: find_Some_iff split: option.split)

lemma TrimSpace_Nil [simp]: "TrimSpace [] = []"
  by (simp add: TrimSpace_def)

lemma normalisePaths_slash: "list_all (\<lambda>d. HasPrefix d ''/'') (normalisePaths ps)"
  by (induction ps) (auto simp: Let_def HasPrefix_def)

lemma ParseTable_loop_wf:
  "ParseTable_loop ul urlParse i seen rs = Inr out \<Longrightarrow>
   list_all (wfRoute urlParse) out \<and> distinct (map rt_host out) \<and> set (map rt_host out) \<inter> set seen = {}"
proof (induction ul urlParse i seen rs arbitrary: out rule: ParseTable_loop.induct)
  case (2 ul urlParse i seen r rs)
  let ?h = "ToLower ul (TrimSpace (rt_host r))"
  let ?r = "r\<lparr>rt_host := ?h, rt_denyPaths := normalisePaths (rt_denyPaths r)\<rparr>"
  from "2.prems" obtain out' where o: "ParseTable_loop ul urlParse (i + 1) (?h # seen) rs = Inr out'" "out = ?r # out'"
    and h: "?h \<noteq> []" "?h \<notin> set seen" "rt_relation r \<noteq> []" "rt_object r \<noteq> []"
    and c: "\<not> (rt_authMode r \<noteq> AuthModeOIDC \<and> rt_authMode r \<noteq> AuthModeBearer)"
      "\<not> (rt_exchangeScope r \<noteq> [] \<and> (rt_authMode r \<noteq> AuthModeOIDC \<or> rt_forwardToken r \<or> rt_keepClientToken r \<or> rt_idTokenSession r))"
      "\<not> list_ex (\<lambda>n. TrimSpace n = []) (rt_sessionCookies r @ rt_sessionCookiePrefixes r)" "\<not> badRedirect urlParse r"
    by (auto simp: Let_def split: if_splits sum.splits)
  from "2.IH" [OF refl _ _ _ _ _ _ o(1)] h c
  have i: "list_all (wfRoute urlParse) out'" "distinct (map rt_host out')" "set (map rt_host out') \<inter> set (?h # seen) = {}"
    by auto
  have "list_all (\<lambda>n. n \<noteq> []) (rt_sessionCookies r @ rt_sessionCookiePrefixes r)"
    using c(3) by (force simp: list_ex_iff list_all_iff)
  then have "wfRoute urlParse ?r"
    using h c normalisePaths_slash [of "rt_denyPaths r"] by (auto simp: wfRoute_def badRedirect_def)
  with i o(2) h(2) show ?case by auto
qed simp

text \<open>Whitespace at the left of a piece is no part of its cookie's name.\<close>

lemma Trim_TrimLeft: "Trim (TrimLeft s cs) cs = Trim s cs"
  by (simp add: Trim_def TrimLeft_def)

lemma ownedPiece_TrimLeft:
  "ownedPiece r (TrimLeft p [CHR '' '', CHR 0x09]) = ownedPiece r p"
proof -
  let ?ws = "[CHR '' '', CHR 0x09]"
  have "CHR ''='' \<in> set (dropWhile (\<lambda>x. x \<in> set ?ws) p) \<longleftrightarrow> CHR ''='' \<in> set p"
    by (induction p) auto
  moreover have "takeWhile (\<lambda>x. x \<noteq> CHR ''='') (dropWhile (\<lambda>x. x \<in> set ?ws) p) =
      dropWhile (\<lambda>x. x \<in> set ?ws) (takeWhile (\<lambda>x. x \<noteq> CHR ''='') p)"
    by (induction p) auto
  ultimately show ?thesis
    unfolding ownedPiece_def TrimLeft_def [of p] using Trim_TrimLeft [of "takeWhile (\<lambda>x. x \<noteq> CHR ''='') p" ?ws]
    by (simp add: TrimLeft_def)
qed

text \<open>The pieces of what is left: the kept ones, the first without its leading whitespace.\<close>

lemma TrimLeft_Join:
  assumes "\<forall>p \<in> set (k # ks). CHR '';'' \<notin> set p"
  shows "Split (TrimLeft (Join (k # ks) '';'') [CHR '' '', CHR 0x09]) (CHR '';'') =
    TrimLeft k [CHR '' '', CHR 0x09] # ks"
proof -
  let ?ws = "[CHR '' '', CHR 0x09]"
  have "TrimLeft (Join (k # ks) '';'') ?ws = Join (TrimLeft k ?ws # ks) '';''"
  proof (cases ks)
    case (Cons k' ks')
    have "TrimLeft (k @ CHR '';'' # q) ?ws = TrimLeft k ?ws @ CHR '';'' # q" for q
      by (induction k) (auto simp: TrimLeft_def)
    then show ?thesis using Cons by simp
  qed simp
  moreover have "CHR '';'' \<notin> set (TrimLeft k ?ws)"
    using assms by (auto simp: TrimLeft_def dest: set_dropWhileD)
  ultimately show ?thesis using assms Split_Join [of "TrimLeft k ?ws # ks" "CHR '';''"] by simp
qed

lemma withoutSessionCookies_spec:
  assumes "rt_sessionCookies r \<noteq> [] \<or> rt_sessionCookiePrefixes r \<noteq> []"
    and "withoutSessionCookies r header = (out, changed)"
  shows "list_all (\<lambda>p. \<not> ownedPiece r p) (Split out (CHR '';'')) \<and>
    (changed \<longleftrightarrow> list_ex (ownedPiece r) (Split header (CHR '';''))) \<and>
    (\<not> changed \<longrightarrow> out = header) \<and>
    (changed \<longrightarrow> (case filter (\<lambda>p. \<not> ownedPiece r p) (Split header (CHR '';'')) of
        [] \<Rightarrow> out = []
      | k # ks \<Rightarrow> Split out (CHR '';'') = TrimLeft k [CHR '' '', CHR 0x09] # ks))"
proof (cases "header \<noteq> [] \<and> list_ex (ownedPiece r) (Split header (CHR '';''))")
  case False
  have "\<not> ownedPiece r []" by (simp add: ownedPiece_def)
  with False assms have "out = header" "\<not> changed" "\<not> list_ex (ownedPiece r) (Split header (CHR '';''))"
    by (auto simp: withoutSessionCookies_def Let_def split: if_splits)
  then show ?thesis by (simp add: list_all_iff list_ex_iff)
next
  case True
  define kept where "kept = filter (\<lambda>p. \<not> ownedPiece r p) (Split header (CHR '';''))"
  have o: "out = TrimLeft (Join kept '';'') [CHR '' '', CHR 0x09]" "changed"
    using True assms by (auto simp: withoutSessionCookies_def kept_def Let_def)
  have k: "\<forall>p \<in> set kept. CHR '';'' \<notin> set p \<and> \<not> ownedPiece r p"
    using Split_pieces by (auto simp: kept_def)
  show ?thesis
  proof (cases kept)
    case Nil
    then have "out = []" using o by (simp add: TrimLeft_def)
    then show ?thesis using True o(2) Nil unfolding kept_def [symmetric] by (simp add: ownedPiece_def)
  next
    case (Cons p ps)
    then have "Split out (CHR '';'') = TrimLeft p [CHR '' '', CHR 0x09] # ps"
      using o(1) k TrimLeft_Join [of p ps] by simp
    then show ?thesis
      using True o(2) k Cons unfolding kept_def [symmetric] by (simp add: ownedPiece_TrimLeft list_all_iff)
  qed
qed

subsection \<open>Properties\<close>

text \<open>
  C26. A table that is accepted is well formed: every route has a host, a question and one of the
  two modes, exchanges a token only behind a session, refuses only absolute paths and sends a
  refusal only to an https address; no host is listed twice, so that a request is decided by
  the route of its host and no other, with or without a port.
\<close>

theorem parsed_table_is_well_formed:
  assumes "ParseTable ul urlParse rs = Inr routes"
  shows "list_all (wfRoute urlParse) routes \<and> distinct (map rt_host routes) \<and>
    (\<forall>r host. Match ul routes host = Some r \<longleftrightarrow> r \<in> set routes \<and> rt_host r = stripPort (ToLower ul host))"
proof -
  have w: "list_all (wfRoute urlParse) routes" "distinct (map rt_host routes)"
    using ParseTable_loop_wf assms by (auto simp: ParseTable_def)
  have "Match ul routes host = Some r \<longleftrightarrow> r \<in> set routes \<and> rt_host r = stripPort (ToLower ul host)" for r host
    by (simp add: Match_def Let_def find_distinct [OF w(2)])
  with w show ?thesis by blast
qed

definition sampleRoute :: route where
  "sampleRoute = \<lparr>rt_host = ''Desk.Acme.example'', rt_relation = ''can_use'', rt_object = ''app:acme/desk'', rt_authMode = ''oidc'',
     rt_keepClientToken = False, rt_idTokenSession = False, rt_idTokenAudience = [], rt_forwardToken = False,
     rt_exchangeScope = [], rt_denyPaths = [''admin'', '' ''], rt_sessionCookies = [''gentian-at''], rt_sessionCookiePrefixes = [''OauthNonce''],
     rt_deniedRedirect = []\<rparr>"

theorem parsed_table_is_well_formed_witness:
  "\<exists>routes r. ParseTable (\<lambda>s. s) (\<lambda>s. None) [sampleRoute] = Inr routes \<and>
     Match (\<lambda>s. s) routes ''desk.acme.example:443'' = Some r \<and> rt_denyPaths r = [''/admin'']"
proof -
  let ?r = "sampleRoute\<lparr>rt_host := ''desk.acme.example'', rt_denyPaths := [''/admin'']\<rparr>"
  have p: "ParseTable (\<lambda>s. s) (\<lambda>s. None) [sampleRoute] = Inr [?r]" by code_simp
  have "stripPort (ToLower (\<lambda>s. s) ''desk.acme.example:443'') = ''desk.acme.example''" by code_simp
  then have "Match (\<lambda>s. s) [?r] ''desk.acme.example:443'' = Some ?r"
    using parsed_table_is_well_formed [OF p] by simp
  with p show ?thesis by simp
qed

text \<open>
  C25. What a route refuses outright: exactly the paths whose segments begin with those of a path
  it denies, the query and the fragment left out, and every path where it denies the root. A
  denied path never refuses one that merely begins with the same letters.
\<close>

theorem denies_on_segments:
  "Denies r path \<longleftrightarrow>
     (\<exists>d \<in> set (rt_denyPaths r). d = ''/'' \<or>
        d \<noteq> [] \<and> prefix (Split (TrimSuffix d ''/'') (CHR ''/'')) (Split (pathOnly path) (CHR ''/'')))"
proof -
  have "pathOnly path = d \<or> HasPrefix (pathOnly path) (d @ ''/'') \<longleftrightarrow>
      prefix (Split d (CHR ''/'')) (Split (pathOnly path) (CHR ''/''))" for d
    by (rule under_iff_segments)
  then show ?thesis
    unfolding Denies_def Let_def list_ex_iff by (metis list.distinct(1))
qed

theorem denies_on_segments_witness:
  "Denies (sampleRoute\<lparr>rt_denyPaths := [''/admin'']\<rparr>) ''/admin/users?x'' \<and>
   \<not> Denies (sampleRoute\<lparr>rt_denyPaths := [''/admin'']\<rparr>) ''/administrators''"
  unfolding denies_on_segments by code_simp

text \<open>
  C24. No session cookie goes on to a backend, and nothing else is touched: where the header
  changes, what is left splits into the pieces that are not the edge's, in their order and with
  their bytes, the leading whitespace of the first one aside; where it does not, it holds none
  of the edge's cookies.
\<close>

theorem session_cookies_removed:
  assumes "rt_sessionCookies r \<noteq> [] \<or> rt_sessionCookiePrefixes r \<noteq> []"
    and "withoutSessionCookies r header = (out, changed)"
  shows "list_all (\<lambda>p. \<not> ownedPiece r p) (Split out (CHR '';'')) \<and>
    (changed \<longleftrightarrow> list_ex (ownedPiece r) (Split header (CHR '';''))) \<and>
    (\<not> changed \<longrightarrow> out = header) \<and>
    (changed \<longrightarrow> (case filter (\<lambda>p. \<not> ownedPiece r p) (Split header (CHR '';'')) of
        [] \<Rightarrow> out = []
      | k # ks \<Rightarrow> Split out (CHR '';'') = TrimLeft k [CHR '' '', CHR 0x09] # ks))"
  using assms by (rule withoutSessionCookies_spec)

theorem session_cookies_removed_witness:
  "\<exists>out. withoutSessionCookies sampleRoute ''gentian-at=x; lang=de; OauthNonce-1=y'' = (out, True) \<and>
     Split out (CHR '';'') = [''lang=de'']"
proof -
  have w: "withoutSessionCookies sampleRoute ''gentian-at=x; lang=de; OauthNonce-1=y'' = (''lang=de'', True)" by code_simp
  have f: "filter (\<lambda>p. \<not> ownedPiece sampleRoute p) (Split ''gentian-at=x; lang=de; OauthNonce-1=y'' (CHR '';'')) = ['' lang=de'']"
    by code_simp
  have s: "rt_sessionCookies sampleRoute \<noteq> [] \<or> rt_sessionCookiePrefixes sampleRoute \<noteq> []" by (simp add: sampleRoute_def)
  from session_cookies_removed [OF s w] f have "Split ''lang=de'' (CHR '';'') = [''lang=de'']" by (simp add: TrimLeft_def)
  with w show ?thesis by blast
qed

end
