(* ===== verification/Bouncer_Decider.thy ===== *)
theory Bouncer_Decider
  imports Bouncer_Table Rights_Ids
begin

section \<open>The bouncer's decisions\<close>

text \<open>
  Package \<open>internal/bouncer\<close>, \<open>decider.go\<close>, \<open>cache.go\<close> and \<open>exchange.go\<close>: whether a request may reach the
  route of its host. What lies outside is a record of functions: the token verifier, the rights
  store and the realm's token exchange. The state of a decider is its cache of allows, its cache
  of exchanged tokens and its table; the clock is an argument, in nanoseconds.
\<close>

subsection \<open>Requests, identities, decisions\<close>

record request =
  rq_host :: string
  rq_path :: string
  rq_authorization :: string
  rq_idToken :: string
  rq_cookie :: string

record identity =
  i_subject :: string
  i_realm :: string
  i_session :: string
  i_email :: string
  i_name :: string

record decision =
  d_allow :: bool
  d_status :: nat
  d_reason :: string
  d_headers :: "(string, string) gomap"
  d_removeHeaders :: "string list"
  d_browser :: bool
  d_redirect :: string
  d_subject :: string
  d_relation :: string
  d_object :: string
  d_cached :: bool

definition decision0 :: decision where
  "decision0 = \<lparr>d_allow = False, d_status = 0, d_reason = [], d_headers = [], d_removeHeaders = [], d_browser = False,
     d_redirect = [], d_subject = [], d_relation = [], d_object = [], d_cached = False\<rparr>"

record 'e outside =
  verify :: "string \<Rightarrow> string + identity"
  verifyIDToken :: "string \<Rightarrow> string \<Rightarrow> string + identity"
  storeCheck :: "string \<Rightarrow> string \<Rightarrow> string \<Rightarrow> 'e + bool"
  exchanger :: "(string \<Rightarrow> string \<Rightarrow> string \<Rightarrow> string + string \<times> int) option"
  unicodeLower :: "string \<Rightarrow> string"
  errorText :: "id_err \<Rightarrow> string"

subsection \<open>The cache of allows\<close>

type_synonym cache = "(string, identity \<times> int) gomap"

definition cacheKey :: "string \<Rightarrow> string \<Rightarrow> string \<Rightarrow> string" where
  "cacheKey sub sid host = sub @ [CHR 0x00] @ sid @ [CHR 0x00] @ host"

definition cache_get :: "int \<Rightarrow> cache \<Rightarrow> string \<Rightarrow> string \<Rightarrow> string \<Rightarrow> identity option" where
  "cache_get now c sub sid host =
     (case map_of c (cacheKey sub sid host) of
        None \<Rightarrow> None
      | Some (who, expires) \<Rightarrow> if now < expires then Some who else None)"

definition cache_put :: "int \<Rightarrow> int \<Rightarrow> cache \<Rightarrow> string \<Rightarrow> string \<Rightarrow> string \<Rightarrow> identity \<Rightarrow> cache" where
  "cache_put ttl now c sub sid host who = AList.update (cacheKey sub sid host) (who, now + ttl) c"

definition evictAll :: "cache \<Rightarrow> nat \<times> cache" where
  "evictAll c = (length c, [])"

subsection \<open>The cache of exchanged tokens\<close>

type_synonym exchange_cache = "(string, string \<times> int) gomap"

definition exchangeMargin :: int where
  "exchangeMargin = 30 * 10 ^ 9"

definition exchangeKey :: "identity \<Rightarrow> string \<Rightarrow> string" where
  "exchangeKey who scope = i_realm who @ [CHR 0x00] @ i_subject who @ [CHR 0x00] @ i_session who @ [CHR 0x00] @ scope"

definition exchange_token ::
  "(string \<Rightarrow> string \<Rightarrow> string \<Rightarrow> string + string \<times> int) option \<Rightarrow> int \<Rightarrow> exchange_cache \<Rightarrow>
   identity \<Rightarrow> string \<Rightarrow> string \<Rightarrow> (string + string) \<times> exchange_cache" where
  "exchange_token ex now c who subjectToken scope =
     (case ex of
        None \<Rightarrow> (Inl ''no token exchange is configured'', c)
      | Some exchange \<Rightarrow>
          (let k = exchangeKey who scope;
               held = (case map_of c k of
                         Some (token, expires) \<Rightarrow> if now + exchangeMargin < expires then Some token else None
                       | None \<Rightarrow> None) in
           case held of
             Some token \<Rightarrow> (Inr token, c)
           | None \<Rightarrow>
               (case exchange (i_realm who) subjectToken scope of
                  Inl e \<Rightarrow> (Inl e, c)
                | Inr (token, expires) \<Rightarrow>
                    (Inr token, AList.update k (token, expires) (filter (\<lambda>(k, t, ex). now < ex) c)))))"

subsection \<open>Headers\<close>

definition HeaderSubject :: string where "HeaderSubject = ''x-gentian-subject''"
definition HeaderRealm :: string where "HeaderRealm = ''x-gentian-realm''"
definition HeaderSession :: string where "HeaderSession = ''x-gentian-session''"
definition HeaderEmail :: string where "HeaderEmail = ''x-gentian-email''"
definition HeaderName :: string where "HeaderName = ''x-gentian-name''"
definition HeaderIDToken :: string where "HeaderIDToken = ''x-gentian-id-token''"
definition HeaderCookie :: string where "HeaderCookie = ''cookie''"
definition LogoutPath :: string where "LogoutPath = ''/oauth2/logout''"
definition SignOutPath :: string where "SignOutPath = ''/oauth2/sign-out''"

definition IdentityHeaders :: "string list" where
  "IdentityHeaders = [HeaderSubject, HeaderRealm, HeaderSession, HeaderEmail, HeaderName, HeaderIDToken]"

definition isIdentityHeader :: "string \<Rightarrow> bool" where
  "isIdentityHeader name \<longleftrightarrow> list_ex (\<lambda>h. h = name) IdentityHeaders"

lemmas header_defs = HeaderSubject_def HeaderRealm_def HeaderSession_def HeaderEmail_def HeaderName_def
  HeaderIDToken_def HeaderCookie_def

subsection \<open>The parts of a decision\<close>

definition bearer :: "string \<Rightarrow> string" where
  "bearer h = (if length h > 7 \<and> EqualFold (take 7 h) ''bearer '' then TrimSpace (drop 7 h) else [])"

definition deny :: "nat \<Rightarrow> string \<Rightarrow> decision" where
  "deny status reason = decision0\<lparr>d_status := status, d_reason := reason\<rparr>"

definition browserRefusal :: "route \<Rightarrow> decision \<Rightarrow> decision" where
  "browserRefusal route dec = (if rt_authMode route = AuthModeOIDC then dec\<lparr>d_browser := True\<rparr> else dec)"

definition about :: "route \<Rightarrow> string \<Rightarrow> decision \<Rightarrow> decision" where
  "about route subject dec =
     dec\<lparr>d_subject := subject, d_relation := rt_relation route, d_object := rt_object route\<rparr>"

definition allow :: "route \<Rightarrow> request \<Rightarrow> identity \<Rightarrow> decision" where
  "allow route req who =
     (let headers = [(HeaderSubject, i_subject who), (HeaderRealm, i_realm who), (HeaderSession, i_session who),
                     (HeaderEmail, i_email who), (HeaderName, i_name who)];
          remove = [HeaderIDToken] @
            (if \<not> rt_forwardToken route \<and> \<not> rt_keepClientToken route then [''authorization''] else []);
          (rest, changed) = withoutSessionCookies route (rq_cookie req) in
      if rt_authMode route = AuthModeOIDC \<and> changed then
        (if Trim rest [CHR '';'', CHR '' '', CHR 0x09] = []
         then decision0\<lparr>d_allow := True, d_headers := headers, d_removeHeaders := remove @ [HeaderCookie]\<rparr>
         else decision0\<lparr>d_allow := True, d_headers := AList.update HeaderCookie rest headers, d_removeHeaders := remove\<rparr>)
      else decision0\<lparr>d_allow := True, d_headers := headers, d_removeHeaders := remove\<rparr>)"

definition session :: "'e outside \<Rightarrow> route \<Rightarrow> request \<Rightarrow> string + identity" where
  "session out route req =
     (if rt_authMode route = AuthModeOIDC \<and> (rt_keepClientToken route \<or> rt_idTokenSession route) then
        (if rt_idTokenAudience route = [] then Inl ''route names no client to hold its session against''
         else if rq_idToken req = [] then Inl ''no session token''
         else
           (case verifyIDToken out (rq_idToken req) (rt_idTokenAudience route) of
              Inl e \<Rightarrow> Inl (''session token refused: '' @ e)
            | Inr who \<Rightarrow> Inr who))
      else
        (let raw = bearer (rq_authorization req) in
         if raw = [] then Inl ''no token''
         else (case verify out raw of Inl e \<Rightarrow> Inl (''token refused: '' @ e) | Inr who \<Rightarrow> Inr who)))"

definition finish ::
  "'e outside \<Rightarrow> int \<Rightarrow> exchange_cache \<Rightarrow> route \<Rightarrow> request \<Rightarrow> identity \<Rightarrow> decision \<times> exchange_cache" where
  "finish out now xc route req who =
     (let dec = allow route req who in
      if rt_exchangeScope route = [] then (dec, xc)
      else
        (case exchange_token (exchanger out) now xc who (bearer (rq_authorization req)) (rt_exchangeScope route) of
           (Inl e, xc') \<Rightarrow> (deny 503 ''the app's token could not be obtained'', xc')
         | (Inr token, xc') \<Rightarrow>
             (let remove = filter (\<lambda>h. h \<noteq> ''authorization'') (d_removeHeaders dec) @
                    map fst (filter (\<lambda>(name, v). isIdentityHeader name) (d_headers dec));
                  headers = foldl (\<lambda>m (name, v). AList.update name v m) [(''authorization'', ''Bearer '' @ token)]
                    (filter (\<lambda>(name, v). \<not> isIdentityHeader name) (d_headers dec)) in
              (dec\<lparr>d_headers := headers, d_removeHeaders := sort remove\<rparr>, xc'))))"

subsection \<open>The decider\<close>

record decider =
  dc_cache :: cache
  dc_exchange :: exchange_cache
  dc_ttl :: int
  dc_table :: "route list option"

definition decide :: "'e outside \<Rightarrow> int \<Rightarrow> decider \<Rightarrow> request \<Rightarrow> decision \<times> decider" where
  "decide out now d req =
     (case (case dc_table d of None \<Rightarrow> None | Some routes \<Rightarrow> Match (unicodeLower out) routes (rq_host req)) of
        None \<Rightarrow> (deny 403 (''no route class for host '' @ rq_host req), d)
      | Some route \<Rightarrow>
          if rt_authMode route = AuthModeOIDC \<and> pathOnly (rq_path req) = SignOutPath
            then (decision0\<lparr>d_status := 302, d_redirect := LogoutPath, d_reason := ''sign out''\<rparr>, d)
          else if Denies route (rq_path req)
            then (about route [] (deny 403 (''path is not published on '' @ rq_host req)), d)
          else
            (case session out route req of
               Inl e \<Rightarrow> (about route [] (browserRefusal route (deny 401 e)), d)
             | Inr who \<Rightarrow>
                 if i_session who = []
                   then (about route (i_subject who) (browserRefusal route (deny 401 ''token names no session'')), d)
                 else
                   (case cache_get now (dc_cache d) (i_subject who) (i_session who) (rt_host route) of
                      Some cached \<Rightarrow>
                        (let (dec, xc) = finish out now (dc_exchange d) route req cached in
                         ((about route (i_subject who) dec)\<lparr>d_cached := True\<rparr>, d\<lparr>dc_exchange := xc\<rparr>))
                    | None \<Rightarrow>
                        (case User (i_subject who) of
                           Inl e \<Rightarrow> (about route (i_subject who) (deny 401 (errorText out e)), d)
                         | Inr user \<Rightarrow>
                             (let holder = (case HolderUser (i_realm who) (i_subject who) of Inl e \<Rightarrow> [] | Inr h \<Rightarrow> h) in
                              case CheckAs (storeCheck out) user holder (rt_relation route) (rt_object route) of
                                Inl e \<Rightarrow> (about route (i_subject who) (deny 503 ''authorization store unreachable''), d)
                              | Inr False \<Rightarrow>
                                  (let reason = ''not '' @ rt_relation route @ '' on '' @ rt_object route in
                                   if rt_deniedRedirect route \<noteq> [] \<and> rt_authMode route = AuthModeOIDC
                                   then (about route (i_subject who)
                                     (decision0\<lparr>d_status := 302, d_redirect := rt_deniedRedirect route, d_reason := reason\<rparr>), d)
                                   else (about route (i_subject who) (browserRefusal route (deny 403 reason)), d))
                              | Inr True \<Rightarrow>
                                  (let c = cache_put (dc_ttl d) now (dc_cache d) (i_subject who) (i_session who) (rt_host route) who;
                                       (dec, xc) = finish out now (dc_exchange d) route req who in
                                   (about route (i_subject who) dec, d\<lparr>dc_cache := c, dc_exchange := xc\<rparr>)))))))"

definition reasonOf :: "decision \<Rightarrow> string" where
  "reasonOf dec =
     (if d_allow dec then ''allowed''
      else if d_redirect dec = LogoutPath then ''sign-out''
      else if d_redirect dec \<noteq> [] then ''refused''
      else if d_status dec = 401 then ''unauthenticated''
      else if d_status dec = 503 then ''unavailable''
      else ''refused'')"

definition SetTable :: "route list option \<Rightarrow> decider \<Rightarrow> decider" where
  "SetTable t d = d\<lparr>dc_table := t\<rparr>"

definition Evict :: "decider \<Rightarrow> nat \<times> decider" where
  "Evict d = (let (n, c) = evictAll (dc_cache d) in (n, d\<lparr>dc_cache := c\<rparr>))"

definition New :: "int \<Rightarrow> route list option \<Rightarrow> decider" where
  "New ttl t = \<lparr>dc_cache = [], dc_exchange = [], dc_ttl = (if ttl \<le> 0 then 5 * 60 * 10 ^ 9 else ttl), dc_table = t\<rparr>"

subsection \<open>Lemmas\<close>

lemma deny_refuses [simp]: "\<not> d_allow (deny s r)"
  by (simp add: deny_def decision0_def)

lemma about_simps [simp]:
  "d_allow (about r s dec) = d_allow dec" "d_headers (about r s dec) = d_headers dec"
  "d_removeHeaders (about r s dec) = d_removeHeaders dec" "d_cached (about r s dec) = d_cached dec"
  by (simp_all add: about_def)

lemma browserRefusal_allow [simp]: "d_allow (browserRefusal r dec) = d_allow dec"
  by (simp add: browserRefusal_def)

lemma CheckAs_True:
  "CheckAs check user holder rel object = Inr True \<Longrightarrow>
   check user rel object = Inr True \<or> (holder \<noteq> [] \<and> check holder rel object = Inr True)"
  by (auto simp: CheckAs_def split: sum.splits if_splits)

text \<open>The two ways a request is let through, and what a decision then is.\<close>

lemma decide_allowE:
  assumes "decide out now d req = (dec, d')" "d_allow dec"
  obtains (cached) routes route who c xc where
      "dc_table d = Some routes" "Match (unicodeLower out) routes (rq_host req) = Some route"
      "\<not> Denies route (rq_path req)" "session out route req = Inr who" "i_session who \<noteq> []"
      "cache_get now (dc_cache d) (i_subject who) (i_session who) (rt_host route) = Some c"
      "dec = (about route (i_subject who) (fst (finish out now (dc_exchange d) route req c)))\<lparr>d_cached := True\<rparr>"
      "d' = d\<lparr>dc_exchange := xc\<rparr>"
    | (asked) routes route who user holder xc where
      "dc_table d = Some routes" "Match (unicodeLower out) routes (rq_host req) = Some route"
      "\<not> Denies route (rq_path req)" "session out route req = Inr who" "i_session who \<noteq> []"
      "User (i_subject who) = Inr user"
      "holder = (case HolderUser (i_realm who) (i_subject who) of Inl e \<Rightarrow> [] | Inr h \<Rightarrow> h)"
      "CheckAs (storeCheck out) user holder (rt_relation route) (rt_object route) = Inr True"
      "dec = about route (i_subject who) (fst (finish out now (dc_exchange d) route req who))"
      "d' = d\<lparr>dc_cache := cache_put (dc_ttl d) now (dc_cache d) (i_subject who) (i_session who) (rt_host route) who,
              dc_exchange := xc\<rparr>"
proof -
  obtain routes where t: "dc_table d = Some routes"
    using assms by (cases "dc_table d") (auto simp: decide_def)
  obtain route where m: "Match (unicodeLower out) routes (rq_host req) = Some route"
    using assms t by (cases "Match (unicodeLower out) routes (rq_host req)") (auto simp: decide_def)
  have nd: "\<not> Denies route (rq_path req)" and ns: "\<not> (rt_authMode route = AuthModeOIDC \<and> pathOnly (rq_path req) = SignOutPath)"
    using assms t m by (auto simp: decide_def decision0_def split: if_splits)
  obtain who where w: "session out route req = Inr who"
    using assms t m nd ns by (cases "session out route req") (auto simp: decide_def)
  have i: "i_session who \<noteq> []" using assms t m nd ns w by (auto simp: decide_def)
  note dec = assms(1) [unfolded decide_def t m option.case w sum.case if_not_P [OF ns] if_not_P [OF nd] if_not_P [OF i]]
  show ?thesis
  proof (cases "cache_get now (dc_cache d) (i_subject who) (i_session who) (rt_host route)")
    case (Some c)
    obtain f xc where "finish out now (dc_exchange d) route req c = (f, xc)" by fastforce
    with dec Some show ?thesis by (intro cached [OF t m nd w i Some]) auto
  next
    case None
    obtain user where u: "User (i_subject who) = Inr user"
      using dec None assms(2) by (cases "User (i_subject who)") auto
    let ?h = "case HolderUser (i_realm who) (i_subject who) of Inl e \<Rightarrow> [] | Inr h \<Rightarrow> h"
    have c: "CheckAs (storeCheck out) user ?h (rt_relation route) (rt_object route) = Inr True"
      using dec None u assms(2)
      by (cases "CheckAs (storeCheck out) user ?h (rt_relation route) (rt_object route)")
        (auto simp: Let_def decision0_def split: bool.splits if_splits)
    obtain f xc where "finish out now (dc_exchange d) route req who = (f, xc)" by fastforce
    with dec None u c show ?thesis by (intro asked [OF t m nd w i u refl c]) (auto simp: Let_def)
  qed
qed

text \<open>What a backend receives under a header's name, given what the client sent.\<close>

definition backendHeader :: "decision \<Rightarrow> string \<Rightarrow> string option \<Rightarrow> string option" where
  "backendHeader dec name client =
     (case map_of (d_headers dec) name of
        Some v \<Rightarrow> Some v
      | None \<Rightarrow> if name \<in> set (d_removeHeaders dec) then None else client)"

lemma headers_distinct:
  "distinct [HeaderSubject, HeaderRealm, HeaderSession, HeaderEmail, HeaderName, HeaderIDToken, HeaderCookie, ''authorization'']"
  by (simp add: header_defs)

lemma IdentityHeaders_other: "HeaderCookie \<notin> set IdentityHeaders" "''authorization'' \<notin> set IdentityHeaders"
  by (simp_all add: IdentityHeaders_def header_defs)

lemma isIdentityHeader_iff: "isIdentityHeader h \<longleftrightarrow> h \<in> set IdentityHeaders"
  by (auto simp: isIdentityHeader_def list_ex_iff)

lemma allow_allows [simp]: "d_allow (allow route req who)"
  by (simp add: allow_def Let_def split_beta)

lemma allow_keys:
  "fst ` set (d_headers (allow route req who)) \<union> set (d_removeHeaders (allow route req who)) \<supseteq> set IdentityHeaders"
  "fst ` set (d_headers (allow route req who)) \<subseteq> insert HeaderCookie (set IdentityHeaders)"
  by (auto simp: allow_def Let_def split_beta IdentityHeaders_def dom_update)

lemma allow_authorization:
  "''authorization'' \<in> set (d_removeHeaders (allow route req who)) \<longleftrightarrow> \<not> rt_forwardToken route \<and> \<not> rt_keepClientToken route"
  using headers_distinct by (auto simp: allow_def Let_def split_beta)

lemma foldl_update_keys:
  "fst ` set (foldl (\<lambda>m (name, v). AList.update name v m) m kvs) = fst ` set m \<union> fst ` set kvs"
  by (induction kvs arbitrary: m) (auto simp: dom_update split_beta)

lemma foldl_update_other:
  "k \<notin> fst ` set kvs \<Longrightarrow> map_of (foldl (\<lambda>m (name, v). AList.update name v m) m kvs) k = map_of m k"
  by (induction kvs arbitrary: m) (auto simp: split_beta update_conv)

text \<open>A finished decision that lets the request through.\<close>

lemma finish_plain: "rt_exchangeScope route = [] \<Longrightarrow> finish out now xc route req who = (allow route req who, xc)"
  by (simp add: finish_def Let_def)

lemma finish_exchange:
  assumes "rt_exchangeScope route \<noteq> []" "d_allow (fst (finish out now xc route req who))"
  obtains token where
    "fst (exchange_token (exchanger out) now xc who (bearer (rq_authorization req)) (rt_exchangeScope route)) = Inr token"
    "map_of (d_headers (fst (finish out now xc route req who))) ''authorization'' = Some (''Bearer '' @ token)"
    "set IdentityHeaders \<subseteq> set (d_removeHeaders (fst (finish out now xc route req who)))"
    "fst ` set (d_headers (fst (finish out now xc route req who))) \<inter> set IdentityHeaders = {}"
proof -
  let ?dec = "allow route req who"
  let ?f = "filter (\<lambda>(name, v). \<not> isIdentityHeader name) (d_headers ?dec)"
  obtain token xc' where t: "exchange_token (exchanger out) now xc who (bearer (rq_authorization req)) (rt_exchangeScope route) = (Inr token, xc')"
    using assms by (auto simp: finish_def Let_def split: prod.splits sum.splits)
  have f: "fst (finish out now xc route req who) = ?dec\<lparr>
      d_headers := foldl (\<lambda>m (name, v). AList.update name v m) [(''authorization'', ''Bearer '' @ token)] ?f,
      d_removeHeaders := sort (filter (\<lambda>h. h \<noteq> ''authorization'') (d_removeHeaders ?dec) @
        map fst (filter (\<lambda>(name, v). isIdentityHeader name) (d_headers ?dec)))\<rparr>"
    using assms(1) t by (simp add: finish_def Let_def)
  have "''authorization'' \<notin> fst ` set ?f"
    using allow_keys(2) [of route req who] IdentityHeaders_other(2) headers_distinct by auto
  then have a: "map_of (d_headers (fst (finish out now xc route req who))) ''authorization'' = Some (''Bearer '' @ token)"
    unfolding f by (simp add: foldl_update_other)
  have "h \<in> set (filter (\<lambda>h. h \<noteq> ''authorization'') (d_removeHeaders ?dec) @
      map fst (filter (\<lambda>(name, v). isIdentityHeader name) (d_headers ?dec)))" if "h \<in> set IdentityHeaders" for h
    using allow_keys(1) [of route req who] that IdentityHeaders_other(2) by (force simp: isIdentityHeader_iff)
  then have r: "set IdentityHeaders \<subseteq> set (d_removeHeaders (fst (finish out now xc route req who)))"
    unfolding f by auto
  have "fst ` set (d_headers (fst (finish out now xc route req who))) \<inter> set IdentityHeaders = {}"
    unfolding f using IdentityHeaders_other(2) by (auto simp: foldl_update_keys isIdentityHeader_iff)
  with a r t show thesis by (intro that) simp_all
qed

lemma finish_identity_headers:
  assumes "d_allow (fst (finish out now xc route req who))" "h \<in> set IdentityHeaders"
  shows "h \<in> set (d_removeHeaders (fst (finish out now xc route req who))) \<or>
    h \<in> fst ` set (d_headers (fst (finish out now xc route req who)))"
proof (cases "rt_exchangeScope route = []")
  case True
  then show ?thesis using allow_keys(1) [of route req who] assms(2) by (auto simp: finish_plain)
next
  case False
  from finish_exchange [OF False assms(1)] show ?thesis using assms(2) by blast
qed

lemma finish_authorization:
  assumes "d_allow (fst (finish out now xc route req who))" "\<not> rt_forwardToken route" "\<not> rt_keepClientToken route"
    and "backendHeader (fst (finish out now xc route req who)) ''authorization'' client = Some v"
  shows "rt_exchangeScope route \<noteq> [] \<and> (\<exists>token. v = ''Bearer '' @ token \<and>
    fst (exchange_token (exchanger out) now xc who (bearer (rq_authorization req)) (rt_exchangeScope route)) = Inr token)"
proof (cases "rt_exchangeScope route = []")
  case True
  have "''authorization'' \<notin> fst ` set (d_headers (allow route req who))"
    using allow_keys(2) [of route req who] IdentityHeaders_other(2) headers_distinct by auto
  then have "map_of (d_headers (allow route req who)) ''authorization'' = None" by (simp add: map_of_eq_None_iff)
  then show ?thesis
    using True allow_authorization [of route req who] assms by (simp add: finish_plain backendHeader_def)
next
  case False
  then obtain token where
    "fst (exchange_token (exchanger out) now xc who (bearer (rq_authorization req)) (rt_exchangeScope route)) = Inr token"
    "map_of (d_headers (fst (finish out now xc route req who))) ''authorization'' = Some (''Bearer '' @ token)"
    by (rule finish_exchange [OF _ assms(1)])
  with False assms(4) show ?thesis by (intro conjI exI [of _ token]) (simp_all add: backendHeader_def)
qed

subsection \<open>Properties\<close>

text \<open>
  C19. Fail closed. A request is let through only on a route of the table, on a path the route does
  not deny, with a token this service verified that names a session, and only where the
  store answered yes for the account or, in the realm of its token, for the role holder; or,
  marked as such, where an allow for the same subject, session and host is cached and has
  not run out. A store that fails therefore lets nothing through that is not cached.
\<close>

theorem decide_fails_closed:
  assumes "decide out now d req = (dec, d')" "d_allow dec"
  shows "\<exists>routes route who. dc_table d = Some routes \<and> Match (unicodeLower out) routes (rq_host req) = Some route \<and>
    \<not> Denies route (rq_path req) \<and> session out route req = Inr who \<and> i_session who \<noteq> [] \<and>
    (if d_cached dec
     then cache_get now (dc_cache d) (i_subject who) (i_session who) (rt_host route) \<noteq> None
     else \<exists>user. User (i_subject who) = Inr user \<and>
        (storeCheck out user (rt_relation route) (rt_object route) = Inr True \<or>
         (\<exists>h. HolderUser (i_realm who) (i_subject who) = Inr h \<and>
              storeCheck out h (rt_relation route) (rt_object route) = Inr True)))"
  using assms
proof (cases rule: decide_allowE)
  case (cached routes route who c xc)
  then show ?thesis by (intro exI [of _ routes] exI [of _ route] exI [of _ who]) simp
next
  case (asked routes route who user holder xc)
  have "d_cached (fst (finish out now (dc_exchange d) route req who)) = False"
    by (auto simp: finish_def allow_def deny_def decision0_def Let_def split: prod.splits sum.splits)
  moreover have "storeCheck out user (rt_relation route) (rt_object route) = Inr True \<or>
      (\<exists>h. HolderUser (i_realm who) (i_subject who) = Inr h \<and> storeCheck out h (rt_relation route) (rt_object route) = Inr True)"
    using CheckAs_True [OF asked(8)] asked(7) by (auto split: sum.splits)
  ultimately show ?thesis
    using asked by (intro exI [of _ routes] exI [of _ route] exI [of _ who]) simp
qed

definition sampleWho :: identity where
  "sampleWho = \<lparr>i_subject = ''u1'', i_realm = ''acme'', i_session = ''s1'', i_email = ''u@acme.example'', i_name = ''U''\<rparr>"

definition sampleOutside :: "unit outside" where
  "sampleOutside = \<lparr>verify = (\<lambda>t. if t = ''tok'' then Inr sampleWho else Inl ''bad''), verifyIDToken = (\<lambda>t a. Inl ''bad''),
     storeCheck = (\<lambda>u r ob. Inr (u = ''user:u1'')), exchanger = None, unicodeLower = (\<lambda>s. s), errorText = (\<lambda>e. [])\<rparr>"

definition sampleDecider :: decider where
  "sampleDecider = New 0 (Some [sampleRoute\<lparr>rt_host := ''desk.acme.example'', rt_denyPaths := [''/admin'']\<rparr>])"

definition sampleRequest :: request where
  "sampleRequest = \<lparr>rq_host = ''Desk.acme.example'', rq_path = ''/home?x'', rq_authorization = ''Bearer tok'', rq_idToken = [],
     rq_cookie = ''gentian-at=x; lang=de''\<rparr>"

lemma sample_allowed: "d_allow (fst (decide sampleOutside 0 sampleDecider sampleRequest))"
  by code_simp

theorem decide_fails_closed_witness:
  "d_allow (fst (decide sampleOutside 0 sampleDecider sampleRequest)) \<and>
   (\<exists>routes. dc_table sampleDecider = Some routes \<and> (\<exists>route. Match (\<lambda>s. s) routes ''Desk.acme.example'' = Some route))"
  using decide_fails_closed [of sampleOutside 0 sampleDecider sampleRequest "fst (decide sampleOutside 0 sampleDecider sampleRequest)"
      "snd (decide sampleOutside 0 sampleDecider sampleRequest)"] sample_allowed
  by (auto simp: sampleOutside_def sampleRequest_def)

text \<open>
  C20. What a client cannot say. On a request that is let through, no identity header reaches the
  backend as the client sent it, and, unless the route forwards its token or leaves the caller's own
  alone, the Authorization header is removed, or is the token exchanged for the app.
\<close>

theorem client_cannot_forge_identity:
  assumes "decide out now d req = (dec, d')" "d_allow dec"
  shows "\<exists>routes route. dc_table d = Some routes \<and> Match (unicodeLower out) routes (rq_host req) = Some route \<and>
    (\<forall>h \<in> set IdentityHeaders. \<forall>c c'. backendHeader dec h c = backendHeader dec h c') \<and>
    (\<not> rt_forwardToken route \<and> \<not> rt_keepClientToken route \<longrightarrow>
       (\<forall>c v. backendHeader dec ''authorization'' c = Some v \<longrightarrow>
          rt_exchangeScope route \<noteq> [] \<and> (\<exists>token who. v = ''Bearer '' @ token \<and>
            fst (exchange_token (exchanger out) now (dc_exchange d) who (bearer (rq_authorization req)) (rt_exchangeScope route)) = Inr token)))"
proof -
  have core: "(\<forall>h \<in> set IdentityHeaders. \<forall>c c'. backendHeader x h c = backendHeader x h c') \<and>
    (\<not> rt_forwardToken route \<and> \<not> rt_keepClientToken route \<longrightarrow>
       (\<forall>c v. backendHeader x ''authorization'' c = Some v \<longrightarrow>
          rt_exchangeScope route \<noteq> [] \<and> (\<exists>token who. v = ''Bearer '' @ token \<and>
            fst (exchange_token (exchanger out) now (dc_exchange d) who (bearer (rq_authorization req)) (rt_exchangeScope route)) = Inr token)))"
    if "d_allow (fst (finish out now (dc_exchange d) route req who))"
      "d_headers x = d_headers (fst (finish out now (dc_exchange d) route req who))"
      "d_removeHeaders x = d_removeHeaders (fst (finish out now (dc_exchange d) route req who))" for x route who
  proof -
    have b: "backendHeader x = backendHeader (fst (finish out now (dc_exchange d) route req who))"
      by (intro ext) (simp add: backendHeader_def that(2,3))
    have "backendHeader x h c = backendHeader x h c'" if "h \<in> set IdentityHeaders" for h c c'
      using finish_identity_headers [OF \<open>d_allow (fst (finish out now (dc_exchange d) route req who))\<close> that] unfolding b
      by (auto simp: backendHeader_def split: option.split dest: map_of_eq_None_iff [THEN iffD1])
    moreover have "rt_exchangeScope route \<noteq> [] \<and> (\<exists>token who. v = ''Bearer '' @ token \<and>
        fst (exchange_token (exchanger out) now (dc_exchange d) who (bearer (rq_authorization req)) (rt_exchangeScope route)) = Inr token)"
      if "\<not> rt_forwardToken route" "\<not> rt_keepClientToken route" "backendHeader x ''authorization'' c = Some v" for c v
      using finish_authorization [OF \<open>d_allow (fst (finish out now (dc_exchange d) route req who))\<close> that(1,2)] that(3) unfolding b
      by blast
    ultimately show ?thesis by blast
  qed
  from assms show ?thesis
  proof (cases rule: decide_allowE)
    case (cached routes route who c xc)
    have "d_allow (fst (finish out now (dc_exchange d) route req c))" using assms(2) cached(7) by simp
    from core [OF this, of dec] cached show ?thesis by (intro exI [of _ routes] exI [of _ route] conjI) simp_all
  next
    case (asked routes route who user holder xc)
    have "d_allow (fst (finish out now (dc_exchange d) route req who))" using assms(2) asked(9) by simp
    from core [OF this, of dec] asked show ?thesis by (intro exI [of _ routes] exI [of _ route] conjI) simp_all
  qed
qed

theorem client_cannot_forge_identity_witness:
  "\<forall>c c'.
     backendHeader (fst (decide sampleOutside 0 sampleDecider sampleRequest)) HeaderSubject c =
     backendHeader (fst (decide sampleOutside 0 sampleDecider sampleRequest)) HeaderSubject c'"
proof -
  have "HeaderSubject \<in> set IdentityHeaders" by (simp add: IdentityHeaders_def)
  then show ?thesis
    using client_cannot_forge_identity [of sampleOutside 0 sampleDecider sampleRequest
        "fst (decide sampleOutside 0 sampleDecider sampleRequest)" "snd (decide sampleOutside 0 sampleDecider sampleRequest)"]
      sample_allowed
    by auto
qed

text \<open>
  How long an exchanged token is handed on: a token is one the realm just gave for this person's
  realm, the session's token and the one scope, or one it gave before that is still valid for
  more than the margin; and after an exchange no entry that has run out is kept.
\<close>

theorem exchanged_token_is_live:
  assumes "exchange_token ex now c who subj scope = (Inr token, c')"
  shows "\<exists>exchange expires. ex = Some exchange \<and>
    (now + exchangeMargin < expires \<and> map_of c (exchangeKey who scope) = Some (token, expires) \<and> c' = c \<or>
     exchange (i_realm who) subj scope = Inr (token, expires) \<and> map_of c' (exchangeKey who scope) = Some (token, expires) \<and>
     (\<forall>k t e. k \<noteq> exchangeKey who scope \<and> (k, t, e) \<in> set c' \<longrightarrow> now < e))"
proof -
  obtain exchange where ex: "ex = Some exchange" using assms by (auto simp: exchange_token_def split: option.splits)
  consider expires where "map_of c (exchangeKey who scope) = Some (token, expires)" "now + exchangeMargin < expires" "c' = c"
    | expires where "exchange (i_realm who) subj scope = Inr (token, expires)"
        "c' = AList.update (exchangeKey who scope) (token, expires) (filter (\<lambda>(k, t, ex). now < ex) c)"
  proof (cases "\<exists>t e. map_of c (exchangeKey who scope) = Some (t, e) \<and> now + exchangeMargin < e")
    case True
    then obtain t e where m: "map_of c (exchangeKey who scope) = Some (t, e)" "now + exchangeMargin < e" by blast
    have "exchange_token ex now c who subj scope = (Inr t, c)"
      by (simp only: exchange_token_def ex m option.case prod.case Let_def if_True)
    with assms have "t = token" "c' = c" by simp_all
    with m show ?thesis by (intro that(1)) simp_all
  next
    case False
    then have "(case map_of c (exchangeKey who scope) of
        Some (token, expires) \<Rightarrow> if now + exchangeMargin < expires then Some token else None | None \<Rightarrow> None) = None"
      by (simp split: option.split)
    then have x: "exchange_token ex now c who subj scope = (case exchange (i_realm who) subj scope of
        Inl e \<Rightarrow> (Inl e, c)
      | Inr (token, expires) \<Rightarrow> (Inr token, AList.update (exchangeKey who scope) (token, expires) (filter (\<lambda>(k, t, ex). now < ex) c)))"
      by (simp only: exchange_token_def ex option.case Let_def)
    from assms show ?thesis
      using that(2) unfolding x by (simp split: sum.splits prod.splits)
  qed
  then show ?thesis
  proof cases
    case 1
    then show ?thesis using ex by blast
  next
    case 2
    have "(k, v) \<in> set (AList.update a b m) \<Longrightarrow> k \<noteq> a \<Longrightarrow> (k, v) \<in> set m" for k a :: string and v b and m :: exchange_cache
      by (induction m) (auto split: if_splits)
    then have "now < e" if "k \<noteq> exchangeKey who scope" "(k, t, e) \<in> set c'" for k t e
      using that 2(2) by fastforce
    with 2 ex show ?thesis by (auto simp: update_conv)
  qed
qed

theorem exchanged_token_is_live_witness:
  "\<exists>c'. exchange_token (Some (\<lambda>r t s. Inr (''app-token'', 90))) 10 [(''old'', ''t'', 5)] sampleWho ''tok'' ''app:erp'' = (Inr ''app-token'', c') \<and>
     map_of c' (exchangeKey sampleWho ''app:erp'') = Some (''app-token'', 90)"
proof -
  let ?x = "exchange_token (Some (\<lambda>r t s. Inr (''app-token'', 90))) 10 [(''old'', ''t'', 5)] sampleWho ''tok'' ''app:erp''"
  have x: "?x = (Inr ''app-token'', snd ?x)" by code_simp
  have "map_of [(''old'', ''t'', 5)] (exchangeKey sampleWho ''app:erp'') = (None :: (string \<times> int) option)" by code_simp
  with exchanged_token_is_live [OF x] x show ?thesis by auto
qed

end
