(* ===== verification/Component_Keys.thy ===== *)
theory Component_Keys
  imports Go_Prelude
begin

section \<open>Keys of components\<close>

text \<open>
  Package \<open>internal/componentkeys\<close>: the lists by which a service recognizes a component from the
  key it presents. A list holds the hash of each key; \<open>Check\<close> refuses a list two entries of
  which share one, \<open>Find\<close> looks a key up and \<open>Follow\<close> keeps the list equal to a mounted file.
  The digest is an argument: what is shown holds for any hash function.
\<close>

subsection \<open>Entries\<close>

record component_key =
  k_tenant :: string
  k_component :: string
  k_hash :: string

record commission = component_key +
  co_tenants :: "string list"

definition hex_digit :: "nat \<Rightarrow> char" where
  "hex_digit n = (if n < 10 then char_of (48 + n) else char_of (87 + n))"

definition EncodeToString :: "string \<Rightarrow> string" where
  "EncodeToString bs = concat (map (\<lambda>b. let n = of_char b :: nat in [hex_digit (n div 16), hex_digit (n mod 16)]) bs)"

definition Hash :: "(string \<Rightarrow> string) \<Rightarrow> string \<Rightarrow> string" where
  "Hash sum256 k = EncodeToString (sum256 k)"

text \<open>The pattern \<open>^[0-9a-f]{64}$\<close>.\<close>

definition is_hex :: "char \<Rightarrow> bool" where
  "is_hex x \<longleftrightarrow> is_digit x \<or> x \<in> set ''abcdef''"

definition hashPattern :: "string \<Rightarrow> bool" where
  "hashPattern s \<longleftrightarrow> length s = 64 \<and> list_all is_hex s"

subsection \<open>Checking a list and finding a key in it\<close>

datatype 'x key_err =
    NeedsTenantAndComponent nat
  | NeedsKeyHash nat
  | SharesKey nat
  | ExtraRefusal 'x

text \<open>
  \<open>keyOf\<close> is the key an entry embeds, \<open>extra\<close> what else is asked of an entry.
\<close>

fun Check_loop ::
  "('k \<Rightarrow> component_key) \<Rightarrow> (nat \<Rightarrow> 'k \<Rightarrow> 'x option) \<Rightarrow> nat \<Rightarrow> string list \<Rightarrow> 'k list \<Rightarrow> 'x key_err option" where
  "Check_loop keyOf extra i seen [] = None"
| "Check_loop keyOf extra i seen (e # es) =
     (let k = keyOf e in
      if TrimSpace (k_tenant k) = [] \<or> TrimSpace (k_component k) = [] then Some (NeedsTenantAndComponent i)
      else if \<not> hashPattern (k_hash k) then Some (NeedsKeyHash i)
      else
        (case extra i e of
           Some x \<Rightarrow> Some (ExtraRefusal x)
         | None \<Rightarrow>
             if k_hash k \<in> set seen then Some (SharesKey i)
             else Check_loop keyOf extra (i + 1) (k_hash k # seen) es))"

definition Check :: "('k \<Rightarrow> component_key) \<Rightarrow> (nat \<Rightarrow> 'k \<Rightarrow> 'x option) \<Rightarrow> 'k list \<Rightarrow> 'x key_err option" where
  "Check keyOf extra entries = Check_loop keyOf extra 0 [] entries"

text \<open>Every entry is compared; the last one that matches is the answer.\<close>

fun Find_loop :: "('k \<Rightarrow> component_key) \<Rightarrow> string \<Rightarrow> 'k option \<Rightarrow> 'k list \<Rightarrow> 'k option" where
  "Find_loop keyOf got found [] = found"
| "Find_loop keyOf got found (e # es) =
     Find_loop keyOf got (if got = k_hash (keyOf e) then Some e else found) es"

definition Find :: "(string \<Rightarrow> string) \<Rightarrow> ('k \<Rightarrow> component_key) \<Rightarrow> 'k list \<Rightarrow> string \<Rightarrow> 'k option" where
  "Find sum256 keyOf entries k = (if k = [] then None else Find_loop keyOf (Hash sum256 k) None entries)"

subsection \<open>The list a service holds\<close>

text \<open>
  \<open>None\<close> is a list that was never set. \<open>parse\<close> reads the file's bytes as a list of
  entries (\<open>encoding/json\<close>).
\<close>

definition List_Find :: "(string \<Rightarrow> string) \<Rightarrow> ('k \<Rightarrow> component_key) \<Rightarrow> 'k list option \<Rightarrow> string \<Rightarrow> 'k option" where
  "List_Find sum256 keyOf held k = (case held of None \<Rightarrow> None | Some entries \<Rightarrow> Find sum256 keyOf entries k)"

definition List_Len :: "'k list option \<Rightarrow> nat" where
  "List_Len held = (case held of None \<Rightarrow> 0 | Some entries \<Rightarrow> length entries)"

definition Parse :: "('k \<Rightarrow> component_key) \<Rightarrow> (string \<Rightarrow> 'k list option) \<Rightarrow> string \<Rightarrow> 'k list option" where
  "Parse keyOf unmarshal raw =
     (case unmarshal raw of
        None \<Rightarrow> None
      | Some keys \<Rightarrow> (case Check keyOf (\<lambda>i e. None :: unit option) keys of Some e \<Rightarrow> None | None \<Rightarrow> Some keys))"

record 'k followed =
  f_held :: "'k list option"
  f_present :: bool
  f_last :: int

text \<open>
  One \<open>load\<close> of \<open>Follow\<close>: \<open>stat\<close> is the file's modification time where there is a file,
  \<open>content\<close> its bytes where they can be read.
\<close>

definition load ::
  "('k \<Rightarrow> component_key) \<Rightarrow> (string \<Rightarrow> 'k list option) \<Rightarrow> int option \<Rightarrow> string option \<Rightarrow> 'k followed \<Rightarrow> 'k followed" where
  "load keyOf unmarshal stat content l =
     (case stat of
        None \<Rightarrow> if f_present l then \<lparr>f_held = Some [], f_present = False, f_last = 0\<rparr> else l
      | Some modTime \<Rightarrow>
          if f_present l \<and> modTime = f_last l then l
          else
            (case content of
               None \<Rightarrow> l
             | Some raw \<Rightarrow>
                 (case Parse keyOf unmarshal raw of
                    None \<Rightarrow> l
                  | Some entries \<Rightarrow> \<lparr>f_held = Some entries, f_present = True, f_last = modTime\<rparr>)))"

text \<open>A service's lists over time: one \<open>load\<close> at the start and one at each tick.\<close>

inductive follows ::
  "('k \<Rightarrow> component_key) \<Rightarrow> (string \<Rightarrow> 'k list option) \<Rightarrow> 'k followed \<Rightarrow> bool"
  for keyOf unmarshal where
  start: "follows keyOf unmarshal \<lparr>f_held = None, f_present = False, f_last = 0\<rparr>"
| tick: "follows keyOf unmarshal l \<Longrightarrow> follows keyOf unmarshal (load keyOf unmarshal stat content l)"

subsection \<open>Lemmas\<close>

lemma Check_loop_None:
  "Check_loop keyOf extra i seen es = None \<Longrightarrow>
   distinct (map (\<lambda>e. k_hash (keyOf e)) es) \<and> (\<forall>e \<in> set es. k_hash (keyOf e) \<notin> set seen \<and> hashPattern (k_hash (keyOf e)))"
proof (induction keyOf extra i seen es rule: Check_loop.induct)
  case (2 keyOf extra i seen e es)
  then show ?case by (fastforce simp: Let_def split: if_splits option.splits)
qed simp

lemma Find_loop_eq:
  assumes "distinct (map (\<lambda>e. k_hash (keyOf e)) es)"
  shows "Find_loop keyOf got found es = Some e \<longleftrightarrow>
    (e \<in> set es \<and> k_hash (keyOf e) = got) \<or> (found = Some e \<and> got \<notin> (\<lambda>e. k_hash (keyOf e)) ` set es)"
  using assms
proof (induction keyOf got found es rule: Find_loop.induct)
  case (2 keyOf got found x es)
  then show ?case by (cases "got = k_hash (keyOf x)") (auto simp: image_iff)
qed simp

lemma Find_loop_sound: "Find_loop keyOf got found es = Some e \<Longrightarrow> found = Some e \<or> e \<in> set es \<and> k_hash (keyOf e) = got"
  by (induction keyOf got found es rule: Find_loop.induct) (auto split: if_splits)

lemma Find_sound: "Find sum256 keyOf es k = Some e \<Longrightarrow> k \<noteq> [] \<and> e \<in> set es \<and> k_hash (keyOf e) = Hash sum256 k"
  by (auto simp: Find_def dest!: Find_loop_sound split: if_splits)

lemma Check_distinct: "Check keyOf extra es = None \<Longrightarrow> distinct (map (\<lambda>e. k_hash (keyOf e)) es)"
  unfolding Check_def by (drule Check_loop_None) simp

lemma Parse_distinct:
  assumes "Parse keyOf unmarshal raw = Some keys"
  shows "distinct (map (\<lambda>e. k_hash (keyOf e)) keys)"
proof -
  have "Check keyOf (\<lambda>i e. None :: unit option) keys = None"
    using assms by (auto simp: Parse_def split: option.splits)
  then show ?thesis by (rule Check_distinct)
qed

subsection \<open>Properties\<close>

text \<open>
  A list that passes the check is a function of the key: the lookup returns the one
  entry whose hash is that of the key presented, and nothing for a key no entry has, whatever
  the order of the entries.
\<close>

theorem checked_list_finds_the_one_entry:
  assumes "Check keyOf extra entries = None"
  shows "Find sum256 keyOf entries k = Some e \<longleftrightarrow> k \<noteq> [] \<and> e \<in> set entries \<and> k_hash (keyOf e) = Hash sum256 k"
  using Find_loop_eq [OF Check_distinct [OF assms], of "Hash sum256 k" None e] by (simp add: Find_def)

theorem checked_list_finds_the_one_entry_witness:
  "Find (\<lambda>k. replicate 31 (CHR 0x00) @ k) (\<lambda>e. e)
    [\<lparr>k_tenant = ''acme'', k_component = ''bot'', k_hash = replicate 62 (CHR ''0'') @ ''61''\<rparr>] ''a'' =
    Some \<lparr>k_tenant = ''acme'', k_component = ''bot'', k_hash = replicate 62 (CHR ''0'') @ ''61''\<rparr>"
proof -
  have "Check (\<lambda>e. e) (\<lambda>i e. None :: unit option)
      [\<lparr>k_tenant = ''acme'', k_component = ''bot'', k_hash = replicate 62 (CHR ''0'') @ ''61''\<rparr>] = None"
    by code_simp
  moreover have "Hash (\<lambda>k. replicate 31 (CHR 0x00) @ k) ''a'' = replicate 62 (CHR ''0'') @ ''61''" by code_simp
  ultimately show ?thesis by (simp add: checked_list_finds_the_one_entry)
qed

text \<open>
  Whatever the file goes through, the list a service holds is none, or empty, or one the
  check accepts, so a key is never recognized as two components.
\<close>

theorem followed_list_is_checked:
  assumes "follows keyOf unmarshal l"
  shows "case f_held l of None \<Rightarrow> True | Some keys \<Rightarrow> distinct (map (\<lambda>e. k_hash (keyOf e)) keys)"
  using assms
proof induction
  case (tick l stat content)
  then show ?case
    using Parse_distinct [of keyOf unmarshal] by (auto simp: load_def split: option.splits)
qed simp

theorem followed_list_is_checked_witness:
  "case f_held (load (\<lambda>e. e) (\<lambda>raw. Some []) (Some 7) (Some ''{}'')
      \<lparr>f_held = None, f_present = False, f_last = 0\<rparr>) of
     None \<Rightarrow> False | Some keys \<Rightarrow> distinct (map k_hash keys)"
proof -
  have "follows (\<lambda>e. e) (\<lambda>raw. Some []) (load (\<lambda>e. e) (\<lambda>raw. Some []) (Some 7) (Some ''{}'')
      \<lparr>f_held = None, f_present = False, f_last = 0\<rparr>)" by (intro follows.intros)
  from followed_list_is_checked [OF this] show ?thesis
    by (simp add: load_def Parse_def Check_def)
qed

end
