(* ===== verification/Bouncer_Edge.thy ===== *)
theory Bouncer_Edge
  imports Bouncer_Decider Component_Keys
begin

section \<open>The bouncer's services\<close>

text \<open>
  Package \<open>internal/bouncer\<close>: the gRPC answer to the gateway (\<open>grpc.go\<close>), the question a component may
  ask with its key (\<open>check.go\<close>), the exchange of a session's token at the realm (\<open>exchange.go\<close>),
  the poller of the store's changelog (\<open>poller.go\<close>), and the cache of allows under concurrent
  requests and evictions. The answers of the store, the realm and the file system are arguments.
\<close>

subsection \<open>The answer to the gateway\<close>

definition BrandingBase :: "string \<Rightarrow> string" where
  "BrandingBase issuerBase =
     (let base = TrimSuffix (TrimSuffix issuerBase ''/'') ''/auth''; (host, ok) = CutPrefix base ''https://id.'' in
      if \<not> ok \<or> host = [] \<or> ContainsAny host ''/?#'' then [] else ''https://'' @ host @ ''/branding/'')"

datatype grpc_code = OK | PermissionDenied | Unauthenticated | Unavailable

definition grpcCode :: "nat \<Rightarrow> grpc_code" where
  "grpcCode status = (if status = 401 then Unauthenticated else if status = 503 then Unavailable else PermissionDenied)"

record http_attributes =
  ha_path :: string
  ha_host :: string
  ha_headers :: "(string, string) gomap"

datatype check_response =
    OkResponse "(string, string) gomap" "string list"
  | DeniedResponse grpc_code string nat string "(string, string) gomap"

definition headerOf :: "(string, string) gomap \<Rightarrow> string \<Rightarrow> string" where
  "headerOf m k = (case map_of m k of None \<Rightarrow> [] | Some v \<Rightarrow> v)"

definition requestOf :: "http_attributes \<Rightarrow> request" where
  "requestOf h =
     (let host = headerOf (ha_headers h) '':authority'' in
      \<lparr>rq_host = (if host = [] then ha_host h else host), rq_path = ha_path h,
       rq_authorization = headerOf (ha_headers h) ''authorization'',
       rq_idToken = headerOf (ha_headers h) HeaderIDToken, rq_cookie = headerOf (ha_headers h) HeaderCookie\<rparr>)"

text \<open>\<open>statusText\<close> is \<open>http.StatusText\<close>, \<open>page\<close> the refusal page (\<open>deniedPage\<close>).\<close>

definition responseOf :: "(nat \<Rightarrow> string) \<Rightarrow> string \<Rightarrow> decision \<Rightarrow> check_response" where
  "responseOf statusText page dec =
     (if \<not> d_allow dec then
        (if d_redirect dec \<noteq> []
         then DeniedResponse PermissionDenied (d_reason dec) (d_status dec) []
                [(''location'', d_redirect dec), (''cache-control'', ''no-store'')]
         else if d_browser dec
         then DeniedResponse (grpcCode (d_status dec)) (d_reason dec) (d_status dec) page
                [(''content-type'', ''text/html; charset=utf-8'')]
         else DeniedResponse (grpcCode (d_status dec)) (d_reason dec) (d_status dec) (statusText (d_status dec)) [])
      else OkResponse (d_headers dec) (d_removeHeaders dec))"

definition Server_Check ::
  "'e outside \<Rightarrow> (nat \<Rightarrow> string) \<Rightarrow> string \<Rightarrow> int \<Rightarrow> decider \<Rightarrow> http_attributes \<Rightarrow> check_response \<times> decider" where
  "Server_Check out statusText page now d h =
     (let (dec, d') = decide out now d (requestOf h) in (responseOf statusText page dec, d'))"

subsection \<open>The question of a component\<close>

record checker_audit =
  ca_cluster :: string
  ca_realm :: string

record checker = component_key +
  ck_audit :: "checker_audit option"

definition appNamePattern :: "string \<Rightarrow> bool" where
  "appNamePattern s \<longleftrightarrow> dns_label 63 s"

definition badAudit :: "checker \<Rightarrow> bool" where
  "badAudit c =
     (case ck_audit c of
        None \<Rightarrow> False
      | Some a \<Rightarrow>
          (case HolderUser (ca_realm a) ''x'' of Inl e \<Rightarrow> True | Inr h \<Rightarrow> False) \<or>
          TrimSpace (ca_cluster a) = [] \<or> ContainsAny (ca_cluster a) '':#/ '')"

definition validateCheckers :: "checker list \<Rightarrow> nat key_err option" where
  "validateCheckers checkers = Check component_key.truncate (\<lambda>i c. if badAudit c then Some i else None) checkers"

record check_request =
  cr_person :: string
  cr_app :: string
  cr_relation :: string
  cr_tenant :: string

record question =
  q_user :: string
  q_holder :: string
  q_relation :: string
  q_object :: string
  q_tenant :: string

definition questionOf :: "checker \<Rightarrow> check_request \<Rightarrow> nat \<times> string + question" where
  "questionOf c req =
     (case User (cr_person req) of
        Inl e \<Rightarrow> Inl (400, ''person must be a subject'')
      | Inr user \<Rightarrow>
          if cr_relation req = [] then
            (if \<not> appNamePattern (cr_app req) \<or> cr_tenant req \<noteq> []
             then Inl (400, ''app must be the name of an app of this tenant'')
             else Inr \<lparr>q_user = user, q_holder = [], q_relation = ''can_use'',
                       q_object = App (k_tenant c) (cr_app req), q_tenant = k_tenant c\<rparr>)
          else
            (case ck_audit c of
               None \<Rightarrow> Inl (403, ''this key asks about the apps of its tenant only'')
             | Some a \<Rightarrow>
                 if cr_app req \<noteq> [] then Inl (400, ''ask about an app or a relation, not both'')
                 else
                   (case HolderUser (ca_realm a) (cr_person req) of
                      Inl e \<Rightarrow> Inl (400, ''person must be a subject'')
                    | Inr holder \<Rightarrow>
                        if cr_relation req = ''can_audit'' \<or> cr_relation req = ''can_configure'' then
                          (if cr_tenant req \<noteq> []
                           then Inl (400, cr_relation req @ '' is asked of the cluster, with no tenant'')
                           else Inr \<lparr>q_user = user, q_holder = holder, q_relation = cr_relation req,
                                     q_object = Cluster (ca_cluster a), q_tenant = []\<rparr>)
                        else if cr_relation req = ''can_read_evidence'' then
                          (if \<not> appNamePattern (cr_tenant req)
                           then Inl (400, ''can_read_evidence needs the tenant's name'')
                           else Inr \<lparr>q_user = user, q_holder = holder, q_relation = cr_relation req,
                                     q_object = Tenant (cr_tenant req), q_tenant = cr_tenant req\<rparr>)
                        else Inl (400, ''relation must be can_audit, can_configure or can_read_evidence''))))"

text \<open>
  The handler: the status it answers with, and the answer where it is 200. \<open>body\<close> is the
  decoded request, \<open>None\<close> where it is not one.
\<close>

definition check_handler ::
  "(string \<Rightarrow> string) \<Rightarrow> (string \<Rightarrow> string \<Rightarrow> string \<Rightarrow> 'e + bool) \<Rightarrow> checker list option \<Rightarrow> string \<Rightarrow>
   check_request option \<Rightarrow> nat \<times> bool option" where
  "check_handler sum256 store checkers authorization body =
     (case (case checkers of None \<Rightarrow> None | Some cs \<Rightarrow> Find sum256 component_key.truncate cs (bearer authorization)) of
        None \<Rightarrow> (401, None)
      | Some c \<Rightarrow>
          (case body of
             None \<Rightarrow> (400, None)
           | Some req \<Rightarrow>
               (case questionOf c req of
                  Inl (status, msg) \<Rightarrow> (status, None)
                | Inr q \<Rightarrow>
                    (case CheckAs store (q_user q) (q_holder q) (q_relation q) (q_object q) of
                       Inl e \<Rightarrow> (503, None)
                     | Inr ok \<Rightarrow> (200, Some ok)))))"

subsection \<open>The exchange at the realm\<close>

definition ExchangeClientID :: string where
  "ExchangeClientID = ''gentian-edge-exchange''"

text \<open>The pattern \<open>^[a-z0-9][a-z0-9-]{0,62}$\<close>.\<close>

definition realmNamePattern :: "string \<Rightarrow> bool" where
  "realmNamePattern s \<longleftrightarrow> s \<noteq> [] \<and> length s \<le> 63 \<and> dns_char (hd s) \<and> list_all (\<lambda>x. dns_char x \<or> x = CHR ''-'') s"

record realm_answer =
  ra_status :: nat
  ra_accessToken :: string
  ra_expiresIn :: int
  ra_scope :: string

datatype exchange_err =
    RealmNotAName string
  | NeedsTokenAndOneScope
  | NoClientSecret string
  | NoAnswer
  | NoJSON
  | RealmRefused nat
  | OtherScope string string

text \<open>
  \<open>secretOf\<close> reads the file of the realm's secret; \<open>postForm\<close> posts a form to an address,
  \<open>None\<close> where there is no answer, \<open>Some None\<close> where it is not JSON.
\<close>

definition Exchange ::
  "(string \<Rightarrow> string option) \<Rightarrow> (string \<Rightarrow> (string, string) gomap \<Rightarrow> realm_answer option option) \<Rightarrow> string \<Rightarrow> int \<Rightarrow>
   string \<Rightarrow> string \<Rightarrow> string \<Rightarrow> exchange_err + string \<times> int" where
  "Exchange secretOf postForm tokenBase now realm subjectToken scope =
     (if \<not> realmNamePattern realm then Inl (RealmNotAName realm)
      else if subjectToken = [] \<or> scope = [] \<or> ContainsAny scope [CHR '' '', CHR 0x09] then Inl NeedsTokenAndOneScope
      else
        (case secretOf realm of
           None \<Rightarrow> Inl (NoClientSecret realm)
         | Some secret \<Rightarrow>
             (case postForm (rev (TrimLeft (rev tokenBase) ''/'') @ ''/realms/'' @ realm @ ''/protocol/openid-connect/token'')
                     [(''grant_type'', ''urn:ietf:params:oauth:grant-type:token-exchange''),
                      (''client_id'', ExchangeClientID), (''client_secret'', TrimSpace secret),
                      (''subject_token'', subjectToken),
                      (''subject_token_type'', ''urn:ietf:params:oauth:token-type:access_token''),
                      (''requested_token_type'', ''urn:ietf:params:oauth:token-type:access_token''),
                      (''scope'', scope)] of
                None \<Rightarrow> Inl NoAnswer
              | Some None \<Rightarrow> Inl NoJSON
              | Some (Some answer) \<Rightarrow>
                  if ra_status answer \<noteq> 200 \<or> ra_accessToken answer = [] then Inl (RealmRefused (ra_status answer))
                  else if ra_scope answer \<noteq> scope then Inl (OtherScope scope (ra_scope answer))
                  else Inr (ra_accessToken answer, now + ra_expiresIn answer * 10 ^ 9))))"

subsection \<open>The poller\<close>

text \<open>
  \<open>changes\<close> is one request for the changelog after a token. The first loop of \<open>Poll\<close> goes to the end
  of the log; the loop of a tick hands every batch on and returns the token to go on from,
  with the number of batches handed on. Nothing in either bounds the number of requests.
\<close>

partial_function (option) fastForward :: "(string \<Rightarrow> ('e + nat \<times> string)) \<Rightarrow> string \<Rightarrow> string option" where
  "fastForward changes token =
     (case changes token of
        Inl e \<Rightarrow> Some token
      | Inr p \<Rightarrow>
          if snd p = [] \<or> snd p = token \<or> fst p = 0 then Some (if snd p \<noteq> [] then snd p else token)
          else fastForward changes (snd p))"

partial_function (option) pollTick :: "(string \<Rightarrow> ('e + nat \<times> string)) \<Rightarrow> string \<Rightarrow> nat list \<Rightarrow> (string \<times> nat list) option" where
  "pollTick changes token seen =
     (case changes token of
        Inl e \<Rightarrow> Some (token, seen)
      | Inr p \<Rightarrow>
          let seen = (if fst p > 0 then seen @ [fst p] else seen) in
          if snd p = [] \<or> snd p = token then Some (token, seen)
          else if fst p = 0 then Some (snd p, seen)
          else pollTick changes (snd p) seen)"

subsection \<open>Concurrent requests and evictions\<close>

text \<open>
  A request takes the cache's lock twice: it looks up, and, when the store has said yes, it puts.
  Between the two other requests and the poller's eviction may run. \<open>log\<close> is what happened, the
  latest first, \<open>flight\<close> the answers that are not put yet.
\<close>

datatype edge_event =
    Granted string identity int
  | Evicted int

inductive edge_run :: "int \<Rightarrow> int \<Rightarrow> cache \<Rightarrow> (string \<times> string \<times> string \<times> identity) list \<Rightarrow> edge_event list \<Rightarrow> bool"
  for ttl where
  edge_start: "edge_run ttl now [] [] []"
| edge_tick: "edge_run ttl now c flight log \<Longrightarrow> now \<le> now' \<Longrightarrow> edge_run ttl now' c flight log"
| edge_grant: "edge_run ttl now c flight log \<Longrightarrow>
    edge_run ttl now c ((sub, sid, host, who) # flight) (Granted (cacheKey sub sid host) who now # log)"
| edge_put: "edge_run ttl now c flight log \<Longrightarrow> (sub, sid, host, who) \<in> set flight \<Longrightarrow>
    edge_run ttl now (cache_put ttl now c sub sid host who) (remove1 (sub, sid, host, who) flight) log"
| edge_evict: "edge_run ttl now c flight log \<Longrightarrow> edge_run ttl now (snd (evictAll c)) flight (Evicted now # log)"

lemma edge_run_inv:
  assumes "edge_run ttl now c flight log"
  shows "(\<forall>k who e. (k, who, e) \<in> set c \<longrightarrow> (\<exists>t. Granted k who t \<in> set log \<and> t \<le> e - ttl \<and> e - ttl \<le> now)) \<and>
    (\<forall>sub sid host who. (sub, sid, host, who) \<in> set flight \<longrightarrow> (\<exists>t. Granted (cacheKey sub sid host) who t \<in> set log \<and> t \<le> now)) \<and>
    (\<forall>k who t. Granted k who t \<in> set log \<longrightarrow> t \<le> now)"
  using assms
proof induction
  case (edge_tick now c flight log now')
  then show ?case by (meson order_trans)
next
  case (edge_put now c flight log sub sid host who)
  have "(k, w, e) \<in> set c \<or> (k = cacheKey sub sid host \<and> w = who \<and> e = now + ttl)"
    if "(k, w, e) \<in> set (cache_put ttl now c sub sid host who)" for k w e
    using that unfolding cache_put_def by (induction c) (auto split: if_splits)
  then have "\<exists>t. Granted k w t \<in> set log \<and> t \<le> e - ttl \<and> e - ttl \<le> now"
    if "(k, w, e) \<in> set (cache_put ttl now c sub sid host who)" for k w e
    using that edge_put by fastforce
  moreover have "set (remove1 (sub, sid, host, who) flight) \<subseteq> set flight" by (rule set_remove1_subset)
  ultimately show ?case using edge_put.IH by blast
next
  case (edge_grant now c flight log sub sid host who)
  let ?g = "Granted (cacheKey sub sid host) who now"
  show ?case
  proof (intro conjI allI impI)
    fix k w e assume "(k, w, e) \<in> set c"
    then obtain t where "Granted k w t \<in> set log" "t \<le> e - ttl" "e - ttl \<le> now" using edge_grant.IH by blast
    then show "\<exists>t. Granted k w t \<in> set (?g # log) \<and> t \<le> e - ttl \<and> e - ttl \<le> now" by (intro exI [of _ t]) simp
  next
    fix u s h w assume "(u, s, h, w) \<in> set ((sub, sid, host, who) # flight)"
    then consider "u = sub" "s = sid" "h = host" "w = who" | "(u, s, h, w) \<in> set flight" by auto
    then show "\<exists>t. Granted (cacheKey u s h) w t \<in> set (?g # log) \<and> t \<le> now"
    proof cases
      case 2
      then obtain t where "Granted (cacheKey u s h) w t \<in> set log" "t \<le> now" using edge_grant.IH by blast
      then show ?thesis by (intro exI [of _ t]) simp
    qed (intro exI [of _ now], simp)
  next
    fix k w t assume "Granted k w t \<in> set (?g # log)"
    then show "t \<le> now" using edge_grant.IH by auto
  qed
qed (auto simp: evictAll_def)

lemma cache_get_entry:
  "cache_get now c sub sid host = Some who \<Longrightarrow> \<exists>e. (cacheKey sub sid host, who, e) \<in> set c \<and> now < e"
  by (fastforce simp: cache_get_def dest: map_of_SomeD split: option.splits if_splits)

subsection \<open>Lemmas on the question\<close>

lemma questionOf_cases:
  assumes "questionOf c req = Inr q"
  shows "User (cr_person req) = Inr (q_user q) \<and>
    (cr_relation req = [] \<and> appNamePattern (cr_app req) \<and> q_holder q = [] \<and> q_relation q = ''can_use'' \<and>
       q_object q = App (k_tenant c) (cr_app req) \<or>
     (\<exists>a. ck_audit c = Some a \<and> cr_relation req \<noteq> [] \<and> q_relation q = cr_relation req \<and>
       HolderUser (ca_realm a) (cr_person req) = Inr (q_holder q) \<and>
       (q_relation q \<in> {''can_audit'', ''can_configure''} \<and> q_object q = Cluster (ca_cluster a) \<or>
        q_relation q = ''can_read_evidence'' \<and> q_object q = Tenant (cr_tenant req) \<and> appNamePattern (cr_tenant req))))"
proof -
  obtain user where u: "User (cr_person req) = Inr user"
    using assms by (cases "User (cr_person req)") (simp_all add: questionOf_def)
  show ?thesis
  proof (cases "cr_relation req = []")
    case True
    then show ?thesis using assms u by (simp add: questionOf_def split: if_splits) auto
  next
    case False
    obtain a where a: "ck_audit c = Some a"
      using assms u False by (cases "ck_audit c") (simp_all add: questionOf_def)
    have "cr_app req = []" using assms u False a by (simp add: questionOf_def split: if_splits)
    moreover obtain h where h: "HolderUser (ca_realm a) (cr_person req) = Inr h"
      using assms u False a calculation
      by (cases "HolderUser (ca_realm a) (cr_person req)") (simp_all add: questionOf_def)
    ultimately show ?thesis
      using assms u False a by (simp add: questionOf_def split: if_splits) auto
  qed
qed

lemma check_handler_True:
  assumes "check_handler sum256 store checkers authorization body = (200, Some True)"
  obtains cs c req q where "checkers = Some cs" "body = Some req" "c \<in> set cs" "bearer authorization \<noteq> []"
    "k_hash c = Hash sum256 (bearer authorization)" "questionOf c req = Inr q"
    "CheckAs store (q_user q) (q_holder q) (q_relation q) (q_object q) = Inr True"
proof -
  obtain cs where cs: "checkers = Some cs" using assms by (cases checkers) (simp_all add: check_handler_def)
  obtain c where c: "Find sum256 component_key.truncate cs (bearer authorization) = Some c"
    using assms cs by (cases "Find sum256 component_key.truncate cs (bearer authorization)") (simp_all add: check_handler_def)
  obtain req where b: "body = Some req" using assms cs c by (cases body) (simp_all add: check_handler_def)
  obtain q where q: "questionOf c req = Inr q"
    using assms cs c b by (cases "questionOf c req") (auto simp: check_handler_def)
  have "CheckAs store (q_user q) (q_holder q) (q_relation q) (q_object q) = Inr True"
    using assms cs c b q by (cases "CheckAs store (q_user q) (q_holder q) (q_relation q) (q_object q)") (simp_all add: check_handler_def)
  with Find_sound [OF c] cs b q show thesis by (intro that) (auto simp: component_key.defs)
qed

subsection \<open>Properties\<close>


lemma late_put_run:
  "edge_run 300 10 (cache_put 300 10 [] ''u'' ''s'' ''h'' who) [] [Evicted 5, Granted (cacheKey ''u'' ''s'' ''h'') who 0]"
proof -
  have "edge_run 300 0 [] [(''u'', ''s'', ''h'', who)] [Granted (cacheKey ''u'' ''s'' ''h'') who 0]"
    by (intro edge_grant edge_start)
  then have "edge_run 300 5 [] [(''u'', ''s'', ''h'', who)] [Granted (cacheKey ''u'' ''s'' ''h'') who 0]"
    by (rule edge_tick) simp
  from edge_evict [OF this]
  have "edge_run 300 5 [] [(''u'', ''s'', ''h'', who)] [Evicted 5, Granted (cacheKey ''u'' ''s'' ''h'') who 0]"
    by (simp add: evictAll_def)
  then have "edge_run 300 10 [] [(''u'', ''s'', ''h'', who)] [Evicted 5, Granted (cacheKey ''u'' ''s'' ''h'') who 0]"
    by (rule edge_tick) simp
  from edge_put [OF this, of "''u''" "''s''" "''h''" who] show ?thesis by simp
qed




definition sampleChecker :: checker where
  "sampleChecker = \<lparr>k_tenant = ''acme'', k_component = ''bot'', k_hash = ''61'', ck_audit = None\<rparr>"

definition sampleCheck :: check_request where
  "sampleCheck = \<lparr>cr_person = ''u1'', cr_app = ''erp'', cr_relation = [], cr_tenant = []\<rparr>"


lemma pollTick_all:
  fixes left :: "string \<Rightarrow> nat"
  assumes "\<And>tok. \<exists>n next. changes tok = Inr (n, next) \<and>
      (if next = [] \<or> next = tok \<or> n = 0 then rest tok = (if n > 0 then [n] else [])
       else rest tok = n # rest next \<and> left next < left tok)"
  shows "\<exists>tok'. pollTick changes tok seen = Some (tok', seen @ rest tok)"
proof (induction "left tok" arbitrary: tok seen rule: less_induct)
  case less
  obtain n nxt where c: "changes tok = Inr (n, nxt)"
    "if nxt = [] \<or> nxt = tok \<or> n = 0 then rest tok = (if n > 0 then [n] else []) else rest tok = n # rest nxt \<and> left nxt < left tok"
    using assms [of tok] by blast
  show ?case
  proof (cases "nxt = [] \<or> nxt = tok \<or> n = 0")
    case True
    then show ?thesis using c by (auto simp: pollTick.simps [of changes tok seen])
  next
    case False
    then obtain tok' where "pollTick changes nxt (seen @ [n]) = Some (tok', (seen @ [n]) @ rest nxt)"
      using less.hyps [of nxt "seen @ [n]"] c(2) by auto
    then show ?thesis using False c by (auto simp: pollTick.simps [of changes tok seen])
  qed
qed



end
