(* ===== verification/Tenancy.thy ===== *)
theory Tenancy
  imports Rights_Ids
begin

section \<open>Tenants, tenancy modes and what an entry asks approval for\<close>

text \<open>
  The part of the \<open>Tenant\<close> and \<open>ComponentProfile\<close> types of \<open>api/v1alpha1\<close> that addresses are made
  from, with their methods: \<open>tenancy.go\<close>, \<open>EffectiveDomain\<close> and \<open>AdminEmailOrDefault\<close> of
  \<open>tenant_types.go\<close>, \<open>RequestKind\<close> and \<open>ApprovedAs\<close> of \<open>componentprofile_types.go\<close>; \<open>RealmName\<close> of
  \<open>internal/keycloak/groups.go\<close>; and package \<open>internal/tenancy\<close>, which says what a
  single-tenancy cluster may carry. A pointer that may be nil is an option; a \<open>metav1.Time\<close> is
  nanoseconds since 1970.
\<close>

subsection \<open>Definitions\<close>

record tenant_exposure =
  te_Install :: string
  te_ExposureName :: string
  te_Kind :: string
  te_Owner :: string
  te_ExpiresAt :: "int option"
  te_ReviewAt :: int
  te_Reason :: string
  te_PublishedAt :: "int option"
  te_LastReviewedBy :: string
  te_LastReviewedAt :: "int option"
  te_Apex :: bool
  te_ApexAcknowledgedBy :: string
  te_ApexAcknowledgedAt :: "int option"
  te_Alias :: string
  te_AliasSetBy :: string
  te_AliasSetAt :: "int option"

record exposure_enablement =
  en_ExposureName :: string
  en_Kind :: string
  en_Owner :: string
  en_ExpiresAt :: "int option"
  en_ReviewAt :: int
  en_Apex :: bool
  en_Alias :: string

definition Enablement :: "tenant_exposure \<Rightarrow> exposure_enablement" where
  "Enablement e =
     \<lparr>en_ExposureName = te_ExposureName e, en_Kind = te_Kind e, en_Owner = te_Owner e,
       en_ExpiresAt = te_ExpiresAt e, en_ReviewAt = te_ReviewAt e, en_Apex = te_Apex e, en_Alias = te_Alias e\<rparr>"

record isolation =
  iso_Mode :: string
  iso_Namespace :: string
  iso_KeycloakRealm :: string
  iso_DatabasePrefix :: string
  iso_S3Prefix :: string

record tenant_app =
  ta_Profile :: string
  ta_ProfileRef :: "string option"
  ta_Placed :: bool
  ta_Addons :: "string list"

record tenant =
  tn_Name :: string
  tn_Annotations :: "(string, string) gomap"
  tn_DeletionTimestamp :: "int option"
  tn_Isolation :: "isolation option"
  tn_Exposures :: "tenant_exposure list"
  tn_Apps :: "tenant_app list"
  tn_MaxApps :: "int option"
  tn_Domain :: string
  tn_Phase :: string

text \<open>A tenant that states nothing but its name.\<close>

definition namedTenant :: "string \<Rightarrow> tenant" where
  "namedTenant name = \<lparr>tn_Name = name, tn_Annotations = [], tn_DeletionTimestamp = None, tn_Isolation = None,
     tn_Exposures = [], tn_Apps = [], tn_MaxApps = None, tn_Domain = [], tn_Phase = ''Ready''\<rparr>"

definition TenancyModeMulti :: string where
  "TenancyModeMulti = ''multi''"

definition TenancyModeSingle :: string where
  "TenancyModeSingle = ''single''"

definition PlatformTenantName :: string where
  "PlatformTenantName = ''platform''"

definition SingleUserTenantName :: string where
  "SingleUserTenantName = ''user''"

definition SingleUserAdminLocalPart :: string where
  "SingleUserAdminLocalPart = ''user-admin''"

definition TenantAdminLocalPart :: string where
  "TenantAdminLocalPart = ''admin''"

definition NormalizeTenancyMode :: "string \<Rightarrow> string" where
  "NormalizeTenancyMode mode =
     (if EqualFold (TrimSpace mode) TenancyModeSingle then TenancyModeSingle else TenancyModeMulti)"

definition OnClusterDomain :: "tenant option \<Rightarrow> string \<Rightarrow> bool" where
  "OnClusterDomain t tenancyMode \<longleftrightarrow>
     (case t of
        None \<Rightarrow> False
      | Some t \<Rightarrow> tn_Name t = SingleUserTenantName \<and> NormalizeTenancyMode tenancyMode = TenancyModeSingle)"

definition NamespaceName :: "tenant option \<Rightarrow> string" where
  "NamespaceName t =
     (case t of
        None \<Rightarrow> []
      | Some t \<Rightarrow>
          (case tn_Isolation t of
             Some i \<Rightarrow> if iso_Namespace i \<noteq> [] then iso_Namespace i else ''tenant-'' @ tn_Name t
           | None \<Rightarrow> ''tenant-'' @ tn_Name t))"

fun TenantInNamespace :: "tenant list \<Rightarrow> string \<Rightarrow> tenant option" where
  "TenantInNamespace [] namespace = None"
| "TenantInNamespace (t # tenants) namespace =
     (if NamespaceName (Some t) = namespace then Some t else TenantInNamespace tenants namespace)"

definition EffectiveDomain :: "tenant \<Rightarrow> string \<Rightarrow> string \<Rightarrow> string" where
  "EffectiveDomain t kernelDomain tenancyMode =
     (if tn_Domain t \<noteq> [] then tn_Domain t
      else if kernelDomain = [] then []
      else if OnClusterDomain (Some t) tenancyMode then kernelDomain
      else tn_Name t @ ''.'' @ kernelDomain)"

definition AdminEmailOrDefault :: "tenant \<Rightarrow> string \<Rightarrow> string \<Rightarrow> string" where
  "AdminEmailOrDefault t kernelDomain tenancyMode =
     (let domain = EffectiveDomain t kernelDomain tenancyMode;
          domain = (if domain = [] then tn_Name t @ ''.invalid'' else domain)
      in if kernelDomain \<noteq> [] \<and> domain = kernelDomain then SingleUserAdminLocalPart @ ''@'' @ domain
         else TenantAdminLocalPart @ ''@'' @ domain)"

definition TenantAdminUsername :: "tenant \<Rightarrow> string \<Rightarrow> string \<Rightarrow> string" where
  "TenantAdminUsername t kernelDomain tenancyMode = AdminEmailOrDefault t kernelDomain tenancyMode"

definition RealmName :: "tenant \<Rightarrow> string" where
  "RealmName t =
     (case tn_Isolation t of
        Some i \<Rightarrow> if iso_KeycloakRealm i \<noteq> [] then iso_KeycloakRealm i else tn_Name t
      | None \<Rightarrow> tn_Name t)"

subsubsection \<open>Single tenancy\<close>

datatype tenancy_err = ErrSingleTenancy string

definition IsPlatformTenant :: "tenant option \<Rightarrow> string \<Rightarrow> bool" where
  "IsPlatformTenant t kernelRealm \<longleftrightarrow>
     (let kernelRealm = (if kernelRealm = [] then ''kernel'' else kernelRealm)
      in case t of
           None \<Rightarrow> False
         | Some t \<Rightarrow>
             (case tn_Isolation t of None \<Rightarrow> False | Some i \<Rightarrow> iso_KeycloakRealm i = kernelRealm))"

definition SingleRefusal :: "string \<Rightarrow> tenancy_err option" where
  "SingleRefusal name = (if name = SingleUserTenantName then None else Some (ErrSingleTenancy name))"

definition EnforceSingle :: "string \<Rightarrow> string \<Rightarrow> tenant \<Rightarrow> tenancy_err option" where
  "EnforceSingle tenancyMode kernelRealm t =
     (if NormalizeTenancyMode tenancyMode \<noteq> TenancyModeSingle then None
      else if IsPlatformTenant (Some t) kernelRealm then None
      else SingleRefusal (tn_Name t))"

definition SoleUserTenant :: "string \<Rightarrow> string \<Rightarrow> bool" where
  "SoleUserTenant tenancyMode name \<longleftrightarrow>
     NormalizeTenancyMode tenancyMode = TenancyModeSingle \<and> name = SingleUserTenantName"

definition MainAddressTenant :: "string \<Rightarrow> string \<Rightarrow> string" where
  "MainAddressTenant tenancyMode named =
     (if named \<noteq> [] then named
      else if NormalizeTenancyMode tenancyMode = TenancyModeSingle then SingleUserTenantName
      else [])"

subsubsection \<open>Profiles and their entries\<close>

record exposure_spec =
  ex_Name :: string
  ex_Surface :: string
  ex_AuthMode :: string
  ex_SubDomain :: string
  ex_Apex :: bool
  ex_Paths :: "string list"
  ex_DenyPaths :: "string list"
  ex_ForwardToken :: bool
  ex_ExchangeToken :: bool
  ex_ClientAuthorization :: string
  ex_Annotations :: "(string, string) gomap"
  ex_Backend_Component :: string

text \<open>The rules the schema holds an entry to; an optional field that is empty is one the entry does not have.\<close>

definition admissible :: "exposure_spec \<Rightarrow> bool" where
  "admissible e \<longleftrightarrow>
     \<not> (ex_Surface e = ''perimeter'' \<and> ex_ForwardToken e) \<and>
     (ex_Surface e \<noteq> ''perimeter'' \<or> ex_AuthMode e \<noteq> ''oidc'') \<and>
     (\<not> ex_Apex e \<or> ex_Surface e = ''perimeter'' \<and> ex_SubDomain e = []) \<and>
     (ex_Surface e \<noteq> ''perimeter'' \<or> ex_AuthMode e \<in> {''none'', ''app'', ''oidc''}) \<and>
     (ex_AuthMode e \<noteq> ''app'' \<or> ex_Surface e = ''perimeter'') \<and>
     (ex_ClientAuthorization e = [] \<or> ex_Surface e = ''gateway'' \<and> ex_AuthMode e = ''oidc'') \<and>
     (ex_ClientAuthorization e = [] \<or> \<not> ex_ForwardToken e \<and> \<not> ex_ExchangeToken e) \<and>
     (\<not> ex_Apex e \<or> ex_AuthMode e = ''none'') \<and>
     (ex_Surface e \<noteq> ''gateway'' \<or> ex_AuthMode e = ''oidc'')"

record component_placement =
  pl_Tenants :: string
  pl_While :: string

record integration =
  ig_Contract :: string
  ig_Provider :: string
  ig_Capabilities :: "string list"

record service_requirements =
  sr_Database :: "string option"
  sr_S3 :: bool
  sr_Cache :: "string option"

record component_profile =
  cp_Name :: string
  cp_Annotations :: "(string, string) gomap"
  cp_Labels :: "(string, string) gomap"
  cp_TrustTier :: string
  cp_Expose :: "exposure_spec list"
  cp_Classes :: "string list"
  cp_Placement :: "component_placement option"
  cp_DefaultForTenants :: bool
  cp_DefaultForPlatform :: bool
  cp_DefaultWhereStoreOffered :: bool
  cp_Integrations :: "integration list"
  cp_Provides :: "string list"
  cp_Extensions :: "string list"
  cp_Chart :: "string option"
  cp_Services :: "service_requirements option"

text \<open>A profile that states nothing but its name.\<close>

definition blankProfile :: "string \<Rightarrow> component_profile" where
  "blankProfile name = \<lparr>cp_Name = name, cp_Annotations = [], cp_Labels = [], cp_TrustTier = [], cp_Expose = [],
     cp_Classes = [], cp_Placement = None, cp_DefaultForTenants = False, cp_DefaultForPlatform = False,
     cp_DefaultWhereStoreOffered = False, cp_Integrations = [], cp_Provides = [], cp_Extensions = [],
     cp_Chart = None, cp_Services = None\<rparr>"

text \<open>\<open>m[k]\<close> for a map of strings: the empty string where there is no entry.\<close>

definition at_key :: "(string, string) gomap \<Rightarrow> string \<Rightarrow> string" where
  "at_key m k = (case map_of m k of None \<Rightarrow> [] | Some v \<Rightarrow> v)"

definition SurfaceGateway :: string where
  "SurfaceGateway = ''gateway''"

definition SurfacePerimeter :: string where
  "SurfacePerimeter = ''perimeter''"

definition ExposureKindPublic :: string where
  "ExposureKindPublic = ''public''"

definition ExposureKindPublicAppCredential :: string where
  "ExposureKindPublicAppCredential = ''publicAppCredential''"

definition ExposureKindSignInAppAuthorization :: string where
  "ExposureKindSignInAppAuthorization = ''signInAppAuthorization''"

definition Normalized :: "string \<Rightarrow> string" where
  "Normalized k = (if k = [] then ExposureKindPublic else k)"

definition RequestKind :: "exposure_spec option \<Rightarrow> string" where
  "RequestKind e =
     (case e of
        None \<Rightarrow> []
      | Some e \<Rightarrow>
          if ex_Surface e = SurfacePerimeter then
            (if ex_AuthMode e = ''none'' then ExposureKindPublic
             else if ex_AuthMode e = ''app'' then ExposureKindPublicAppCredential
             else [])
          else if ex_Surface e = SurfaceGateway then
            (if ex_AuthMode e = ''oidc'' \<and> ex_ClientAuthorization e = ''app''
             then ExposureKindSignInAppAuthorization else [])
          else [])"

definition ApprovedAs :: "exposure_spec option \<Rightarrow> string \<Rightarrow> bool" where
  "ApprovedAs e approved \<longleftrightarrow> RequestKind e \<noteq> [] \<and> RequestKind e = Normalized approved"

subsection \<open>Lemmas\<close>

lemma EnforceSingle_single:
  "NormalizeTenancyMode mode = TenancyModeSingle \<Longrightarrow>
     EnforceSingle mode kernelRealm t = None \<longleftrightarrow>
       IsPlatformTenant (Some t) kernelRealm \<or> tn_Name t = SingleUserTenantName"
  by (simp add: EnforceSingle_def SingleRefusal_def)

text \<open>What an admissible entry asks for: a public one always asks, and an apex entry for a public address.\<close>

lemma admissible_RequestKind:
  assumes "admissible e" "ex_Surface e \<in> {SurfaceGateway, SurfacePerimeter}" "ex_ClientAuthorization e \<in> {[], ''app''}"
  shows "RequestKind (Some e) = [] \<longleftrightarrow> ex_Surface e = SurfaceGateway \<and> ex_ClientAuthorization e = []"
    and "ex_Apex e \<Longrightarrow> RequestKind (Some e) = ExposureKindPublic"
  using assms
  by (auto simp: admissible_def RequestKind_def SurfaceGateway_def SurfacePerimeter_def ExposureKindPublic_def
      ExposureKindPublicAppCredential_def ExposureKindSignInAppAuthorization_def)

lemma TenantInNamespace_Some:
  "TenantInNamespace tenants namespace = Some t \<Longrightarrow> t \<in> set tenants \<and> NamespaceName (Some t) = namespace"
  by (induction tenants) (auto split: if_splits)

lemma domain_suffix:
  "tn_Domain t = [] \<Longrightarrow> kernelDomain \<noteq> [] \<Longrightarrow> \<not> OnClusterDomain (Some t) mode \<Longrightarrow>
     EffectiveDomain t kernelDomain mode = tn_Name t @ ''.'' @ kernelDomain"
  by (simp add: EffectiveDomain_def)

lemma NormalizeTenancyMode_cases: "NormalizeTenancyMode m = TenancyModeSingle \<or> NormalizeTenancyMode m = TenancyModeMulti"
  by (simp add: NormalizeTenancyMode_def)

subsection \<open>Administrators of different tenants\<close>

text \<open>
  Every tenant's administrator has a login of its own. It is never the platform administrator's,
  \<open>admin\<close> at the cluster's domain, whatever the tenant's name, mode or bound domain; and two tenants
  that are not bound to a custom domain have different logins.
\<close>

theorem tenant_admin_logins_apart:
  assumes "kernelDomain \<noteq> []"
  shows "TenantAdminUsername t kernelDomain mode \<noteq> ''admin@'' @ kernelDomain \<and>
    (tn_Domain t = [] \<and> tn_Domain u = [] \<and> tn_Name t \<noteq> tn_Name u \<longrightarrow>
       TenantAdminUsername t kernelDomain mode \<noteq> TenantAdminUsername u kernelDomain mode)"
proof -
  have "EffectiveDomain u kernelDomain mode \<noteq> kernelDomain"
    if "tn_Domain u = []" "\<not> OnClusterDomain (Some u) mode" for u
    using that assms by (simp add: EffectiveDomain_def)
  then show ?thesis
    using assms
    by (auto simp: TenantAdminUsername_def AdminEmailOrDefault_def EffectiveDomain_def OnClusterDomain_def Let_def
        TenantAdminLocalPart_def SingleUserAdminLocalPart_def)
qed

theorem tenant_admin_logins_apart_witness:
  "TenantAdminUsername (namedTenant ''user'') ''gtn.host'' ''single'' \<noteq> ''admin@gtn.host'' \<and>
   TenantAdminUsername (namedTenant ''user'') ''gtn.host'' ''single'' \<noteq>
     TenantAdminUsername (namedTenant ''platform'') ''gtn.host'' ''single''"
  using tenant_admin_logins_apart [of "''gtn.host''" "namedTenant ''user''" "''single''" "namedTenant ''platform''"]
  by (simp add: namedTenant_def)

end
