(* ===== verification/Profile_Origin.thy ===== *)
theory Profile_Origin
  imports Tenancy
begin

section \<open>The catalog a profile comes from\<close>

text \<open>
  \<open>internal/profilebundle/origin.go\<close>: the annotation the director writes on a profile it takes from a
  catalog, who may use such a profile, and the refusal of platform trust from a tenant's own
  catalog. \<open>q\<close> is the verb \<open>%q\<close> of package \<open>fmt\<close>, an argument of the definitions that format with it.
\<close>

subsection \<open>Definitions\<close>

definition OriginAnnotation :: string where
  "OriginAnnotation = ''gentianos.io/catalogue-origin''"

definition BundleAnnotation :: string where
  "BundleAnnotation = ''gentianos.io/profile-bundle''"

definition ClusterOrigin :: "string \<Rightarrow> string" where
  "ClusterOrigin source = ''cluster/'' @ source"

definition TenantOrigin :: "string \<Rightarrow> string \<Rightarrow> string" where
  "TenantOrigin t source = ''tenant/'' @ t @ ''/'' @ source"

record origin =
  og_Tenant :: string
  og_Source :: string

datatype origin_err = NotAnOrigin string

definition ParseOrigin :: "string \<Rightarrow> origin_err + origin" where
  "ParseOrigin v =
     (let v = TrimSpace v
      in if v = [] then Inr \<lparr>og_Tenant = [], og_Source = []\<rparr>
         else
           (case Split v (CHR ''/'') of
              [a, b] \<Rightarrow>
                if a = ''cluster'' \<and> b \<noteq> [] then Inr \<lparr>og_Tenant = [], og_Source = b\<rparr>
                else Inl (NotAnOrigin v)
            | [a, b, c] \<Rightarrow>
                if a = ''tenant'' \<and> b \<noteq> [] \<and> c \<noteq> [] then Inr \<lparr>og_Tenant = b, og_Source = c\<rparr>
                else Inl (NotAnOrigin v)
            | _ \<Rightarrow> Inl (NotAnOrigin v)))"

definition UsableBy :: "string \<Rightarrow> string \<Rightarrow> bool" where
  "UsableBy v t =
     (case ParseOrigin v of Inl _ \<Rightarrow> False | Inr og \<Rightarrow> og_Tenant og = [] \<or> og_Tenant og = t)"

record profile_refusal =
  pr_Reason :: string
  pr_Message :: string
  pr_Retry :: bool

definition refuse :: "string \<Rightarrow> string \<Rightarrow> profile_refusal" where
  "refuse reason message = \<lparr>pr_Reason = reason, pr_Message = message, pr_Retry = False\<rparr>"

definition ReasonOtherTenant :: string where
  "ReasonOtherTenant = ''ProfileOfAnotherTenant''"

definition ReasonPlatformTierFromTenant :: string where
  "ReasonPlatformTierFromTenant = ''PlatformTierFromTenantCatalogue''"

definition TrustTierPlatform :: string where
  "TrustTierPlatform = ''platform''"

definition PlatformTierFromTenant ::
  "(string \<Rightarrow> string) \<Rightarrow> component_profile \<Rightarrow> profile_refusal option" where
  "PlatformTierFromTenant q p =
     (if cp_TrustTier p \<noteq> TrustTierPlatform then None
      else
        (case ParseOrigin (at_key (cp_Annotations p) OriginAnnotation) of
           Inl _ \<Rightarrow> None
         | Inr og \<Rightarrow>
             if og_Tenant og = [] then None
             else Some (refuse ReasonPlatformTierFromTenant
               (''ComponentProfile '' @ q (cp_Name p) @
                '' states trustTier platform and comes from tenant '' @ og_Tenant og @
                [CHR 0x27] @ ''s own catalog '' @ og_Source og @ ''; platform trust is '' @
                ''given only through a catalog of the whole cluster, which the cluster's administrator adds''))))"

definition originError :: "(string \<Rightarrow> string) \<Rightarrow> origin_err \<Rightarrow> string" where
  "originError q e =
     (case e of NotAnOrigin v \<Rightarrow> q v @ '' is not cluster/<source> or tenant/<tenant>/<source>'')"

definition OwnedByAnother ::
  "(string \<Rightarrow> string) \<Rightarrow> component_profile \<Rightarrow> string \<Rightarrow> profile_refusal option" where
  "OwnedByAnother q p t =
     (let v = at_key (cp_Annotations p) OriginAnnotation
      in if UsableBy v t then None
         else
           (case ParseOrigin v of
              Inl err \<Rightarrow> Some (refuse ReasonOtherTenant
                (''ComponentProfile '' @ q (cp_Name p) @
                 '' states an origin that cannot be read (annotation '' @ OriginAnnotation @ '': '' @
                 originError q err @ ''), so it is not known whose it is''))
            | Inr _ \<Rightarrow> Some (refuse ReasonOtherTenant
                (''ComponentProfile '' @ q (cp_Name p) @
                 '' comes from another tenant's own catalog and can be installed only in that tenant, not in '' @
                 t))))"

subsection \<open>Properties\<close>

text \<open>The two forms of an origin, and what reading one gives.\<close>

definition originName :: "string \<Rightarrow> bool" where
  "originName s \<longleftrightarrow> s \<noteq> [] \<and> CHR ''/'' \<notin> set s"

lemma Split_clusterOrigin: "originName s \<Longrightarrow> Split (ClusterOrigin s) (CHR ''/'') = [''cluster'', s]"
  using Split_Join [of "[''cluster'', s]" "CHR ''/''"] by (simp add: originName_def ClusterOrigin_def)

lemma Split_tenantOrigin:
  "originName t \<Longrightarrow> originName s \<Longrightarrow> Split (TenantOrigin t s) (CHR ''/'') = [''tenant'', t, s]"
  using Split_Join [of "[''tenant'', t, s]" "CHR ''/''"] by (simp add: originName_def TenantOrigin_def)

lemma ParseOrigin_Inr:
  "ParseOrigin v = Inr og \<longleftrightarrow>
     (TrimSpace v = [] \<and> og = \<lparr>og_Tenant = [], og_Source = []\<rparr>) \<or>
     (\<exists>s. originName s \<and> TrimSpace v = ClusterOrigin s \<and> og = \<lparr>og_Tenant = [], og_Source = s\<rparr>) \<or>
     (\<exists>t s. originName t \<and> originName s \<and> TrimSpace v = TenantOrigin t s \<and> og = \<lparr>og_Tenant = t, og_Source = s\<rparr>)"
  (is "_ \<longleftrightarrow> ?form")
proof
  assume p: "ParseOrigin v = Inr og"
  consider "TrimSpace v = []" "og = \<lparr>og_Tenant = [], og_Source = []\<rparr>"
    | s where "Split (TrimSpace v) (CHR ''/'') = [''cluster'', s]" "s \<noteq> []" "og = \<lparr>og_Tenant = [], og_Source = s\<rparr>"
    | t s where "Split (TrimSpace v) (CHR ''/'') = [''tenant'', t, s]" "t \<noteq> []" "s \<noteq> []"
        "og = \<lparr>og_Tenant = t, og_Source = s\<rparr>"
    using p by (auto simp: ParseOrigin_def Let_def split: if_splits list.splits)
  then show ?form
  proof cases
    case (2 s)
    then show ?thesis
      using Join_Split [of "TrimSpace v" "CHR ''/''"] Split_pieces [of s "TrimSpace v" "CHR ''/''"]
      by (auto simp: originName_def ClusterOrigin_def)
  next
    case (3 t s)
    then show ?thesis
      using Join_Split [of "TrimSpace v" "CHR ''/''"] Split_pieces [of s "TrimSpace v" "CHR ''/''"]
        Split_pieces [of t "TrimSpace v" "CHR ''/''"]
      by (auto simp: originName_def TenantOrigin_def)
  qed simp
next
  assume ?form
  then show "ParseOrigin v = Inr og"
  proof (elim disjE exE conjE)
    fix s assume "originName s" "TrimSpace v = ClusterOrigin s" "og = \<lparr>og_Tenant = [], og_Source = s\<rparr>"
    then show ?thesis
      using Split_clusterOrigin [of s] by (simp add: ParseOrigin_def originName_def ClusterOrigin_def)
  next
    fix t s assume "originName t" "originName s" "TrimSpace v = TenantOrigin t s" "og = \<lparr>og_Tenant = t, og_Source = s\<rparr>"
    then show ?thesis
      using Split_tenantOrigin [of t s] by (simp add: ParseOrigin_def originName_def TenantOrigin_def)
  qed (simp add: ParseOrigin_def)
qed

lemma ParseOrigin_ex:
  "(\<exists>og. ParseOrigin v = Inr og \<and> P og) \<longleftrightarrow>
     TrimSpace v = [] \<and> P \<lparr>og_Tenant = [], og_Source = []\<rparr> \<or>
     (\<exists>s. originName s \<and> TrimSpace v = ClusterOrigin s \<and> P \<lparr>og_Tenant = [], og_Source = s\<rparr>) \<or>
     (\<exists>t s. originName t \<and> originName s \<and> TrimSpace v = TenantOrigin t s \<and> P \<lparr>og_Tenant = t, og_Source = s\<rparr>)"
  unfolding ParseOrigin_Inr by blast

lemma UsableBy_iff:
  "UsableBy v u \<longleftrightarrow>
     TrimSpace v = [] \<or> (\<exists>s. originName s \<and> TrimSpace v = ClusterOrigin s) \<or>
     (\<exists>s. originName u \<and> originName s \<and> TrimSpace v = TenantOrigin u s)"
proof -
  have "UsableBy v u \<longleftrightarrow> (\<exists>og. ParseOrigin v = Inr og \<and> (og_Tenant og = [] \<or> og_Tenant og = u))"
    by (auto simp: UsableBy_def split: sum.splits)
  also have "\<dots> \<longleftrightarrow> TrimSpace v = [] \<or> (\<exists>s. originName s \<and> TrimSpace v = ClusterOrigin s) \<or>
     (\<exists>s. originName u \<and> originName s \<and> TrimSpace v = TenantOrigin u s)"
    unfolding ParseOrigin_ex by (simp add: originName_def) blast
  finally show ?thesis .
qed

text \<open>
  C34. Whose a profile is, on every value of its origin annotation. A tenant may have a profile rolled out
  exactly when no origin is recorded, when it is \<open>cluster/<source>\<close>, or when it is that tenant's own
  \<open>tenant/<tenant>/<source>\<close>; anything else, an origin that cannot be read included, is refused.
  Platform trust is refused exactly to a profile of some tenant's own catalog.
\<close>

theorem origin_confines_profile:
  "(OwnedByAnother q p u = None \<longleftrightarrow>
      (let v = TrimSpace (at_key (cp_Annotations p) OriginAnnotation)
       in v = [] \<or> (\<exists>s. originName s \<and> v = ClusterOrigin s) \<or>
          (\<exists>s. originName u \<and> originName s \<and> v = TenantOrigin u s))) \<and>
   (PlatformTierFromTenant q p \<noteq> None \<longleftrightarrow>
      cp_TrustTier p = TrustTierPlatform \<and>
      (\<exists>t s. originName t \<and> originName s \<and>
         TrimSpace (at_key (cp_Annotations p) OriginAnnotation) = TenantOrigin t s))"
proof -
  have "PlatformTierFromTenant q p \<noteq> None \<longleftrightarrow> cp_TrustTier p = TrustTierPlatform \<and>
      (\<exists>og. ParseOrigin (at_key (cp_Annotations p) OriginAnnotation) = Inr og \<and> og_Tenant og \<noteq> [])"
    by (auto simp: PlatformTierFromTenant_def split: sum.splits)
  also have "\<dots> \<longleftrightarrow> cp_TrustTier p = TrustTierPlatform \<and>
      (\<exists>t s. originName t \<and> originName s \<and>
         TrimSpace (at_key (cp_Annotations p) OriginAnnotation) = TenantOrigin t s)"
    unfolding ParseOrigin_ex by (simp add: originName_def) blast
  finally have "PlatformTierFromTenant q p \<noteq> None \<longleftrightarrow> cp_TrustTier p = TrustTierPlatform \<and>
      (\<exists>t s. originName t \<and> originName s \<and>
         TrimSpace (at_key (cp_Annotations p) OriginAnnotation) = TenantOrigin t s)" .
  moreover have "OwnedByAnother q p u = None \<longleftrightarrow> UsableBy (at_key (cp_Annotations p) OriginAnnotation) u"
    by (simp add: OwnedByAnother_def Let_def split: sum.splits)
  ultimately show ?thesis by (simp only: UsableBy_iff Let_def)
qed

end
