(* ===== verification/Hostnames.thy ===== *)
theory Hostnames
  imports Profile_Origin
begin

section \<open>Address names an app may not take\<close>

text \<open>
  \<open>internal/hostnames/hostnames.go\<close>: the two tiers of reserved labels, the check of a profile's
  entries against them, and who is admitted to a reserved label; and the patterns of
  \<open>internal/issuerpattern/issuerpattern.go\<close>, which issuers are held to.
  \<^item> \<open>ul\<close> is Unicode's lower case of a string that is not ASCII, and \<open>q\<close> is the verb
    \<open>%q\<close> of package \<open>fmt\<close>; both are arguments.
  \<^item> A pointer into a tier is the entry it points to.
\<close>

subsection \<open>Definitions\<close>

record reserved =
  rs_Label :: string
  rs_Owner :: string
  rs_FromClusterCatalogue :: bool
  rs_Why :: string

definition kept :: "string \<Rightarrow> string \<Rightarrow> reserved" where
  "kept label why = \<lparr>rs_Label = label, rs_Owner = [], rs_FromClusterCatalogue = False, rs_Why = why\<rparr>"

definition platformLabels :: "reserved list" where
  "platformLabels =
     [\<lparr>rs_Label = ''desktop'', rs_Owner = ''desktop'', rs_FromClusterCatalogue = False,
        rs_Why = ''the tenant's desktop''\<rparr>,
      \<lparr>rs_Label = ''admin'', rs_Owner = ''admin-console'', rs_FromClusterCatalogue = False,
        rs_Why = ''the tenant's administration console''\<rparr>,
      \<lparr>rs_Label = ''store'', rs_Owner = ''app-store'', rs_FromClusterCatalogue = True,
        rs_Why = ''the App Store app''\<rparr>,
      kept ''console'' ''the desktop's former address, which people may still type'',
      kept PlatformTenantName ''reads as the platform administrator's desktop, platform.<cluster>'',
      kept ''id'' ''reads as the identity provider, id.<cluster>'',
      kept ''auth'' ''a name a sign-in page would have'',
      kept ''login'' ''a name a sign-in page would have'',
      kept ''signin'' ''a name a sign-in page would have'',
      kept ''sign-in'' ''a name a sign-in page would have'',
      kept ''sso'' ''a name a sign-in page would have'',
      kept ''account'' ''a name a page for one's account and password would have'',
      kept ''accounts'' ''a name a page for one's account and password would have'']"

definition kernelLabels :: "reserved list" where
  "kernelLabels =
     [kept ''argocd'' ''the GitOps console'',
      kept ''headlamp'' ''the cluster console'',
      kept ''id'' ''the identity provider'',
      kept ''imap'' ''the cluster's mail host for reading mail'',
      kept ''llm'' ''the model gateway'',
      kept ''mail'' ''the cluster's mail host'',
      kept ''mail-egress'' ''the address the cluster's mail leaves from'',
      kept ''monitoring'' ''the platform's metrics dashboards, where monitoring is on'',
      kept PlatformTenantName
        ''the platform administrator's desktop, and the platform tenant's zone below it'',
      kept ''www'' ''an alias of the cluster's main address'']"

definition Names :: "reserved list \<Rightarrow> string" where
  "Names tier = Join (map rs_Label tier) '', ''"

fun match_loop :: "reserved list \<Rightarrow> string \<Rightarrow> reserved option" where
  "match_loop [] label = None"
| "match_loop (r # tier) label =
     (if label = rs_Label r \<or> HasSuffix label (''.'' @ rs_Label r) then Some r else match_loop tier label)"

definition match :: "(string \<Rightarrow> string) \<Rightarrow> reserved list \<Rightarrow> string \<Rightarrow> reserved option" where
  "match ul tier label = match_loop tier (ToLower ul (TrimSpace label))"

definition Kept :: "(string \<Rightarrow> string) \<Rightarrow> string \<Rightarrow> reserved option" where
  "Kept ul label =
     (case match ul kernelLabels label of Some r \<Rightarrow> Some r | None \<Rightarrow> match ul platformLabels label)"

subsubsection \<open>Where a profile comes from\<close>

definition PlatformShipped :: "component_profile option \<Rightarrow> bool" where
  "PlatformShipped p \<longleftrightarrow>
     (case p of
        None \<Rightarrow> False
      | Some p \<Rightarrow>
          TrimSpace (at_key (cp_Annotations p) OriginAnnotation) = [] \<and>
          TrimSpace (at_key (cp_Annotations p) BundleAnnotation) = [])"

definition fromClusterCatalogue :: "component_profile \<Rightarrow> bool" where
  "fromClusterCatalogue p \<longleftrightarrow>
     HasPrefix (TrimSpace (at_key (cp_Annotations p) OriginAnnotation)) (ClusterOrigin []) \<and>
     TrimSpace (at_key (cp_Annotations p) BundleAnnotation) \<noteq> []"

subsubsection \<open>The check\<close>

record names_zone =
  nz_OnClusterDomain :: bool
  nz_Domain :: string

record refusal =
  rf_Exposure :: string
  rf_Label :: string
  rf_Reserved :: reserved
  rf_Kernel :: bool
  rf_domain :: string

definition LabelProfileEdition :: string where
  "LabelProfileEdition = ''gentianos.io/profile-edition''"

definition ownedBy :: "component_profile \<Rightarrow> string \<Rightarrow> bool" where
  "ownedBy p owner \<longleftrightarrow>
     cp_Name p = owner \<or>
     (let edition = at_key (cp_Labels p) LabelProfileEdition
      in edition \<in> {''ce'', ''me'', ''ie'', ''pe'', ''ee''} \<and> cp_Name p = owner @ ''-'' @ edition)"

definition Message :: "(string \<Rightarrow> string) \<Rightarrow> refusal \<Rightarrow> string" where
  "Message q r =
     (let domain = (if rf_domain r = [] then ''<the tenant's domain>'' else rf_domain r)
      in if rf_Kernel r then
           ''exposure '' @ q (rf_Exposure r) @ '' would answer on '' @ rf_Label r @ ''.'' @ domain @
           '', and '' @ rs_Label (rf_Reserved r) @ ''.'' @ domain @
           '' is the platform's own address on this cluster ('' @ rs_Why (rf_Reserved r) @ ''): '' @
           ''its tenancy mode is single, so this tenant's hosts are directly under the cluster's domain. '' @
           ''The names a component may not take here are: '' @ Names kernelLabels
         else
           (let who = (if rs_Owner (rf_Reserved r) \<noteq> []
                       then ''only the platform's own component for it, '' @ rs_Owner (rf_Reserved r) @
                            '', may take it''
                       else ''nothing may take it'')
            in ''exposure '' @ q (rf_Exposure r) @ '' would answer on '' @ rf_Label r @ ''.'' @ domain @
               '', and '' @ rs_Label (rf_Reserved r) @
               '' is an address name the platform keeps in every tenant ('' @ rs_Why (rf_Reserved r) @
               ''): '' @ who @ ''. '' @
               ''Give the exposure another subDomain. The names an app may not take are: '' @
               Names platformLabels))"

text \<open>The label an entry's host is built from: its subDomain, or the component's name.\<close>

definition labelOf :: "string \<Rightarrow> exposure_spec \<Rightarrow> string" where
  "labelOf component e = (if ex_SubDomain e = [] then component else ex_SubDomain e)"

definition checkEntry ::
  "(string \<Rightarrow> string) \<Rightarrow> string \<Rightarrow> component_profile \<Rightarrow> names_zone \<Rightarrow> exposure_spec \<Rightarrow> refusal option" where
  "checkEntry ul component p zone e =
     (let label = labelOf component e;
          refused = (\<lambda>r kernel. \<lparr>rf_Exposure = ex_Name e, rf_Label = label, rf_Reserved = r,
            rf_Kernel = kernel, rf_domain = nz_Domain zone\<rparr>)
      in case (if nz_OnClusterDomain zone then match ul kernelLabels label else None) of
           Some r \<Rightarrow> Some (refused r True)
         | None \<Rightarrow>
             (case match ul platformLabels label of
                None \<Rightarrow> None
              | Some r \<Rightarrow>
                  (let admitted = PlatformShipped (Some p) \<or>
                         (rs_FromClusterCatalogue r \<and> fromClusterCatalogue p);
                       own = admitted \<and> rs_Owner r \<noteq> [] \<and> ownedBy p (rs_Owner r) \<and> label = rs_Label r
                   in if own then None else Some (refused r False))))"

fun checkNames_loop ::
  "(string \<Rightarrow> string) \<Rightarrow> string \<Rightarrow> component_profile \<Rightarrow> names_zone \<Rightarrow> exposure_spec list \<Rightarrow> refusal option" where
  "checkNames_loop ul component p zone [] = None"
| "checkNames_loop ul component p zone (e # es) =
     (if ex_Apex e \<or> ex_Backend_Component e \<noteq> [] \<and> ex_Backend_Component e \<noteq> component
      then checkNames_loop ul component p zone es
      else
        (case checkEntry ul component p zone e of
           Some r \<Rightarrow> Some r
         | None \<Rightarrow> checkNames_loop ul component p zone es))"

definition checkNames ::
  "(string \<Rightarrow> string) \<Rightarrow> string \<Rightarrow> component_profile option \<Rightarrow> names_zone \<Rightarrow> refusal option" where
  "checkNames ul component p zone =
     (case p of None \<Rightarrow> None | Some p \<Rightarrow> checkNames_loop ul component p zone (cp_Expose p))"

subsubsection \<open>Issuer patterns\<close>

text \<open>
  The regular expression \<open>compile\<close> builds: the pattern's pieces, each quoted, with \<open>.*\<close>
  between two of them and anchored at both ends. \<open>.\<close> is any character but a newline. Each piece
  begins with a whole character, so that reading bytes finds the same matches.
\<close>

datatype glob_item = Literal char | AnyRun

fun compile_parts :: "string list \<Rightarrow> glob_item list" where
  "compile_parts [] = []"
| "compile_parts [p] = map Literal p"
| "compile_parts (p # q # ps) = map Literal p @ AnyRun # compile_parts (q # ps)"

definition compile :: "string \<Rightarrow> glob_item list" where
  "compile pattern = compile_parts (Split pattern (CHR ''*''))"

function MatchString :: "glob_item list \<Rightarrow> string \<Rightarrow> bool" where
  "MatchString [] s = (s = [])"
| "MatchString (Literal c # items) s = (case s of [] \<Rightarrow> False | x # xs \<Rightarrow> x = c \<and> MatchString items xs)"
| "MatchString (AnyRun # items) s =
     (MatchString items s \<or>
      (case s of [] \<Rightarrow> False | x # xs \<Rightarrow> x \<noteq> CHR 0x0A \<and> MatchString (AnyRun # items) xs))"
  by pat_completeness auto
termination
  by (relation "measure (\<lambda>(items, s). length items + length s)") auto

fun Allowed :: "string list \<Rightarrow> string \<Rightarrow> bool" where
  "Allowed [] issuer = False"
| "Allowed (p # patterns) issuer = (MatchString (compile p) issuer \<or> Allowed patterns issuer)"

subsection \<open>Reserved labels\<close>

text \<open>The name a label takes: its last dotted part, trimmed and in lower case.\<close>

definition nameOf :: "(string \<Rightarrow> string) \<Rightarrow> string \<Rightarrow> string" where
  "nameOf ul label = last (Split (ToLower ul (TrimSpace label)) (CHR ''.''))"

definition dotless :: "reserved list \<Rightarrow> bool" where
  "dotless tier \<longleftrightarrow> list_all (\<lambda>r. CHR ''.'' \<notin> set (rs_Label r)) tier"

lemma tiers_dotless [simp]: "dotless platformLabels" "dotless kernelLabels"
  by (simp_all add: dotless_def platformLabels_def kernelLabels_def kept_def PlatformTenantName_def)

lemma match_loop_find:
  "dotless tier \<Longrightarrow> match_loop tier l = find (\<lambda>r. rs_Label r = last (Split l (CHR ''.''))) tier"
proof (induction tier)
  case (Cons r tier)
  then have "l = rs_Label r \<or> HasSuffix l (''.'' @ rs_Label r) \<longleftrightarrow> rs_Label r = last (Split l (CHR ''.''))"
    using last_segment_iff [of "CHR ''.''" "rs_Label r" l] by (auto simp: dotless_def)
  then show ?case using Cons by (simp add: dotless_def)
qed simp

lemma match_find: "dotless tier \<Longrightarrow> match ul tier label = find (\<lambda>r. rs_Label r = nameOf ul label) tier"
  by (simp add: match_def match_loop_find nameOf_def)

lemma match_None: "dotless tier \<Longrightarrow> match ul tier label = None \<longleftrightarrow> nameOf ul label \<notin> rs_Label ` set tier"
  by (simp add: match_find find_None_iff image_iff) metis

text \<open>Which entries the check looks at, and who is admitted to a name kept in every tenant.\<close>

definition answersFor :: "string \<Rightarrow> exposure_spec \<Rightarrow> bool" where
  "answersFor component e \<longleftrightarrow> \<not> ex_Apex e \<and> (ex_Backend_Component e = [] \<or> ex_Backend_Component e = component)"

definition admittedTo :: "component_profile \<Rightarrow> string \<Rightarrow> bool" where
  "admittedTo p name \<longleftrightarrow>
     name = ''desktop'' \<and> PlatformShipped (Some p) \<and> ownedBy p ''desktop'' \<or>
     name = ''admin'' \<and> PlatformShipped (Some p) \<and> ownedBy p ''admin-console'' \<or>
     name = ''store'' \<and> (PlatformShipped (Some p) \<or> fromClusterCatalogue p) \<and> ownedBy p ''app-store''"

definition entryAdmitted ::
  "(string \<Rightarrow> string) \<Rightarrow> string \<Rightarrow> component_profile \<Rightarrow> names_zone \<Rightarrow> exposure_spec \<Rightarrow> bool" where
  "entryAdmitted ul component p zone e \<longleftrightarrow>
     (nz_OnClusterDomain zone \<longrightarrow> nameOf ul (labelOf component e) \<notin> rs_Label ` set kernelLabels) \<and>
     (nameOf ul (labelOf component e) \<in> rs_Label ` set platformLabels \<longrightarrow>
        labelOf component e = nameOf ul (labelOf component e) \<and> admittedTo p (labelOf component e))"

lemma platform_tier:
  "find (\<lambda>r. rs_Label r = name) platformLabels = Some r \<Longrightarrow>
     rs_Label r = name \<and>
     ((PlatformShipped (Some p) \<or> rs_FromClusterCatalogue r \<and> fromClusterCatalogue p) \<and>
      rs_Owner r \<noteq> [] \<and> ownedBy p (rs_Owner r) \<longleftrightarrow> admittedTo p name)"
proof -
  assume f: "find (\<lambda>r. rs_Label r = name) platformLabels = Some r"
  have "\<forall>r \<in> set platformLabels.
      (PlatformShipped (Some p) \<or> rs_FromClusterCatalogue r \<and> fromClusterCatalogue p) \<and>
      rs_Owner r \<noteq> [] \<and> ownedBy p (rs_Owner r) \<longleftrightarrow> admittedTo p (rs_Label r)"
    by (simp add: platformLabels_def kept_def PlatformTenantName_def admittedTo_def)
  then show ?thesis using f by (auto simp: find_Some_iff)
qed

lemma checkEntry_None: "checkEntry ul component p zone e = None \<longleftrightarrow> entryAdmitted ul component p zone e"
proof -
  let ?l = "labelOf component e" and ?n = "nameOf ul (labelOf component e)"
  have k: "match ul kernelLabels ?l = None \<longleftrightarrow> ?n \<notin> rs_Label ` set kernelLabels" by (rule match_None) simp
  show ?thesis
  proof (cases "nz_OnClusterDomain zone \<and> ?n \<in> rs_Label ` set kernelLabels")
    case True
    then obtain r where "match ul kernelLabels ?l = Some r" using k by (cases "match ul kernelLabels ?l") auto
    then show ?thesis using True by (simp add: checkEntry_def entryAdmitted_def)
  next
    case False
    then have none: "(if nz_OnClusterDomain zone then match ul kernelLabels ?l else None) = None" using k by simp
    show ?thesis
    proof (cases "match ul platformLabels ?l")
      case None
      then show ?thesis
        using False match_None [of platformLabels ul ?l]
        unfolding checkEntry_def entryAdmitted_def Let_def none None by (auto simp: option.case)
    next
      case (Some r)
      then have f: "find (\<lambda>r. rs_Label r = ?n) platformLabels = Some r" by (simp add: match_find)
      have "?n \<in> rs_Label ` set platformLabels"
        using match_None [of platformLabels ul ?l] Some by auto
      then show ?thesis
        using False platform_tier [OF f, of p] unfolding checkEntry_def entryAdmitted_def Let_def none Some
        by (auto simp: option.case)
    qed
  qed
qed

lemma checkNames_None:
  "checkNames ul component (Some p) zone = None \<longleftrightarrow>
     (\<forall>e \<in> set (cp_Expose p). answersFor component e \<longrightarrow> entryAdmitted ul component p zone e)"
proof -
  have "checkNames_loop ul component p zone es = None \<longleftrightarrow>
      (\<forall>e \<in> set es. answersFor component e \<longrightarrow> checkEntry ul component p zone e = None)" for es
    by (induction es) (auto simp: answersFor_def split: option.splits)
  then show ?thesis by (simp add: checkNames_def checkEntry_None)
qed

lemma checkNames_Some:
  "checkNames ul component (Some p) zone = Some r \<Longrightarrow>
     \<exists>e \<in> set (cp_Expose p). answersFor component e \<and> \<not> entryAdmitted ul component p zone e \<and>
       rf_Exposure r = ex_Name e \<and> rf_Label r = labelOf component e \<and> rf_domain r = nz_Domain zone"
proof -
  have entry: "rf_Exposure r = ex_Name e \<and> rf_Label r = labelOf component e \<and> rf_domain r = nz_Domain zone"
    if "checkEntry ul component p zone e = Some r" for e
    using that by (auto simp: checkEntry_def Let_def split: option.splits if_splits)
  have "checkNames_loop ul component p zone es = Some r \<Longrightarrow>
      \<exists>e \<in> set es. answersFor component e \<and> checkEntry ul component p zone e = Some r" for es
    by (induction es) (auto simp: answersFor_def split: if_splits option.splits)
  moreover assume "checkNames ul component (Some p) zone = Some r"
  ultimately obtain e where "e \<in> set (cp_Expose p)" "answersFor component e" "checkEntry ul component p zone e = Some r"
    by (auto simp: checkNames_def)
  then show ?thesis using entry [of e] checkEntry_None [of ul component p zone e] by (intro bexI [of _ e]) auto
qed

text \<open>
  C33. Which names an app may take. A profile passes the check exactly when none of its own entries takes
  a name kept in every tenant, in any case or below it, except the desktop, the administration
  console and the App Store at exactly their own label, each from where the platform takes it; and
  on the cluster's own domain none takes a name of the kernel at all. A refusal names an entry of
  the profile that does.
\<close>

theorem reserved_names_only_for_their_owner:
  "(case checkNames ul component (Some p) zone of
      None \<Rightarrow>
        \<forall>e. e \<in> set (cp_Expose p) \<and> answersFor component e \<longrightarrow>
          \<not> (nz_OnClusterDomain zone \<and> nameOf ul (labelOf component e) \<in> rs_Label ` set kernelLabels) \<and>
          (nameOf ul (labelOf component e) \<in> rs_Label ` set platformLabels \<longrightarrow>
             labelOf component e = nameOf ul (labelOf component e) \<and> admittedTo p (labelOf component e))
    | Some r \<Rightarrow>
        \<exists>e. e \<in> set (cp_Expose p) \<and> answersFor component e \<and> rf_Exposure r = ex_Name e \<and>
          rf_Label r = labelOf component e \<and>
          (nz_OnClusterDomain zone \<and> nameOf ul (rf_Label r) \<in> rs_Label ` set kernelLabels \<or>
           nameOf ul (rf_Label r) \<in> rs_Label ` set platformLabels \<and>
             (rf_Label r \<noteq> nameOf ul (rf_Label r) \<or> \<not> admittedTo p (rf_Label r))))"
proof (cases "checkNames ul component (Some p) zone")
  case None
  then show ?thesis using checkNames_None [of ul component p zone] by (simp add: entryAdmitted_def)
next
  case (Some r)
  from checkNames_Some [OF Some] show ?thesis unfolding Some option.case entryAdmitted_def by metis
qed

definition sampleStore :: component_profile where
  "sampleStore = (blankProfile ''app-store-pe'')\<lparr>
     cp_Annotations := [(OriginAnnotation, ''cluster/default''), (BundleAnnotation, ''AAAA'')],
     cp_Labels := [(LabelProfileEdition, ''pe'')], cp_TrustTier := ''community'',
     cp_Expose := [\<lparr>ex_Name = ''web'', ex_Surface = ''gateway'', ex_AuthMode = ''oidc'', ex_SubDomain = ''store'',
       ex_Apex = False, ex_Paths = [], ex_DenyPaths = [], ex_ForwardToken = False, ex_ExchangeToken = False,
       ex_ClientAuthorization = [], ex_Annotations = [], ex_Backend_Component = []\<rparr>]\<rparr>"

lemma TrimSpace_store [simp]: "TrimSpace ''store'' = ''store''" "TrimSpace ''cluster/default'' = ''cluster/default''"
  "TrimSpace ''AAAA'' = ''AAAA''"
  by (simp_all add: TrimSpace_id graphic_def)

theorem reserved_names_only_for_their_owner_witness:
  "checkNames id ''store-1'' (Some sampleStore) \<lparr>nz_OnClusterDomain = True, nz_Domain = ''acme.org''\<rparr> = None \<and>
   admittedTo sampleStore ''store''"
proof -
  let ?zone = "\<lparr>nz_OnClusterDomain = True, nz_Domain = ''acme.org''\<rparr>"
  have c: "checkNames id ''store-1'' (Some sampleStore) ?zone = None"
    by (simp add: checkNames_def sampleStore_def blankProfile_def checkEntry_def labelOf_def match_def ToLower_def is_ascii_def
        kernelLabels_def platformLabels_def kept_def PlatformTenantName_def HasSuffix_def suffix_def lower_char_def
        PlatformShipped_def fromClusterCatalogue_def at_key_def OriginAnnotation_def BundleAnnotation_def
        ClusterOrigin_def HasPrefix_def ownedBy_def LabelProfileEdition_def)
  moreover have "nameOf id ''store'' = ''store''"
    by (simp add: nameOf_def ToLower_def is_ascii_def lower_char_def)
  ultimately show ?thesis
    using reserved_names_only_for_their_owner
        [where ul = id and component = "''store-1''" and p = sampleStore and zone = ?zone]
    by (simp add: sampleStore_def blankProfile_def labelOf_def answersFor_def platformLabels_def)
qed

subsection \<open>Issuer patterns\<close>

text \<open>The pieces of a pattern with a run between each two of them.\<close>

fun fill :: "string list \<Rightarrow> string list \<Rightarrow> string" where
  "fill (p # ps) (r # rs) = p @ r @ fill ps rs"
| "fill ps [] = concat ps"
| "fill [] rs = []"

lemma MatchString_literals:
  "MatchString (map Literal p @ items) s \<longleftrightarrow> (\<exists>t. s = p @ t \<and> MatchString items t)"
  by (induction p arbitrary: s) (auto split: list.split)

lemma MatchString_run:
  "MatchString (AnyRun # items) s \<longleftrightarrow> (\<exists>r t. s = r @ t \<and> CHR 0x0A \<notin> set r \<and> MatchString items t)"
proof (induction s)
  case (Cons x s)
  show ?case (is "?l \<longleftrightarrow> (\<exists>r t. ?ok r t)")
  proof
    assume ?l
    then consider "MatchString items (x # s)" | r t where "x \<noteq> CHR 0x0A" "s = r @ t" "CHR 0x0A \<notin> set r" "MatchString items t"
      using Cons by auto
    then show "\<exists>r t. ?ok r t"
    proof cases
      case 1
      then show ?thesis by (intro exI [of _ "[]"] exI [of _ "x # s"]) simp
    next
      case (2 r t)
      then show ?thesis by (intro exI [of _ "x # r"] exI [of _ t]) simp
    qed
  next
    assume "\<exists>r t. ?ok r t"
    then obtain r t where ok: "?ok r t" by blast
    then show ?l using Cons by (cases r) auto
  qed
qed simp

lemma MatchString_parts:
  "ps \<noteq> [] \<Longrightarrow> MatchString (compile_parts ps) s \<longleftrightarrow>
     (\<exists>rs. length rs = length ps - 1 \<and> (\<forall>r \<in> set rs. CHR 0x0A \<notin> set r) \<and> s = fill ps rs)"
proof (induction ps arbitrary: s rule: compile_parts.induct)
  case (2 p)
  then show ?case using MatchString_literals [of p "[]" s] by auto
next
  case (3 p p' ps)
  have "MatchString (compile_parts (p # p' # ps)) s \<longleftrightarrow>
      (\<exists>r t. s = p @ r @ t \<and> CHR 0x0A \<notin> set r \<and> MatchString (compile_parts (p' # ps)) t)"
    by (simp add: MatchString_literals MatchString_run del: MatchString.simps) blast
  also have "\<dots> \<longleftrightarrow> (\<exists>r rs. length rs = length ps \<and> CHR 0x0A \<notin> set r \<and> (\<forall>r \<in> set rs. CHR 0x0A \<notin> set r) \<and>
      s = p @ r @ fill (p' # ps) rs)"
    using 3 by auto
  also have "\<dots> \<longleftrightarrow> (\<exists>rs. length rs = Suc (length ps) \<and> (\<forall>r \<in> set rs. CHR 0x0A \<notin> set r) \<and> s = fill (p # p' # ps) rs)"
    by (auto simp: length_Suc_conv) (metis fill.simps(1) list.set_intros set_ConsD)+
  finally show ?case by simp
qed simp

text \<open>
  An issuer is allowed exactly when it is one of the patterns with every star filled in by some run
  of characters other than a newline, and nothing before, after or between changed.
\<close>

theorem issuer_allowed_iff:
  "Allowed patterns issuer \<longleftrightarrow>
     (\<exists>p rs. p \<in> set patterns \<and> length rs = length (Split p (CHR ''*'')) - 1 \<and>
        list_all (\<lambda>r. CHR 0x0A \<notin> set r) rs \<and> issuer = fill (Split p (CHR ''*'')) rs)"
  by (induction patterns) (auto simp: compile_def MatchString_parts list_all_iff)

end
