(* ===== verification/Addresses.thy ===== *)
theory Addresses
  imports Hostnames
begin

section \<open>Where an entry answers\<close>

text \<open>
  Package \<open>internal/addresses\<close>: the zone of a tenant and the host of an entry (\<open>zone.go\<close>), which
  surface holds the cluster's main address (\<open>main_address.go\<close>) and the rate a published entry is
  held to (\<open>perimeter_rate.go\<close>).
  The operator and the director both ask here, of the same inputs.
  \<^item> \<open>ul\<close> and \<open>q\<close> are Unicode's lower case and the verb \<open>%q\<close>, as in the theory of reserved names.
  \<^item> Times are nanoseconds since 1970 and \<open>in.Now\<close> is one of the inputs.
\<close>

subsection \<open>Zones and hosts\<close>

definition DesktopLabel :: string where
  "DesktopLabel = ''desktop''"

record zone =
  z_Domain :: string
  z_Kernel :: bool
  z_Apex :: string

definition AdoptsKernelRealm :: "tenant \<Rightarrow> string \<Rightarrow> bool" where
  "AdoptsKernelRealm t kernelRealm \<longleftrightarrow> kernelRealm \<noteq> [] \<and> RealmName t = kernelRealm"

definition ZoneOf :: "tenant \<Rightarrow> string \<Rightarrow> string \<Rightarrow> string \<Rightarrow> zone" where
  "ZoneOf t kernelDomain tenancyMode kernelRealm =
     (let domain = EffectiveDomain t kernelDomain tenancyMode
      in if AdoptsKernelRealm t kernelRealm
         then \<lparr>z_Domain = domain, z_Kernel = True, z_Apex = kernelDomain\<rparr>
         else \<lparr>z_Domain = domain, z_Kernel = False, z_Apex = []\<rparr>)"

definition Host :: "zone \<Rightarrow> string \<Rightarrow> exposure_spec \<Rightarrow> string" where
  "Host z component e =
     (if z_Domain z = [] then []
      else if ex_Apex e then z_Apex z
      else
        (let sub = (if ex_SubDomain e = [] then component else ex_SubDomain e)
         in if z_Kernel z \<and> sub = DesktopLabel then z_Domain z else sub @ ''.'' @ z_Domain z))"

definition PerimeterHost ::
  "zone \<Rightarrow> string \<Rightarrow> exposure_spec \<Rightarrow> bool \<Rightarrow> string \<Rightarrow> string \<Rightarrow> string \<times> bool" where
  "PerimeterHost z component e approvedForMain mainEntry mainHost =
     (let host = Host z component e
      in if \<not> z_Kernel z then
           (if ex_Apex e \<noteq> approvedForMain then ([], False)
            else if ex_Apex e \<and> mainEntry = ex_Name e then (mainHost, True)
            else (host, False))
         else (host, False))"

definition Prefixes :: "exposure_spec \<Rightarrow> string list" where
  "Prefixes e = sort (filter (\<lambda>p. p \<noteq> [] \<and> HasPrefix p ''/'') (map TrimSpace (ex_Paths e)))"

definition onClusterDomain :: "string \<Rightarrow> string \<Rightarrow> bool" where
  "onClusterDomain effectiveDomain kernelDomain \<longleftrightarrow> kernelDomain \<noteq> [] \<and> effectiveDomain = kernelDomain"

definition ReservedZone :: "zone \<Rightarrow> string \<Rightarrow> names_zone" where
  "ReservedZone z kernelDomain =
     \<lparr>nz_OnClusterDomain = (\<not> z_Kernel z \<and> onClusterDomain (z_Domain z) kernelDomain), nz_Domain = z_Domain z\<rparr>"

record perimeter_rate =
  PerSecond :: int
  Burst :: int
  Concurrent :: int

definition PerimeterRateFor :: "bool \<Rightarrow> perimeter_rate" where
  "PerimeterRateFor passCredential =
     (if passCredential then \<lparr>PerSecond = 5, Burst = 50, Concurrent = 20\<rparr>
      else \<lparr>PerSecond = 20, Burst = 200, Concurrent = 100\<rparr>)"

subsection \<open>The main address\<close>

definition BrandingPrefix :: string where
  "BrandingPrefix = ''/branding/''"

definition SignInPrefix :: string where
  "SignInPrefix = ''/sign-in''"

definition ReservedPrefixes :: "string list" where
  "ReservedPrefixes =
     [BrandingPrefix, SignInPrefix, ''/.well-known/acme-challenge/'', ''/.well-known/pki-validation/'']"

definition PlatformPrefixes :: "string list" where
  "PlatformPrefixes = filter (\<lambda>p. p \<noteq> SignInPrefix) ReservedPrefixes"

definition PathWithin :: "string \<Rightarrow> string \<Rightarrow> bool" where
  "PathWithin path pre \<longleftrightarrow>
     (let path = TrimSuffix path ''/''; pre = TrimSuffix pre ''/''
      in path = pre \<or> HasPrefix path (pre @ ''/''))"

text \<open>The first declared prefix inside a reserved one gives that reserved one.\<close>

fun reservedPath_loop :: "string list \<Rightarrow> string" where
  "reservedPath_loop [] = []"
| "reservedPath_loop (p # ps) =
     (case find (\<lambda>reserved. PathWithin p reserved) ReservedPrefixes of
        Some reserved \<Rightarrow> reserved
      | None \<Rightarrow> reservedPath_loop ps)"

definition reservedPath :: "exposure_spec \<Rightarrow> string" where
  "reservedPath e = reservedPath_loop (Prefixes e)"

record claim =
  c_Tenant :: string
  c_Install :: string
  c_Exposure :: string

definition claim_String :: "claim \<Rightarrow> string" where
  "claim_String c = c_Install c @ ''/'' @ c_Exposure c"

record inputs =
  in_Tenants :: "tenant list"
  in_Profiles :: "(string, component_profile) gomap"
  in_KernelDomain :: string
  in_KernelRealm :: string
  in_TenancyMode :: string
  in_MainAddressTenant :: string
  in_Now :: int

definition MainTenantName :: "inputs \<Rightarrow> string" where
  "MainTenantName inp = MainAddressTenant (in_TenancyMode inp) (in_MainAddressTenant inp)"

definition MainTenant :: "inputs \<Rightarrow> tenant option" where
  "MainTenant inp =
     (let name = MainTenantName inp
      in if name = [] then None
         else find (\<lambda>t. tn_DeletionTimestamp t = None \<and> tn_Name t = name \<and>
                \<not> AdoptsKernelRealm t (in_KernelRealm inp)) (in_Tenants inp))"

definition ApexEntry :: "component_profile option \<Rightarrow> string \<Rightarrow> exposure_spec option" where
  "ApexEntry p name =
     (case p of
        None \<Rightarrow> None
      | Some p \<Rightarrow> find (\<lambda>e. ex_Name e = name \<and> ex_Surface e = SurfacePerimeter \<and> ex_Apex e) (cp_Expose p))"

definition TenantPhaseReady :: string where
  "TenantPhaseReady = ''Ready''"

definition notMain :: "inputs \<Rightarrow> tenant \<Rightarrow> bool" where
  "notMain inp t \<longleftrightarrow> (case MainTenant inp of None \<Rightarrow> True | Some m \<Rightarrow> tn_Name m \<noteq> tn_Name t)"

definition Refusal :: "(string \<Rightarrow> string) \<Rightarrow> inputs \<Rightarrow> tenant \<Rightarrow> tenant_exposure \<Rightarrow> string \<times> string" where
  "Refusal q inp t e =
     (let it = te_Install e @ ''/'' @ te_ExposureName e
      in case ApexEntry (map_of (in_Profiles inp) (te_Install e)) (te_ExposureName e) of
           None \<Rightarrow> (''NotAMainAddressEntry'',
             it @ '' was published for the cluster's main address, but the profile does not declare it as a perimeter entry with apex: true. Nothing is published'')
         | Some entry \<Rightarrow>
             if \<not> ApprovedAs (Some entry) (te_Kind e) then (''ApprovedAsAnotherKind'',
               it @ '' was approved as another kind of entry than its profile declares now, and that approval does not cover it. Nothing is published'')
             else if \<not> te_Apex e then (''NotRequested'',
               it @ '' is declared for the cluster's main address and is published only when the approver says so (apex: true on the request). Nothing is published'')
             else if MainTenantName inp = [] then (''MultiTenancy'',
               ''this cluster's tenancy mode is multi and it names no tenant for its main address (mainAddress.tenant on the Cluster claim): the main address is the sign-in form and no tenant's website. Nothing is published'')
             else if in_MainAddressTenant inp \<noteq> [] \<and> notMain inp t then (''NotTheMainAddressTenant'',
               ''the cluster names the tenant '' @ q (in_MainAddressTenant inp) @
               '' for its main address (mainAddress.tenant on the Cluster claim), and only that tenant may put a website there. Nothing is published'')
             else if notMain inp t then (''NotTheUserTenant'',
               ''only the user tenant '' @ q SingleUserTenantName @
               '' may put a website on the cluster's main address. Nothing is published'')
             else if in_MainAddressTenant inp = [] \<and>
               \<not> onClusterDomain (EffectiveDomain t (in_KernelDomain inp) (in_TenancyMode inp)) (in_KernelDomain inp)
             then (''OwnDomain'',
               ''this tenant is on a domain of its own, so the cluster's main address is not its address. Nothing is published'')
             else if (case te_ExpiresAt e of None \<Rightarrow> False | Some at \<Rightarrow> \<not> in_Now inp < at) then (''Expired'',
               ''the approval of '' @ it @ '' for the main address has expired. Nothing is published'')
             else if Prefixes entry = [] then (''NoPaths'', it @ '' declares no paths, so it publishes nothing'')
             else if reservedPath entry \<noteq> [] then (''ReservedPath'',
               it @ '' declares a path inside '' @ reservedPath entry @
               '', which the platform keeps on the main address ('' @ Join ReservedPrefixes '', '' @
               ''). Nothing is published'')
             else if tn_Phase t \<noteq> TenantPhaseReady then (''TenantNotReady'',
               ''the tenant is not Ready yet; the main address changes once it is'')
             else ([], []))"

text \<open>A candidate is a claim and when it was published.\<close>

type_synonym candidate = "claim \<times> int option"

definition candidateLess :: "candidate \<Rightarrow> candidate \<Rightarrow> bool" where
  "candidateLess x y =
     (case (snd x, snd y) of
        (Some a, Some b) \<Rightarrow> if a \<noteq> b then a < b else claim_String (fst x) < claim_String (fst y)
      | (Some a, None) \<Rightarrow> True
      | (None, Some b) \<Rightarrow> False
      | (None, None) \<Rightarrow> claim_String (fst x) < claim_String (fst y))"

fun liveClaims :: "(string \<Rightarrow> string) \<Rightarrow> inputs \<Rightarrow> tenant \<Rightarrow> tenant_exposure list \<Rightarrow> candidate list" where
  "liveClaims q inp t [] = []"
| "liveClaims q inp t (e # es) =
     (if \<not> te_Apex e then liveClaims q inp t es
      else if fst (Refusal q inp t e) \<noteq> [] then liveClaims q inp t es
      else (\<lparr>c_Tenant = tn_Name t, c_Install = te_Install e, c_Exposure = te_ExposureName e\<rparr>, te_PublishedAt e) #
        liveClaims q inp t es)"

definition Holder :: "(string \<Rightarrow> string) \<Rightarrow> inputs \<Rightarrow> claim option" where
  "Holder q inp =
     (case MainTenant inp of
        None \<Rightarrow> None
      | Some t \<Rightarrow>
          (let live = liveClaims q inp t (tn_Exposures t)
           in if live = [] then None else Some (fst (hd (sortStable candidateLess live)))))"

record verdict =
  v_Entry :: string
  v_Reason :: string
  v_Message :: string

fun verdict_loop ::
  "(string \<Rightarrow> string) \<Rightarrow> inputs \<Rightarrow> claim option \<Rightarrow> tenant \<Rightarrow> string \<Rightarrow> tenant_exposure list \<Rightarrow>
     verdict \<times> bool \<Rightarrow> verdict \<times> bool" where
  "verdict_loop q inp holder t install [] acc = acc"
| "verdict_loop q inp holder t install (e # es) acc =
     (if te_Install e \<noteq> install then verdict_loop q inp holder t install es acc
      else if \<not> te_Apex e \<and> ApexEntry (map_of (in_Profiles inp) install) (te_ExposureName e) = None
      then verdict_loop q inp holder t install es acc
      else
        (let (reason, message) = Refusal q inp t e
         in if reason \<noteq> []
            then verdict_loop q inp holder t install es
              (\<lparr>v_Entry = [], v_Reason = reason, v_Message = message\<rparr>, True)
            else if holder = Some \<lparr>c_Tenant = tn_Name t, c_Install = install, c_Exposure = te_ExposureName e\<rparr>
            then (\<lparr>v_Entry = te_ExposureName e, v_Reason = ''Published'',
              v_Message = install @ ''/'' @ te_ExposureName e @
                '' is published on the cluster's main address, https://'' @ in_KernelDomain inp @
                ''/. The front page shows it once its proxy is up; '' @ Join ReservedPrefixes '', '' @
                '' on that address stay the platform's, and https://'' @ in_KernelDomain inp @ SignInPrefix @
                '' always leads to sign-in''\<rparr>, True)
            else verdict_loop q inp holder t install es
              (\<lparr>v_Entry = [], v_Reason = ''HeldByAnother'',
                v_Message = ''the cluster's main address is already held by '' @
                  (case holder of None \<Rightarrow> ''<nil>'' | Some c \<Rightarrow> claim_String c) @
                  '', and one surface holds it at a time. Withdraw that one first. Nothing is published''\<rparr>, True)))"

definition VerdictFor :: "(string \<Rightarrow> string) \<Rightarrow> inputs \<Rightarrow> tenant \<Rightarrow> string \<Rightarrow> verdict \<times> bool" where
  "VerdictFor q inp t install =
     verdict_loop q inp (Holder q inp) t install (tn_Exposures t)
       (\<lparr>v_Entry = [], v_Reason = [], v_Message = []\<rparr>, False)"

definition Resolve ::
  "(string \<Rightarrow> string) \<Rightarrow> (string \<Rightarrow> string) \<Rightarrow> inputs \<Rightarrow> tenant \<Rightarrow> string \<Rightarrow> exposure_spec \<Rightarrow> bool \<Rightarrow>
     string \<times> string" where
  "Resolve ul q inp t install entry approvedForMain =
     (let z = ZoneOf t (in_KernelDomain inp) (in_TenancyMode inp) (in_KernelRealm inp);
          it = install @ ''/'' @ ex_Name entry
      in case checkNames ul install (map_of (in_Profiles inp) install) (ReservedZone z (in_KernelDomain inp)) of
           Some r \<Rightarrow> ([], Message q r @ ''. Nothing is published'')
         | None \<Rightarrow>
             if Prefixes entry = [] then ([], it @ '' declares no paths, so it publishes nothing'')
             else
               (let (mainEntry, mainHost, mainWhy) =
                      (if \<not> z_Kernel z \<and> snd (VerdictFor q inp t install) then
                         (let v = fst (VerdictFor q inp t install)
                          in if v_Entry v \<noteq> [] then (v_Entry v, in_KernelDomain inp, v_Message v)
                             else ([], [], v_Message v))
                       else ([], [], []));
                    host = fst (PerimeterHost z install entry approvedForMain mainEntry mainHost)
                in if host \<noteq> [] then (host, [])
                   else if z_Domain z = []
                   then ([], ''this cluster declares no domain, so nothing has an address'')
                   else if ex_Apex entry \<and> \<not> approvedForMain
                   then ([], it @ '' is declared for the cluster's main address and is published only when the approver says so. Nothing is published'')
                   else if \<not> ex_Apex entry \<and> approvedForMain
                   then ([], it @ '' was approved for the cluster's main address, but the profile does not declare it for that address. Nothing is published'')
                   else if mainWhy \<noteq> [] then ([], mainWhy)
                   else ([], it @ '' is for the cluster's main address, which this tenant does not hold. Nothing is published'')))"

subsection \<open>Who holds the main address\<close>

definition claimOf :: "tenant \<Rightarrow> tenant_exposure \<Rightarrow> claim" where
  "claimOf t e = \<lparr>c_Tenant = tn_Name t, c_Install = te_Install e, c_Exposure = te_ExposureName e\<rparr>"

text \<open>What a surface needs to be on the main address, with only another claim left to stand in its way.\<close>

definition eligible :: "inputs \<Rightarrow> tenant \<Rightarrow> tenant_exposure \<Rightarrow> bool" where
  "eligible inp t e \<longleftrightarrow>
     (\<exists>entry. ApexEntry (map_of (in_Profiles inp) (te_Install e)) (te_ExposureName e) = Some entry \<and>
        ApprovedAs (Some entry) (te_Kind e) \<and> Prefixes entry \<noteq> [] \<and> reservedPath entry = []) \<and>
     te_Apex e \<and> MainTenantName inp \<noteq> [] \<and> \<not> notMain inp t \<and>
     (in_MainAddressTenant inp \<noteq> [] \<or>
        onClusterDomain (EffectiveDomain t (in_KernelDomain inp) (in_TenancyMode inp)) (in_KernelDomain inp)) \<and>
     (\<forall>at. te_ExpiresAt e = Some at \<longrightarrow> in_Now inp < at) \<and> tn_Phase t = TenantPhaseReady"

lemma Refusal_fst: "fst (Refusal q inp t e) = [] \<longleftrightarrow> eligible inp t e"
proof (cases "ApexEntry (map_of (in_Profiles inp) (te_Install e)) (te_ExposureName e)")
  case None
  then show ?thesis by (simp add: Refusal_def eligible_def)
next
  case (Some entry)
  then show ?thesis
    unfolding Refusal_def eligible_def Let_def Some option.case
    by (cases "te_ExpiresAt e") (simp_all split: if_split)
qed

lemma Refusal_reason: "fst (Refusal q inp t e) \<notin> {''Published'', ''HeldByAnother''}"
  unfolding Refusal_def Let_def by (simp split: option.split if_split)

lemma liveClaims_filter:
  "liveClaims q inp t es = map (\<lambda>e. (claimOf t e, te_PublishedAt e)) (filter (eligible inp t) es)"
  by (induction es) (auto simp: claimOf_def Refusal_fst eligible_def)

lemma candidateLess_asym: "candidateLess x y \<Longrightarrow> \<not> candidateLess y x"
  by (auto simp: candidateLess_def split: option.splits if_splits)

lemma candidateLess_trans: "candidateLess x y \<Longrightarrow> \<not> candidateLess z y \<Longrightarrow> candidateLess x z"
  by (auto simp: candidateLess_def split: option.splits if_splits)

lemma first_candidate: "y \<in> set xs \<Longrightarrow> \<not> candidateLess y (hd (sortStable candidateLess xs))"
  by (rule hd_sortStable_least) (blast intro: candidateLess_trans dest: candidateLess_asym)+

lemma Holder_Some:
  assumes "Holder q inp = Some c"
  obtains t e where "MainTenant inp = Some t" "e \<in> set (tn_Exposures t)" "eligible inp t e" "c = claimOf t e"
    "\<And>e'. e' \<in> set (tn_Exposures t) \<Longrightarrow> eligible inp t e' \<Longrightarrow>
       \<not> candidateLess (claimOf t e', te_PublishedAt e') (c, te_PublishedAt e)"
proof -
  obtain t where t: "MainTenant inp = Some t" using assms by (cases "MainTenant inp") (auto simp: Holder_def)
  define live where "live = liveClaims q inp t (tn_Exposures t)"
  have ne: "live \<noteq> []" and c: "c = fst (hd (sortStable candidateLess live))"
    using assms by (auto simp: Holder_def t live_def Let_def split: if_splits)
  have "hd (sortStable candidateLess live) \<in> set live"
    using ne by (metis hd_in_set set_sortStable sortStable_Nil)
  then obtain e where e: "e \<in> set (tn_Exposures t)" "eligible inp t e"
      and h: "hd (sortStable candidateLess live) = (claimOf t e, te_PublishedAt e)"
    by (auto simp: live_def liveClaims_filter)
  have "\<not> candidateLess (claimOf t e', te_PublishedAt e') (c, te_PublishedAt e)"
    if "e' \<in> set (tn_Exposures t)" "eligible inp t e'" for e'
    using first_candidate [of "(claimOf t e', te_PublishedAt e')" live] that h c
    by (auto simp: live_def liveClaims_filter)
  then show thesis using that t e h c by simp
qed

lemma Holder_None:
  "Holder q inp = None \<longleftrightarrow>
     (\<forall>t. MainTenant inp = Some t \<longrightarrow> (\<forall>e \<in> set (tn_Exposures t). \<not> eligible inp t e))"
  by (auto simp: Holder_def liveClaims_filter filter_empty_conv split: option.splits)

lemma MainTenant_in: "MainTenant inp = Some t \<Longrightarrow> t \<in> set (in_Tenants inp)"
  by (auto simp: MainTenant_def Let_def find_Some_iff split: if_splits)

lemma eligible_main:
  assumes "distinct (map tn_Name (in_Tenants inp))" "t \<in> set (in_Tenants inp)" "eligible inp t e"
  shows "MainTenant inp = Some t"
proof -
  obtain m where m: "MainTenant inp = Some m" "tn_Name m = tn_Name t"
    using assms(3) by (auto simp: eligible_def notMain_def split: option.splits)
  with assms(1,2) MainTenant_in [OF m(1)] have "m = t"
    by (auto simp: distinct_map dest: inj_onD)
  with m show ?thesis by simp
qed

lemma verdict_loop_published:
  assumes "v_Reason (fst acc) \<noteq> ''Published''"
  shows "v_Reason (fst (verdict_loop q inp holder t install es acc)) = ''Published'' \<and>
      v_Entry (fst (verdict_loop q inp holder t install es acc)) = x \<longleftrightarrow>
    (\<exists>e \<in> set es. te_Install e = install \<and> te_ExposureName e = x \<and> eligible inp t e \<and> holder = Some (claimOf t e))"
  using assms
proof (induction es arbitrary: acc)
  case (Cons e es)
  obtain reason message where r: "Refusal q inp t e = (reason, message)" by (cases "Refusal q inp t e")
  have ok: "reason = [] \<longleftrightarrow> eligible inp t e" using Refusal_fst [of q inp t e] by (simp add: r)
  have apex: "eligible inp t e \<Longrightarrow> te_Apex e" by (simp add: eligible_def)
  show ?case
  proof (cases "te_Install e = install \<and> eligible inp t e")
    case True
    then have c: "claimOf t e = \<lparr>c_Tenant = tn_Name t, c_Install = install, c_Exposure = te_ExposureName e\<rparr>"
      by (simp add: claimOf_def)
    show ?thesis
    proof (cases "holder = Some (claimOf t e)")
      case hold: True
      then show ?thesis using True apex ok
        by (auto simp: r c) (auto simp: claimOf_def)
    next
      case False
      then show ?thesis using True apex ok Cons.IH by (auto simp: r c)
    qed
  next
    case False
    then show ?thesis using ok Cons Refusal_reason [of q inp t e] by (auto simp: r)
  qed
qed simp

lemma verdict_loop_held:
  assumes "v_Reason (fst acc) \<noteq> ''HeldByAnother''"
    and "v_Reason (fst (verdict_loop q inp holder t install es acc)) = ''HeldByAnother''"
  shows "\<exists>e \<in> set es. te_Install e = install \<and> eligible inp t e"
  using assms
proof (induction es arbitrary: acc)
  case (Cons e es)
  obtain reason message where r: "Refusal q inp t e = (reason, message)" by (cases "Refusal q inp t e")
  have ok: "reason = [] \<longleftrightarrow> eligible inp t e" using Refusal_fst [of q inp t e] by (simp add: r)
  show ?case
  proof (cases "te_Install e = install \<and> eligible inp t e")
    case False
    have "\<exists>acc'. v_Reason (fst acc') \<noteq> ''HeldByAnother'' \<and>
        verdict_loop q inp holder t install (e # es) acc = verdict_loop q inp holder t install es acc'"
    proof (cases "te_Install e \<noteq> install \<or>
        \<not> te_Apex e \<and> ApexEntry (map_of (in_Profiles inp) install) (te_ExposureName e) = None")
      case True
      then show ?thesis using Cons.prems(1) by (intro exI [of _ acc]) auto
    next
      case go: False
      then show ?thesis
        using False ok Refusal_reason [of q inp t e]
        by (intro exI [of _ "(\<lparr>v_Entry = [], v_Reason = reason, v_Message = message\<rparr>, True)"]) (auto simp: r)
    qed
    then obtain acc' where "v_Reason (fst acc') \<noteq> ''HeldByAnother''"
        "verdict_loop q inp holder t install (e # es) acc = verdict_loop q inp holder t install es acc'" by blast
    then show ?thesis using Cons.prems(2) Cons.IH [of acc'] by (auto simp del: verdict_loop.simps)
  qed auto
qed simp

lemma published_iff_holder:
  assumes "distinct (map tn_Name (in_Tenants inp))" "t \<in> set (in_Tenants inp)"
  shows "v_Reason (fst (VerdictFor q inp t install)) = ''Published'' \<and> v_Entry (fst (VerdictFor q inp t install)) = x \<longleftrightarrow>
      Holder q inp = Some \<lparr>c_Tenant = tn_Name t, c_Install = install, c_Exposure = x\<rparr>"
proof -
  let ?c = "\<lparr>c_Tenant = tn_Name t, c_Install = install, c_Exposure = x\<rparr>"
  have pub: "v_Reason (fst (VerdictFor q inp t install)) = ''Published'' \<and> v_Entry (fst (VerdictFor q inp t install)) = x \<longleftrightarrow>
      (\<exists>e \<in> set (tn_Exposures t). te_Install e = install \<and> te_ExposureName e = x \<and> eligible inp t e \<and>
         Holder q inp = Some (claimOf t e))"
    unfolding VerdictFor_def by (rule verdict_loop_published) simp
  show ?thesis unfolding pub
  proof
    assume "Holder q inp = Some ?c"
    then obtain m e where m: "MainTenant inp = Some m" "e \<in> set (tn_Exposures m)" "eligible inp m e" "?c = claimOf m e"
      by (rule Holder_Some) blast
    then have "m = t"
      using assms MainTenant_in [OF m(1)] by (auto simp: claimOf_def distinct_map dest: inj_onD)
    then show "\<exists>e \<in> set (tn_Exposures t). te_Install e = install \<and> te_ExposureName e = x \<and> eligible inp t e \<and>
        Holder q inp = Some (claimOf t e)"
      using m \<open>Holder q inp = Some ?c\<close> by (auto simp: claimOf_def)
  qed (auto simp: claimOf_def)
qed

text \<open>A tenant with one website on the main address.\<close>

definition sampleEntry :: exposure_spec where
  "sampleEntry = \<lparr>ex_Name = ''web'', ex_Surface = ''perimeter'', ex_AuthMode = ''none'', ex_SubDomain = [],
     ex_Apex = True, ex_Paths = [''/''], ex_DenyPaths = [], ex_ForwardToken = False, ex_ExchangeToken = False,
     ex_ClientAuthorization = [], ex_Annotations = [], ex_Backend_Component = []\<rparr>"

definition sampleExposure :: tenant_exposure where
  "sampleExposure = \<lparr>te_Install = ''site'', te_ExposureName = ''web'', te_Kind = [], te_Owner = ''u'',
     te_ExpiresAt = None, te_ReviewAt = 9, te_Reason = [], te_PublishedAt = Some 1, te_LastReviewedBy = [],
     te_LastReviewedAt = None, te_Apex = True, te_ApexAcknowledgedBy = ''u'', te_ApexAcknowledgedAt = Some 1,
     te_Alias = ''shop'', te_AliasSetBy = ''a'', te_AliasSetAt = None\<rparr>"

definition sampleTenant :: tenant where
  "sampleTenant = (namedTenant ''acme'')\<lparr>tn_Exposures := [sampleExposure]\<rparr>"

definition sampleInputs :: inputs where
  "sampleInputs = \<lparr>in_Tenants = [sampleTenant],
     in_Profiles = [(''site'', (blankProfile ''site'')\<lparr>cp_Expose := [sampleEntry]\<rparr>)],
     in_KernelDomain = ''gtn.host'', in_KernelRealm = ''kernel'', in_TenancyMode = ''multi'',
     in_MainAddressTenant = ''acme'', in_Now = 5\<rparr>"

definition sampleClaim :: claim where
  "sampleClaim = \<lparr>c_Tenant = ''acme'', c_Install = ''site'', c_Exposure = ''web''\<rparr>"

lemma sample_holder: "Holder q sampleInputs = Some sampleClaim"
  by code_simp

lemma sample_tenants: "distinct (map tn_Name (in_Tenants sampleInputs))" "sampleTenant \<in> set (in_Tenants sampleInputs)"
  by (simp_all add: sampleInputs_def)

text \<open>
  C30. The three who act on the main address agree. For every tenant of the cluster and every component of
  it, the verdict its administrator reads says Published, for an entry, exactly when that entry is the
  holder every other part of the platform computes; and it never says the address is held by another
  when nobody holds it.
\<close>

theorem verdict_agrees_with_holder:
  assumes "distinct (map tn_Name (in_Tenants inp))" "t \<in> set (in_Tenants inp)"
  shows "(v_Reason (fst (VerdictFor q inp t install)) = ''Published'' \<and> v_Entry (fst (VerdictFor q inp t install)) = x \<longleftrightarrow>
      Holder q inp = Some \<lparr>c_Tenant = tn_Name t, c_Install = install, c_Exposure = x\<rparr>) \<and>
    (v_Reason (fst (VerdictFor q inp t install)) = ''HeldByAnother'' \<longrightarrow> Holder q inp \<noteq> None)"
proof (intro conjI impI published_iff_holder [OF assms])
  assume "v_Reason (fst (VerdictFor q inp t install)) = ''HeldByAnother''"
  then obtain e where "e \<in> set (tn_Exposures t)" "eligible inp t e"
    unfolding VerdictFor_def by (rule verdict_loop_held [rotated, THEN bexE]) auto
  then show "Holder q inp \<noteq> None" using eligible_main [OF assms] by (auto simp: Holder_None)
qed

theorem verdict_agrees_with_holder_witness:
  "v_Reason (fst (VerdictFor id sampleInputs sampleTenant ''site'')) = ''Published'' \<and>
   v_Entry (fst (VerdictFor id sampleInputs sampleTenant ''site'')) = ''web''"
  using verdict_agrees_with_holder [OF sample_tenants, of id "''site''" "''web''"] sample_holder [of id]
  by (simp add: sampleClaim_def sampleTenant_def namedTenant_def)

text \<open>A request for the main address that arrives: one more exposure on a tenant.\<close>

definition addTo :: "string \<Rightarrow> tenant_exposure \<Rightarrow> tenant \<Rightarrow> tenant" where
  "addTo n e t = (if tn_Name t = n then t\<lparr>tn_Exposures := tn_Exposures t @ [e]\<rparr> else t)"

definition withRequest :: "string \<Rightarrow> tenant_exposure \<Rightarrow> inputs \<Rightarrow> inputs" where
  "withRequest n e inp = inp\<lparr>in_Tenants := map (addTo n e) (in_Tenants inp)\<rparr>"

lemma addTo_simps [simp]:
  "tn_Name (addTo n e t) = tn_Name t" "tn_Phase (addTo n e t) = tn_Phase t"
  "tn_DeletionTimestamp (addTo n e t) = tn_DeletionTimestamp t"
  "AdoptsKernelRealm (addTo n e t) r = AdoptsKernelRealm t r"
  "EffectiveDomain (addTo n e t) k m = EffectiveDomain t k m"
  "claimOf (addTo n e t) = claimOf t"
  by (auto simp: addTo_def AdoptsKernelRealm_def RealmName_def EffectiveDomain_def OnClusterDomain_def claimOf_def
      split: option.split)

lemma find_map_same: "(\<And>x. P (f x) = P x) \<Longrightarrow> find P (map f xs) = map_option f (find P xs)"
  by (induction xs) auto

lemma MainTenant_withRequest: "MainTenant (withRequest n e inp) = map_option (addTo n e) (MainTenant inp)"
  by (simp add: MainTenant_def MainTenantName_def withRequest_def Let_def find_map_same)

lemma eligible_withRequest: "eligible (withRequest n e inp) (addTo n e t) = eligible inp t"
proof -
  have "notMain (withRequest n e inp) (addTo n e t) = notMain inp t"
    by (simp add: notMain_def MainTenant_withRequest split: option.split)
  then show ?thesis
    by (intro ext) (simp add: eligible_def MainTenantName_def, simp add: withRequest_def)
qed

text \<open>
  C31. A later request cannot take a running website off the main address: whatever a request says, and
  whichever tenant makes it, the holder stays the holder while everything published by the main
  tenant was published before it.
\<close>

theorem later_request_cannot_take:
  assumes "Holder q inp = Some c"
    and "\<And>m x. MainTenant inp = Some m \<Longrightarrow> x \<in> set (tn_Exposures m) \<Longrightarrow>
      \<exists>a. te_PublishedAt x = Some a \<and> (\<forall>b. te_PublishedAt e = Some b \<longrightarrow> a < b)"
  shows "Holder q (withRequest n e inp) = Some c"
proof -
  from assms(1) obtain m where m: "MainTenant inp = Some m" by (rule Holder_Some) blast
  define live where "live = liveClaims q inp m (tn_Exposures m)"
  have ne: "live \<noteq> []" and c: "c = fst (hd (sortStable candidateLess live))"
    using assms(1) by (auto simp: Holder_def m live_def Let_def split: if_splits)
  have "hd (sortStable candidateLess live) \<in> set live"
    using ne by (metis hd_in_set set_sortStable sortStable_Nil)
  then obtain x where x: "x \<in> set (tn_Exposures m)"
      and h: "hd (sortStable candidateLess live) = (claimOf m x, te_PublishedAt x)"
    by (auto simp: live_def liveClaims_filter)
  let ?new = "(claimOf m e, te_PublishedAt e)"
  have "\<not> candidateLess ?new (hd (sortStable candidateLess live))"
    using assms(2) [OF m x] unfolding h by (auto simp: candidateLess_def split: option.splits)
  then have keep: "hd (sortStable candidateLess (live @ [?new])) = hd (sortStable candidateLess live)"
    using ne by (intro hd_sortStable_snoc) (blast intro: candidateLess_trans dest: candidateLess_asym)+
  have "liveClaims q (withRequest n e inp) (addTo n e m) (tn_Exposures (addTo n e m)) =
      (if tn_Name m = n \<and> eligible inp m e then live @ [?new] else live)"
    by (simp add: liveClaims_filter eligible_withRequest live_def) (simp add: addTo_def)
  then show ?thesis
    using ne c keep by (simp add: Holder_def MainTenant_withRequest m)
qed

theorem later_request_cannot_take_witness:
  "Holder id (withRequest ''acme'' (sampleExposure\<lparr>te_Install := ''other'', te_PublishedAt := Some 2\<rparr>) sampleInputs) =
     Some sampleClaim"
proof (rule later_request_cannot_take [OF sample_holder])
  fix m x assume "MainTenant sampleInputs = Some m" "x \<in> set (tn_Exposures m)"
  moreover have "MainTenant sampleInputs = Some sampleTenant" by code_simp
  ultimately show "\<exists>a. te_PublishedAt x = Some a \<and>
      (\<forall>b. te_PublishedAt (sampleExposure\<lparr>te_Install := ''other'', te_PublishedAt := Some 2\<rparr>) = Some b \<longrightarrow> a < b)"
    by (auto simp: sampleTenant_def namedTenant_def sampleExposure_def)
qed

lemma PerimeterHost_apex:
  "\<not> z_Kernel z \<Longrightarrow> z_Apex z = [] \<Longrightarrow> ex_Apex entry \<Longrightarrow>
     fst (PerimeterHost z install entry approved mainEntry mainHost) =
       (if approved \<and> mainEntry = ex_Name entry then mainHost else [])"
  by (simp add: PerimeterHost_def Host_def Let_def)

lemma verdict_loop_entry:
  assumes "v_Entry (fst acc) = []" "v_Entry (fst (verdict_loop q inp holder t install es acc)) \<noteq> []"
  shows "v_Reason (fst (verdict_loop q inp holder t install es acc)) = ''Published'' \<and>
    snd (verdict_loop q inp holder t install es acc)"
  using assms
proof (induction q inp holder t install es acc rule: verdict_loop.induct)
  case (2 q inp holder t install e es acc)
  obtain reason message where r: "Refusal q inp t e = (reason, message)" by (cases "Refusal q inp t e")
  consider "te_Install e \<noteq> install"
    | "te_Install e = install" "\<not> te_Apex e \<and> ApexEntry (map_of (in_Profiles inp) install) (te_ExposureName e) = None"
    | "te_Install e = install" "\<not> (\<not> te_Apex e \<and> ApexEntry (map_of (in_Profiles inp) install) (te_ExposureName e) = None)"
    by blast
  then show ?case
  proof cases
    case 1
    then show ?thesis using 2(1,5,6) by simp
  next
    case skip: 2
    then show ?thesis using 2(2,5,6) by simp
  next
    case 3
    then show ?thesis using 2(3,4,5,6) by (auto simp: r split: if_splits)
  qed
qed simp

text \<open>The verdict as the host of a perimeter entry uses it.\<close>

lemma verdict_entry:
  assumes "distinct (map tn_Name (in_Tenants inp))" "t \<in> set (in_Tenants inp)" "x \<noteq> []"
  shows "snd (VerdictFor q inp t install) \<and> v_Entry (fst (VerdictFor q inp t install)) = x \<longleftrightarrow>
    Holder q inp = Some \<lparr>c_Tenant = tn_Name t, c_Install = install, c_Exposure = x\<rparr>"
proof -
  have "snd (VerdictFor q inp t install) \<and> v_Entry (fst (VerdictFor q inp t install)) = x \<longleftrightarrow>
      v_Reason (fst (VerdictFor q inp t install)) = ''Published'' \<and> v_Entry (fst (VerdictFor q inp t install)) = x"
    using assms(3) verdict_loop_entry [of "(\<lparr>v_Entry = [], v_Reason = [], v_Message = []\<rparr>, False)" q inp
        "Holder q inp" t install "tn_Exposures t"]
    by (auto simp: VerdictFor_def)
  then show ?thesis using published_iff_holder [OF assms(1,2)] by simp
qed

text \<open>
  C29. What a tenant's apex entry gets. Outside the platform tenant's zone such an entry is published
  exactly when its component takes no reserved name, it declares a path, the approver said so too and it
  is the holder of the main address; and then the host is the main address.
\<close>

theorem apex_entry_answers_iff_holder:
  assumes "distinct (map tn_Name (in_Tenants inp))" "t \<in> set (in_Tenants inp)"
    and "\<not> AdoptsKernelRealm t (in_KernelRealm inp)" "ex_Apex entry" "ex_Name entry \<noteq> []"
  shows "fst (Resolve ul q inp t install entry approved) =
    (if checkNames ul install (map_of (in_Profiles inp) install)
          (ReservedZone (ZoneOf t (in_KernelDomain inp) (in_TenancyMode inp) (in_KernelRealm inp)) (in_KernelDomain inp)) = None \<and>
        Prefixes entry \<noteq> [] \<and> approved \<and>
        Holder q inp = Some \<lparr>c_Tenant = tn_Name t, c_Install = install, c_Exposure = ex_Name entry\<rparr>
     then in_KernelDomain inp else [])"
proof -
  define z where "z = ZoneOf t (in_KernelDomain inp) (in_TenancyMode inp) (in_KernelRealm inp)"
  define v where "v = VerdictFor q inp t install"
  have z: "\<not> z_Kernel z" "z_Apex z = []" using assms(3) by (simp_all add: z_def ZoneOf_def)
  have h: "snd v \<and> v_Entry (fst v) = ex_Name entry \<longleftrightarrow>
      Holder q inp = Some \<lparr>c_Tenant = tn_Name t, c_Install = install, c_Exposure = ex_Name entry\<rparr>"
    unfolding v_def by (rule verdict_entry [OF assms(1,2,5)])
  show ?thesis
  proof (cases "checkNames ul install (map_of (in_Profiles inp) install) (ReservedZone z (in_KernelDomain inp))")
    case None
    then show ?thesis
      using z assms(4,5) unfolding h [symmetric]
      by (auto simp: Resolve_def PerimeterHost_apex Let_def split: prod.splits simp flip: z_def v_def)
  next
    case (Some r)
    then show ?thesis by (simp add: Resolve_def Let_def flip: z_def)
  qed
qed

theorem apex_entry_answers_iff_holder_witness:
  "fst (Resolve id id sampleInputs sampleTenant ''site'' sampleEntry True) = ''gtn.host''"
proof -
  have "checkNames id ''site'' (map_of (in_Profiles sampleInputs) ''site'')
      (ReservedZone (ZoneOf sampleTenant (in_KernelDomain sampleInputs) (in_TenancyMode sampleInputs)
         (in_KernelRealm sampleInputs)) (in_KernelDomain sampleInputs)) = None \<and> Prefixes sampleEntry \<noteq> []"
    by code_simp
  moreover have "\<not> AdoptsKernelRealm sampleTenant (in_KernelRealm sampleInputs)" by code_simp
  ultimately show ?thesis
    using apex_entry_answers_iff_holder [OF sample_tenants, of sampleEntry id id "''site''" True] sample_holder [of id]
    by (simp add: sampleClaim_def sampleTenant_def namedTenant_def sampleEntry_def sampleInputs_def)
qed

subsection \<open>Two readings of which tenant is the platform's\<close>

definition realmField :: "tenant \<Rightarrow> string" where
  "realmField t = (case tn_Isolation t of None \<Rightarrow> [] | Some i \<Rightarrow> iso_KeycloakRealm i)"


end
