(* ===== verification/Aliases.thy ===== *)
theory Aliases
  imports Addresses
begin

section \<open>Aliases under the cluster's domain\<close>

text \<open>
  \<open>internal/addresses/alias.go\<close>: the second address a published surface may have directly under the
  cluster's own domain, and which surface gets it where several carry one alias.
\<close>

subsection \<open>Definitions\<close>

definition aliasSetAt :: "tenant_exposure \<Rightarrow> string" where
  "aliasSetAt e = (case te_AliasSetAt e of None \<Rightarrow> [] | Some t \<Rightarrow> stamp t)"

text \<open>An \<open>aliasOrder\<close> is when it was set, the tenant, the install and the entry.\<close>

fun aliasBefore :: "string list \<Rightarrow> string list \<Rightarrow> bool" where
  "aliasBefore (a # as) (b # bs) = (if a \<noteq> b then a < b else aliasBefore as bs)"
| "aliasBefore as bs = False"

definition aliasOf :: "inputs \<Rightarrow> string \<Rightarrow> string \<Rightarrow> string \<Rightarrow> string \<times> string" where
  "aliasOf inp t install exposure =
     fold (\<lambda>u acc. if tn_Name u \<noteq> t then acc
       else fold (\<lambda>e acc. if te_Install e = install \<and> te_ExposureName e = exposure
         then (te_Alias e, aliasSetAt e) else acc) (tn_Exposures u) acc) (in_Tenants inp) ([], [])"

definition AliasHost :: "(string \<Rightarrow> string) \<Rightarrow> inputs \<Rightarrow> string \<Rightarrow> string \<Rightarrow> string \<Rightarrow> string" where
  "AliasHost ul inp t install exposure =
     (let (label, setAt) = aliasOf inp t install exposure;
          mine = [setAt, t, install, exposure]
      in if label = [] \<or> in_KernelDomain inp = [] then []
         else if NormalizeTenancyMode (in_TenancyMode inp) = TenancyModeSingle then []
         else if Kept ul label \<noteq> None then []
         else if list_ex (\<lambda>u. tn_Name u = label \<or>
           list_ex (\<lambda>e. te_Alias e = label \<and>
             aliasBefore [aliasSetAt e, tn_Name u, te_Install e, te_ExposureName e] mine) (tn_Exposures u))
           (in_Tenants inp)
         then []
         else label @ ''.'' @ in_KernelDomain inp)"

subsection \<open>One surface for an alias\<close>

text \<open>Every surface of the cluster with the tenant it belongs to, and how two of them are ordered.\<close>

definition surfaces :: "inputs \<Rightarrow> (string \<times> tenant_exposure) list" where
  "surfaces inp = concat (map (\<lambda>u. map (Pair (tn_Name u)) (tn_Exposures u)) (in_Tenants inp))"

definition surfaceKey :: "string \<times> tenant_exposure \<Rightarrow> string \<times> string \<times> string" where
  "surfaceKey s = (fst s, te_Install (snd s), te_ExposureName (snd s))"

definition orderOf :: "string \<times> tenant_exposure \<Rightarrow> string list" where
  "orderOf s = [aliasSetAt (snd s), fst s, te_Install (snd s), te_ExposureName (snd s)]"

lemma aliasBefore_less: "length xs = length ys \<Longrightarrow> aliasBefore xs ys \<longleftrightarrow> xs < ys"
  by (induction xs ys rule: list_induct2) auto

definition pick :: "string \<times> string \<times> string \<Rightarrow> string \<times> tenant_exposure \<Rightarrow> string \<times> string \<Rightarrow> string \<times> string" where
  "pick k s acc = (if surfaceKey s = k then (te_Alias (snd s), aliasSetAt (snd s)) else acc)"

lemma aliasOf_surfaces:
  "aliasOf inp t install exposure = fold (pick (t, install, exposure)) (surfaces inp) ([], [])"
proof -
  have inner: "fold (pick (t, install, exposure)) (map (Pair n) es) acc =
      (if n \<noteq> t then acc
       else fold (\<lambda>e acc. if te_Install e = install \<and> te_ExposureName e = exposure
         then (te_Alias e, aliasSetAt e) else acc) es acc)" for n es acc
    by (induction es arbitrary: acc) (auto simp: surfaceKey_def pick_def)
  have "fold (pick (t, install, exposure)) (concat (map (\<lambda>u. map (Pair (tn_Name u)) (tn_Exposures u)) us)) acc =
      fold (\<lambda>u acc. if tn_Name u \<noteq> t then acc
       else fold (\<lambda>e acc. if te_Install e = install \<and> te_ExposureName e = exposure
         then (te_Alias e, aliasSetAt e) else acc) (tn_Exposures u) acc) us acc" for us acc
    by (induction us arbitrary: acc) (simp_all add: inner)
  from this [of "in_Tenants inp" "([], [])"] show ?thesis by (simp only: aliasOf_def surfaces_def)
qed

lemma aliasOf_cases:
  assumes "fst (aliasOf inp t install exposure) \<noteq> []"
  shows "\<exists>s \<in> set (surfaces inp). surfaceKey s = (t, install, exposure) \<and>
    aliasOf inp t install exposure = (te_Alias (snd s), aliasSetAt (snd s))"
proof -
  have "fst (fold (pick k) ss ([], [])) \<noteq> [] \<Longrightarrow>
      \<exists>s \<in> set ss. surfaceKey s = k \<and> fold (pick k) ss ([], []) = (te_Alias (snd s), aliasSetAt (snd s))" for ss k
  proof (induction ss rule: rev_induct)
    case (snoc s ss)
    then show ?case by (cases "surfaceKey s = k") (auto simp: pick_def)
  qed simp
  from this [of "(t, install, exposure)" "surfaces inp"] assms show ?thesis unfolding aliasOf_surfaces by simp
qed

lemma aliasOf_distinct:
  assumes "distinct (map surfaceKey (surfaces inp))" "s \<in> set (surfaces inp)" "surfaceKey s = (t, install, exposure)"
  shows "aliasOf inp t install exposure = (te_Alias (snd s), aliasSetAt (snd s))"
proof -
  have "distinct (map surfaceKey ss) \<Longrightarrow> s \<in> set ss \<Longrightarrow>
      fold (pick (surfaceKey s)) ss acc = (te_Alias (snd s), aliasSetAt (snd s))" for ss acc
  proof (induction ss rule: rev_induct)
    case (snoc x ss)
    then show ?case by (cases "x = s") (auto simp: image_iff pick_def)
  qed simp
  from this [of "surfaces inp" "([], [])"] assms show ?thesis unfolding aliasOf_surfaces by simp
qed

text \<open>A label that can be honored: one some surface carries, on a cluster and under a name where aliases are.\<close>

definition honoured :: "(string \<Rightarrow> string) \<Rightarrow> inputs \<Rightarrow> string \<Rightarrow> bool" where
  "honoured ul inp label \<longleftrightarrow>
     label \<noteq> [] \<and> in_KernelDomain inp \<noteq> [] \<and>
     NormalizeTenancyMode (in_TenancyMode inp) \<noteq> TenancyModeSingle \<and> Kept ul label = None \<and>
     label \<notin> tn_Name ` set (in_Tenants inp) \<and> (\<exists>s \<in> set (surfaces inp). te_Alias (snd s) = label)"

lemma ex_surface:
  "(\<exists>s \<in> set (surfaces inp). P (fst s) (snd s)) \<longleftrightarrow>
     (\<exists>u \<in> set (in_Tenants inp). \<exists>e \<in> set (tn_Exposures u). P (tn_Name u) e)"
  by (auto simp: surfaces_def)

lemma AliasHost_eq:
  assumes "distinct (map surfaceKey (surfaces inp))" "in_KernelDomain inp \<noteq> []"
  shows "AliasHost ul inp t install exposure = label @ ''.'' @ in_KernelDomain inp \<longleftrightarrow>
    honoured ul inp label \<and>
    (\<exists>s \<in> set (surfaces inp). surfaceKey s = (t, install, exposure) \<and> te_Alias (snd s) = label \<and>
       (\<forall>s' \<in> set (surfaces inp). te_Alias (snd s') = label \<longrightarrow> \<not> orderOf s' < orderOf s))"
proof -
  obtain l at where a: "aliasOf inp t install exposure = (l, at)" by fastforce
  define taken where "taken = list_ex (\<lambda>u. tn_Name u = l \<or>
      list_ex (\<lambda>e. te_Alias e = l \<and>
        aliasBefore [aliasSetAt e, tn_Name u, te_Install e, te_ExposureName e] [at, t, install, exposure]) (tn_Exposures u))
      (in_Tenants inp)"
  have "taken \<longleftrightarrow> (\<exists>u \<in> set (in_Tenants inp). tn_Name u = l) \<or>
      (\<exists>u \<in> set (in_Tenants inp). \<exists>e \<in> set (tn_Exposures u). te_Alias e = l \<and>
         [aliasSetAt e, tn_Name u, te_Install e, te_ExposureName e] < [at, t, install, exposure])"
    unfolding taken_def list_ex_iff bex_disj_distrib by (simp only: aliasBefore_less list.size)
  also have "\<dots> \<longleftrightarrow> (\<exists>u \<in> set (in_Tenants inp). tn_Name u = l) \<or>
      (\<exists>s \<in> set (surfaces inp). te_Alias (snd s) = l \<and> orderOf s < [at, t, install, exposure])"
    unfolding orderOf_def using ex_surface [of inp "\<lambda>n e. te_Alias e = l \<and>
      [aliasSetAt e, n, te_Install e, te_ExposureName e] < [at, t, install, exposure]"] by (simp only:)
  finally have taken: "taken \<longleftrightarrow> l \<in> tn_Name ` set (in_Tenants inp) \<or>
      (\<exists>s' \<in> set (surfaces inp). te_Alias (snd s') = l \<and> orderOf s' < [at, t, install, exposure])" by blast
  have host: "AliasHost ul inp t install exposure =
      (if l = [] then [] else if NormalizeTenancyMode (in_TenancyMode inp) = TenancyModeSingle then []
       else if Kept ul l \<noteq> None then [] else if taken then [] else l @ ''.'' @ in_KernelDomain inp)"
    using assms(2) by (simp add: AliasHost_def a taken_def)
  show ?thesis
  proof
    assume "AliasHost ul inp t install exposure = label @ ''.'' @ in_KernelDomain inp"
    then have l: "l = label" "l \<noteq> []" "NormalizeTenancyMode (in_TenancyMode inp) \<noteq> TenancyModeSingle"
        "Kept ul l = None" "\<not> taken"
      unfolding host by (auto split: if_splits)
    obtain s where s: "s \<in> set (surfaces inp)" "surfaceKey s = (t, install, exposure)"
        "(l, at) = (te_Alias (snd s), aliasSetAt (snd s))"
      using l(2) a aliasOf_cases [of inp t install exposure] by (simp only: fst_conv) blast
    then have "orderOf s = [at, t, install, exposure]" by (auto simp: orderOf_def surfaceKey_def)
    then show "honoured ul inp label \<and> (\<exists>s \<in> set (surfaces inp). surfaceKey s = (t, install, exposure) \<and>
        te_Alias (snd s) = label \<and> (\<forall>s' \<in> set (surfaces inp). te_Alias (snd s') = label \<longrightarrow> \<not> orderOf s' < orderOf s))"
      using l s assms(2) unfolding taken honoured_def by (intro conjI bexI [of _ s]) auto
  next
    assume h: "honoured ul inp label \<and> (\<exists>s \<in> set (surfaces inp). surfaceKey s = (t, install, exposure) \<and>
        te_Alias (snd s) = label \<and> (\<forall>s' \<in> set (surfaces inp). te_Alias (snd s') = label \<longrightarrow> \<not> orderOf s' < orderOf s))"
    then obtain s where s: "s \<in> set (surfaces inp)" "surfaceKey s = (t, install, exposure)" "te_Alias (snd s) = label"
        "\<forall>s' \<in> set (surfaces inp). te_Alias (snd s') = label \<longrightarrow> \<not> orderOf s' < orderOf s" by blast
    have "(l, at) = (label, aliasSetAt (snd s))" using aliasOf_distinct [OF assms(1) s(1,2)] a s(3) by simp
    moreover have "orderOf s = [aliasSetAt (snd s), t, install, exposure]" using s(2) by (auto simp: orderOf_def surfaceKey_def)
    ultimately show "AliasHost ul inp t install exposure = label @ ''.'' @ in_KernelDomain inp"
      using h s(4) unfolding host taken honoured_def by (simp only: prod.inject) auto
  qed
qed

text \<open>
  C32. An alias that can be honored is answered by exactly one surface of the cluster, and one that cannot
  by none: the operator and the director, each asking surface by surface, never publish one alias twice
  and never leave it to nobody.
\<close>

theorem alias_answered_once:
  assumes "distinct (map surfaceKey (surfaces inp))" "in_KernelDomain inp \<noteq> []"
  shows "if honoured ul inp label
    then \<exists>!k. AliasHost ul inp (fst k) (fst (snd k)) (snd (snd k)) = label @ ''.'' @ in_KernelDomain inp
    else \<forall>t install exposure. AliasHost ul inp t install exposure \<noteq> label @ ''.'' @ in_KernelDomain inp"
proof (cases "honoured ul inp label")
  case True
  define C where "C = {s \<in> set (surfaces inp). te_Alias (snd s) = label}"
  have "finite C" by (simp add: C_def)
  moreover have "C \<noteq> {}" using True unfolding C_def honoured_def by blast
  ultimately obtain s where s: "s \<in> C" "\<And>s'. s' \<in> C \<Longrightarrow> \<not> orderOf s' < orderOf s"
    using arg_min_if_finite [of C orderOf] by blast
  have least: "AliasHost ul inp (fst k) (fst (snd k)) (snd (snd k)) = label @ ''.'' @ in_KernelDomain inp \<longleftrightarrow>
      (\<exists>s \<in> C. surfaceKey s = k \<and> (\<forall>s' \<in> C. \<not> orderOf s' < orderOf s))" for k
    unfolding AliasHost_eq [OF assms] C_def using True
    by (simp only: prod.collapse simp_thms Ball_def Bex_def mem_Collect_eq) blast
  have unique: "surfaceKey s' = surfaceKey s" if "s' \<in> C" "\<forall>x \<in> C. \<not> orderOf x < orderOf s'" for s'
  proof -
    have "orderOf s' = orderOf s" using that s by (meson linorder_neqE)
    then show ?thesis by (simp add: orderOf_def surfaceKey_def)
  qed
  have "\<exists>!k. AliasHost ul inp (fst k) (fst (snd k)) (snd (snd k)) = label @ ''.'' @ in_KernelDomain inp"
    unfolding least
  proof (rule ex1I [of _ "surfaceKey s"])
    show "\<exists>s' \<in> C. surfaceKey s' = surfaceKey s \<and> (\<forall>x \<in> C. \<not> orderOf x < orderOf s')" using s by blast
  next
    fix k assume "\<exists>s' \<in> C. surfaceKey s' = k \<and> (\<forall>x \<in> C. \<not> orderOf x < orderOf s')"
    then show "k = surfaceKey s" using unique by blast
  qed
  with True show ?thesis by simp
next
  case False
  then show ?thesis using AliasHost_eq [OF assms] by simp
qed

theorem alias_answered_once_witness:
  "\<exists>!k. AliasHost id sampleInputs (fst k) (fst (snd k)) (snd (snd k)) = ''shop.gtn.host''"
proof -
  have "honoured id sampleInputs ''shop''" "distinct (map surfaceKey (surfaces sampleInputs))"
      "in_KernelDomain sampleInputs = ''gtn.host''"
    by code_simp+
  then show ?thesis using alias_answered_once [of sampleInputs id "''shop''"] by simp
qed

end
