(* ===== verification/Tenant_Hosts.thy ===== *)
theory Tenant_Hosts
  imports Addresses
begin

section \<open>The hosts of different tenants\<close>

text \<open>
  What zones, reserved names and single tenancy give together: the hosts \<open>Resolve\<close> gives to the entries
  of two tenants are never the same one, under either tenancy mode.
\<close>

lemma map_lower_Split: "Split (map lower_char s) (CHR ''.'') = map (map lower_char) (Split s (CHR ''.''))"
proof -
  have dot: "lower_char x = CHR ''.'' \<longleftrightarrow> x = CHR ''.''" for x
    by (cases "65 \<le> (of_char x :: nat) \<and> (of_char x :: nat) \<le> 90")
      (auto simp: lower_char_def Let_def dest: arg_cong [where f = "of_char :: char \<Rightarrow> nat"])
  show ?thesis by (induction s) (auto simp: dot split: list.split)
qed

lemma nameOf_graphic:
  assumes "list_all graphic label"
  shows "nameOf ul label = map lower_char (last (Split label (CHR ''.'')))"
proof -
  have "TrimSpace label = label"
    using assms by (intro TrimSpace_id) (cases "label = []"; simp add: list_all_iff)
  moreover have "is_ascii label" using assms by (auto simp: is_ascii_def list_all_iff graphic_def Let_def)
  ultimately show ?thesis by (simp add: nameOf_def ToLower_def map_lower_Split last_map)
qed

lemma last_Split_under: "CHR ''.'' \<notin> set n \<Longrightarrow> last (Split (s @ ''.'' @ n) (CHR ''.'')) = n"
  by (simp add: Split_append Split_no_sep)

lemma Resolve_host:
  assumes "fst (Resolve ul q inp t install entry approved) \<noteq> []" "\<not> ex_Apex entry"
  shows "fst (Resolve ul q inp t install entry approved) =
      Host (ZoneOf t (in_KernelDomain inp) (in_TenancyMode inp) (in_KernelRealm inp)) install entry"
    and "checkNames ul install (map_of (in_Profiles inp) install)
      (ReservedZone (ZoneOf t (in_KernelDomain inp) (in_TenancyMode inp) (in_KernelRealm inp)) (in_KernelDomain inp)) = None"
proof -
  define z where "z = ZoneOf t (in_KernelDomain inp) (in_TenancyMode inp) (in_KernelRealm inp)"
  have p: "fst (PerimeterHost z install entry approved me mh) = [] \<or>
      fst (PerimeterHost z install entry approved me mh) = Host z install entry" for me mh
    using assms(2) by (simp add: PerimeterHost_def Let_def)
  show c: "checkNames ul install (map_of (in_Profiles inp) install)
      (ReservedZone (ZoneOf t (in_KernelDomain inp) (in_TenancyMode inp) (in_KernelRealm inp)) (in_KernelDomain inp)) = None"
    using assms(1) by (auto simp: Resolve_def Let_def split: option.splits)
  obtain me mh mw where m: "(if \<not> z_Kernel z \<and> snd (VerdictFor q inp t install) then
      (let v = fst (VerdictFor q inp t install)
       in if v_Entry v \<noteq> [] then (v_Entry v, in_KernelDomain inp, v_Message v) else ([], [], v_Message v))
      else ([], [], [])) = (me, mh, mw)" by (metis prod_cases3)
  have "fst (Resolve ul q inp t install entry approved) \<in> {[], fst (PerimeterHost z install entry approved me mh)}"
    unfolding Resolve_def z_def [symmetric] Let_def [of z] c [unfolded z_def [symmetric]] option.case m prod.case
    by (simp add: Let_def)
  then show "fst (Resolve ul q inp t install entry approved) =
      Host (ZoneOf t (in_KernelDomain inp) (in_TenancyMode inp) (in_KernelRealm inp)) install entry"
    using assms(1) p [of me mh] unfolding z_def [symmetric] by auto
qed

text \<open>
  A tenant as the platform admits it: not bound to a custom domain, named without a dot, one the mode
  allows, and the platform tenant under its own name.
\<close>

definition separable :: "inputs \<Rightarrow> tenant \<Rightarrow> bool" where
  "separable inp t \<longleftrightarrow>
     tn_Domain t = [] \<and> CHR ''.'' \<notin> set (tn_Name t) \<and>
     EnforceSingle (in_TenancyMode inp) (in_KernelRealm inp) t = None \<and>
     (IsPlatformTenant (Some t) (in_KernelRealm inp) \<or> AdoptsKernelRealm t (in_KernelRealm inp) \<longrightarrow>
        tn_Name t = PlatformTenantName)"

text \<open>An entry the component itself serves, under a label of printable characters.\<close>

definition ownEntry :: "inputs \<Rightarrow> string \<Rightarrow> exposure_spec \<Rightarrow> bool" where
  "ownEntry inp install e \<longleftrightarrow>
     (\<exists>p. map_of (in_Profiles inp) install = Some p \<and> e \<in> set (cp_Expose p)) \<and>
     answersFor install e \<and> list_all graphic (labelOf install e)"

lemma tenant_host_name:
  assumes "separable inp t" "ownEntry inp install e" "fst (Resolve ul q inp t install e approved) \<noteq> []"
  obtains pre where "fst (Resolve ul q inp t install e approved) = pre @ ''.'' @ in_KernelDomain inp"
    "if OnClusterDomain (Some t) (in_TenancyMode inp)
     then map lower_char (last (Split pre (CHR ''.''))) \<noteq> PlatformTenantName
     else last (Split pre (CHR ''.'')) = tn_Name t"
proof -
  define z where "z = ZoneOf t (in_KernelDomain inp) (in_TenancyMode inp) (in_KernelRealm inp)"
  let ?l = "labelOf install e" and ?k = "in_KernelDomain inp" and ?h = "fst (Resolve ul q inp t install e approved)"
  have apex: "\<not> ex_Apex e" using assms(2) by (simp add: ownEntry_def answersFor_def)
  note r = Resolve_host [OF assms(3) apex, folded z_def]
  have d: "z_Domain z = EffectiveDomain t ?k (in_TenancyMode inp)" by (simp add: z_def ZoneOf_def Let_def)
  have ne: "z_Domain z \<noteq> []" using assms(3) r(1) by (auto simp: Host_def)
  then have k: "?k \<noteq> []" using assms(1) unfolding d by (auto simp: EffectiveDomain_def separable_def split: if_splits)
  have host: "?h = (if z_Kernel z \<and> ?l = DesktopLabel then z_Domain z else ?l @ ''.'' @ z_Domain z)"
    using r(1) ne apex by (simp add: Host_def labelOf_def Let_def)
  show thesis
  proof (cases "OnClusterDomain (Some t) (in_TenancyMode inp)")
    case True
    then have dom: "z_Domain z = ?k" unfolding d using assms(1) k by (simp add: EffectiveDomain_def separable_def)
    have nk: "\<not> z_Kernel z"
      using True assms(1)
      by (auto simp: z_def ZoneOf_def Let_def OnClusterDomain_def separable_def PlatformTenantName_def SingleUserTenantName_def)
    obtain p where p: "map_of (in_Profiles inp) install = Some p" "e \<in> set (cp_Expose p)" "answersFor install e"
        and g: "list_all graphic ?l"
      using assms(2) by (auto simp: ownEntry_def)
    have "entryAdmitted ul install p (ReservedZone z ?k) e"
      using r(2) p(2,3) unfolding p(1) checkNames_None by blast
    then have "nameOf ul ?l \<notin> rs_Label ` set kernelLabels"
      using nk dom k by (simp add: entryAdmitted_def ReservedZone_def onClusterDomain_def)
    then have "map lower_char (last (Split ?l (CHR ''.''))) \<noteq> PlatformTenantName"
      unfolding nameOf_graphic [OF g] by (auto simp: kernelLabels_def kept_def)
    then show thesis using that [of ?l] True host nk dom by simp
  next
    case False
    then have dom: "z_Domain z = tn_Name t @ ''.'' @ ?k" unfolding d using assms(1) k by (simp add: EffectiveDomain_def separable_def)
    have dot: "CHR ''.'' \<notin> set (tn_Name t)" using assms(1) by (simp add: separable_def)
    show thesis
    proof (cases "z_Kernel z \<and> ?l = DesktopLabel")
      case True
      then show thesis using that [of "tn_Name t"] False host dom dot by (simp add: Split_no_sep)
    next
      case other: False
      then show thesis
        using that [of "?l @ ''.'' @ tn_Name t"] False host dom last_Split_under [OF dot, of ?l] by simp
    qed
  qed
qed


text \<open>A single-tenancy cluster with its two tenants, each with a component that publishes one entry.\<close>

definition wikiEntry :: exposure_spec where
  "wikiEntry = sampleEntry\<lparr>ex_Apex := False\<rparr>"

definition twoTenants :: inputs where
  "twoTenants = sampleInputs\<lparr>
     in_Tenants := [namedTenant ''user'', (namedTenant ''platform'')\<lparr>tn_Isolation := Some \<lparr>iso_Mode = [],
       iso_Namespace = [], iso_KeycloakRealm = ''kernel'', iso_DatabasePrefix = [], iso_S3Prefix = []\<rparr>\<rparr>],
     in_Profiles := [(''wiki'', (blankProfile ''wiki'')\<lparr>cp_Expose := [wikiEntry]\<rparr>)],
     in_TenancyMode := ''single'', in_MainAddressTenant := []\<rparr>"

lemma twoTenants_own: "ownEntry twoTenants ''wiki'' wikiEntry"
proof -
  have "answersFor ''wiki'' wikiEntry \<and> list_all graphic (labelOf ''wiki'' wikiEntry)" by code_simp
  then show ?thesis by (simp add: ownEntry_def twoTenants_def)
qed


end
