(* ===== verification/Tenant_Stores.thy ===== *)
theory Tenant_Stores
  imports Tenancy
begin

section \<open>What a tenant and its apps own\<close>

text \<open>
  \<open>internal/backup/inventory.go\<close>: the names everything a tenant owns on the shared services is named
  from, the stores of one app of it, and which volume claims of the tenant's namespace are an app's.
  Export, restore and purge all read these rules. \<open>q\<close> is the verb \<open>%q\<close> of package \<open>fmt\<close>.
\<close>

subsection \<open>Names\<close>

record tenant_names =
  nm_Realm :: string
  nm_DatabasePrefix :: string
  nm_BucketPrefix :: string

function s3Safe :: "string \<Rightarrow> string" where
  "s3Safe [] = []"
| "s3Safe (ch # rest) =
     (if is_lower ch \<or> is_digit ch \<or> ch = CHR ''-'' then ch # s3Safe rest
      else if is_upper ch then lower_char ch # s3Safe rest
      else CHR ''-'' # s3Safe (drop (runeLen (ch # rest)) (ch # rest)))"
  by pat_completeness auto
termination
  by (relation "measure length") (auto simp: drop_Cons' less_Suc_eq_le)

definition TenantNamespace :: "tenant \<Rightarrow> string" where
  "TenantNamespace t = NamespaceName (Some t)"

definition NamesOf :: "tenant \<Rightarrow> tenant_names" where
  "NamesOf t =
     (let iso = (case tn_Isolation t of
            None \<Rightarrow> \<lparr>iso_Mode = [], iso_Namespace = [], iso_KeycloakRealm = [], iso_DatabasePrefix = [], iso_S3Prefix = []\<rparr>
          | Some i \<Rightarrow> i);
          realm = (if iso_KeycloakRealm iso \<noteq> [] then iso_KeycloakRealm iso else tn_Name t);
          db = (if iso_DatabasePrefix iso \<noteq> [] then iso_DatabasePrefix iso else tn_Name t @ ''_'');
          bucket = (if iso_S3Prefix iso \<noteq> [] then iso_S3Prefix iso else tn_Name t @ ''-'')
      in \<lparr>nm_Realm = realm, nm_DatabasePrefix = ReplaceAll db (CHR ''-'') (CHR ''_''), nm_BucketPrefix = s3Safe bucket\<rparr>)"

definition RuleIsolation :: "string \<Rightarrow> string \<Rightarrow> isolation" where
  "RuleIsolation name mode =
     \<lparr>iso_Mode = mode, iso_Namespace = [], iso_KeycloakRealm = name, iso_DatabasePrefix = name @ ''_'',
       iso_S3Prefix = name @ ''-''\<rparr>"

datatype names_err = ErrNamesTaken string

fun clashes :: "(string \<Rightarrow> string) \<Rightarrow> tenant \<Rightarrow> tenant list \<Rightarrow> string list" where
  "clashes q candidate [] = []"
| "clashes q candidate (other # others) =
     (if tn_Name other = tn_Name candidate then clashes q candidate others
      else
        (let mine = NamesOf candidate; theirs = NamesOf other; owner = '' is tenant '' @ tn_Name other @ [CHR 0x27] @ ''s''
         in (if nm_Realm mine = nm_Realm theirs then [''the realm '' @ q (nm_Realm mine) @ owner] else []) @
            (if nm_DatabasePrefix mine = nm_DatabasePrefix theirs
             then [''the database prefix '' @ q (nm_DatabasePrefix mine) @ owner] else []) @
            (if nm_BucketPrefix mine = nm_BucketPrefix theirs
             then [''the bucket prefix '' @ q (nm_BucketPrefix mine) @ owner] else []) @
            clashes q candidate others))"

definition NamesTaken :: "(string \<Rightarrow> string) \<Rightarrow> tenant \<Rightarrow> tenant list \<Rightarrow> names_err option" where
  "NamesTaken q candidate others =
     (let cs = clashes q candidate others
      in if cs = [] then None
         else Some (ErrNamesTaken
           (''tenant '' @ q (tn_Name candidate) @ '' is refused, because '' @ Join (sort cs) ''; '' @
            ''. Two tenants with one of these in common share the thing itself; '' @
            ''give the tenant names of its own (spec.isolation), or leave them out so that they follow from its name'')))"

subsection \<open>Stores of one app\<close>

definition DatabaseName :: "tenant \<Rightarrow> string \<Rightarrow> string" where
  "DatabaseName t app = nm_DatabasePrefix (NamesOf t) @ ReplaceAll app (CHR ''-'') (CHR ''_'')"

definition PostgresRole :: "string \<Rightarrow> string \<Rightarrow> string" where
  "PostgresRole tenantName app = tenantName @ ''_'' @ app"

definition MariaDBUser :: "string \<Rightarrow> string \<Rightarrow> string" where
  "MariaDBUser tenantName app =
     ReplaceAll tenantName (CHR ''-'') (CHR ''_'') @ ''_'' @ ReplaceAll app (CHR ''-'') (CHR ''_'')"

definition S3Bucket :: "tenant \<Rightarrow> string \<Rightarrow> string" where
  "S3Bucket t app = nm_BucketPrefix (NamesOf t) @ s3Safe app"

definition BackupBucket :: "tenant \<Rightarrow> string" where
  "BackupBucket t = nm_BucketPrefix (NamesOf t) @ ''gentian-backup''"

definition RedisACLUser :: "string \<Rightarrow> string \<Rightarrow> string" where
  "RedisACLUser tenantName app = tenantName @ ''-'' @ app"

definition CNPGDatabaseCR :: "string \<Rightarrow> string \<Rightarrow> string" where
  "CNPGDatabaseCR tenantName app = ''db-'' @ tenantName @ ''-'' @ app"

definition DesktopStore :: string where
  "DesktopStore = ''shell''"

definition backupStore :: string where
  "backupStore = ''gentian-backup''"

definition mailStore :: string where
  "mailStore = ''gentian-mail''"

definition IsPlatformStore :: "string \<Rightarrow> bool" where
  "IsPlatformStore name \<longleftrightarrow> name = DesktopStore \<or> name = backupStore \<or> name = mailStore"

record stores =
  st_Database :: string
  st_S3 :: bool
  st_Redis :: bool

definition ProfileStores :: "component_profile option \<Rightarrow> stores" where
  "ProfileStores p =
     (case p of
        None \<Rightarrow> \<lparr>st_Database = [], st_S3 = False, st_Redis = False\<rparr>
      | Some p \<Rightarrow>
          (case cp_Services p of
             None \<Rightarrow> \<lparr>st_Database = [], st_S3 = False, st_Redis = False\<rparr>
           | Some kr \<Rightarrow>
               \<lparr>st_Database = (case sr_Database kr of None \<Rightarrow> [] | Some engine \<Rightarrow> engine),
                 st_S3 = sr_S3 kr, st_Redis = (sr_Cache kr = Some ''redis'')\<rparr>))"

subsection \<open>Releases and volume claims\<close>

definition AppRelease :: "string \<Rightarrow> string" where
  "AppRelease app = app @ ''-release''"

definition ExtensionRelease :: "string \<Rightarrow> string \<Rightarrow> string" where
  "ExtensionRelease app extension = app @ ''-'' @ extension @ ''-release''"

definition DirectRelease :: "string \<Rightarrow> string \<Rightarrow> string" where
  "DirectRelease namespace app = namespace @ ''-'' @ app"

definition IsAppRelease :: "string \<Rightarrow> string \<Rightarrow> string \<Rightarrow> string list \<Rightarrow> bool \<Rightarrow> bool" where
  "IsAppRelease release namespace app extensions known \<longleftrightarrow>
     release = AppRelease app \<or> release = DirectRelease namespace app \<or>
     (if \<not> known then HasPrefix release (app @ ''-'') \<and> HasSuffix release ''-release''
      else list_ex (\<lambda>ext. release = ExtensionRelease app ext) extensions)"

definition SidecarNames :: "component_profile option \<Rightarrow> string list" where
  "SidecarNames p = (case p of None \<Rightarrow> [] | Some p \<Rightarrow> filter (\<lambda>n. n \<noteq> []) (cp_Extensions p))"

record claim_pvc =
  pvc_Name :: string
  pvc_Labels :: "(string, string) gomap"
  pvc_Annotations :: "(string, string) gomap"

definition PVCBelongsToApp :: "claim_pvc \<Rightarrow> string \<Rightarrow> string \<Rightarrow> bool" where
  "PVCBelongsToApp pvc appName family \<longleftrightarrow>
     at_key (pvc_Labels pvc) ''gentianos.io/app'' = appName \<or>
     (case map_of (pvc_Labels pvc) ''app.kubernetes.io/instance'' of
        None \<Rightarrow> False | Some inst \<Rightarrow> HasPrefix inst appName) \<or>
     (case map_of (pvc_Labels pvc) ''app.kubernetes.io/name'' of
        None \<Rightarrow> False | Some name \<Rightarrow> name = appName \<or> family \<noteq> [] \<and> name = family) \<or>
     Contains (pvc_Name pvc) appName \<or> family \<noteq> [] \<and> Contains (pvc_Name pvc) family"

definition TenantApps :: "tenant \<Rightarrow> string list" where
  "TenantApps t = concat (map (\<lambda>a. ta_Profile a # ta_Addons a) (tn_Apps t))"

definition OwnedKeys :: "tenant \<Rightarrow> string \<Rightarrow> string list \<Rightarrow> string list" where
  "OwnedKeys t app extensions =
     app # filter (\<lambda>k. k \<notin> set (TenantApps t)) (map (\<lambda>ext. app @ ''-'' @ ext) extensions)"

definition ClaimRelease :: "claim_pvc \<Rightarrow> string" where
  "ClaimRelease pvc =
     (if at_key (pvc_Annotations pvc) ''meta.helm.sh/release-name'' \<noteq> []
      then at_key (pvc_Annotations pvc) ''meta.helm.sh/release-name''
      else at_key (pvc_Labels pvc) ''app.kubernetes.io/instance'')"

definition OwnsRelease :: "tenant \<Rightarrow> string \<Rightarrow> component_profile option \<Rightarrow> string \<Rightarrow> bool" where
  "OwnsRelease t app p release \<longleftrightarrow>
     (let (k, ok) = CutSuffix release ''-release''
      in if ok \<and> k \<noteq> app \<and> k \<in> set (TenantApps t) then False
         else
           (let extensions = map (\<lambda>k. TrimPrefix k (app @ ''-'')) (tl (OwnedKeys t app (SidecarNames p)))
            in IsAppRelease release (TenantNamespace t) app extensions (p \<noteq> None)))"

fun volumes_loop ::
  "claim_pvc list \<Rightarrow> tenant \<Rightarrow> string \<Rightarrow> component_profile option \<Rightarrow> string \<Rightarrow>
     string list \<times> (string, string) gomap \<Rightarrow> string list \<times> (string, string) gomap" where
  "volumes_loop [] t app p chart acc = acc"
| "volumes_loop (pvc # claims) t app p chart (own, vetoed) =
     (if \<not> PVCBelongsToApp pvc app chart then volumes_loop claims t app p chart (own, vetoed)
      else if ClaimRelease pvc \<noteq> [] \<and> \<not> OwnsRelease t app p (ClaimRelease pvc)
      then volumes_loop claims t app p chart (own, AList.update (pvc_Name pvc) (ClaimRelease pvc) vetoed)
      else volumes_loop claims t app p chart (own @ [pvc_Name pvc], vetoed))"

definition chartName :: "component_profile option \<Rightarrow> string" where
  "chartName p = (case p of None \<Rightarrow> [] | Some p \<Rightarrow> (case cp_Chart p of None \<Rightarrow> [] | Some name \<Rightarrow> name))"

definition AppVolumes ::
  "claim_pvc list \<Rightarrow> tenant \<Rightarrow> string \<Rightarrow> component_profile option \<Rightarrow> string list \<times> (string, string) gomap" where
  "AppVolumes claims t app p =
     volumes_loop claims t app p (chartName p) ([], [])"

subsection \<open>Names apart\<close>

text \<open>Two tenants share none of the three names.\<close>

definition namesApart :: "tenant \<Rightarrow> tenant \<Rightarrow> bool" where
  "namesApart t u \<longleftrightarrow>
     nm_Realm (NamesOf t) \<noteq> nm_Realm (NamesOf u) \<and>
     nm_DatabasePrefix (NamesOf t) \<noteq> nm_DatabasePrefix (NamesOf u) \<and>
     nm_BucketPrefix (NamesOf t) \<noteq> nm_BucketPrefix (NamesOf u)"

lemma namesApart_sym: "namesApart t u \<longleftrightarrow> namesApart u t"
  by (auto simp: namesApart_def)

lemma NamesTaken_None:
  "NamesTaken q t others = None \<longleftrightarrow> (\<forall>u \<in> set others. tn_Name u \<noteq> tn_Name t \<longrightarrow> namesApart t u)"
proof -
  have "clashes q t others = [] \<longleftrightarrow> (\<forall>u \<in> set others. tn_Name u \<noteq> tn_Name t \<longrightarrow> namesApart t u)"
    by (induction others) (auto simp: Let_def namesApart_def)
  then show ?thesis by (simp add: NamesTaken_def Let_def)
qed


subsection \<open>Volumes of other apps\<close>

lemma volumes_loop_own:
  "fst (volumes_loop claims t app p chart (own, vetoed)) =
     own @ map pvc_Name (filter (\<lambda>c. PVCBelongsToApp c app chart \<and>
       (ClaimRelease c = [] \<or> OwnsRelease t app p (ClaimRelease c))) claims)"
  by (induction claims arbitrary: own vetoed) auto

lemma OwnsRelease_other:
  "k \<in> set (TenantApps t) \<Longrightarrow> k \<noteq> app \<Longrightarrow> \<not> OwnsRelease t app p (AppRelease k)"
  by (simp add: OwnsRelease_def CutSuffix_def HasSuffix_def AppRelease_def suffix_def)


definition shopTenant :: tenant where
  "shopTenant = (namedTenant ''demo'')\<lparr>tn_Apps := map (\<lambda>n. \<lparr>ta_Profile = n, ta_ProfileRef = None,
     ta_Placed = False, ta_Addons = []\<rparr>) [''shop'', ''shop-eu'']\<rparr>"

definition shopClaims :: "claim_pvc list" where
  "shopClaims = [\<lparr>pvc_Name = ''data-shop-0'', pvc_Labels = [(''app.kubernetes.io/instance'', ''shop-release'')], pvc_Annotations = []\<rparr>,
     \<lparr>pvc_Name = ''data-shop-eu-0'', pvc_Labels = [(''app.kubernetes.io/instance'', ''shop-eu-release'')], pvc_Annotations = []\<rparr>]"


end
