(* ===== verification/Placement.thy ===== *)
theory Placement
  imports Tenancy
begin

section \<open>Which components the platform places\<close>

text \<open>
  \<open>internal/placement/placement.go\<close> and \<open>PlacementOf\<close> of \<open>api/v1alpha1/componentprofile_types.go\<close>: which
  placeable profiles go to a user tenant and to the platform tenant, which of them cannot be decided, which
  contracts between them are pre-approved, and which entries of a tenant's apps its administrator
  installed. A read of a profile from the cluster answers the profile, that there is none, or an error.
\<close>

subsection \<open>Definitions\<close>

definition PlacementEvery :: string where
  "PlacementEvery = ''every''"

definition PlacementPlatform :: string where
  "PlacementPlatform = ''platform''"

definition PlacementUsers :: string where
  "PlacementUsers = ''users''"

definition PlacementWhileStoreOffered :: string where
  "PlacementWhileStoreOffered = ''storeOffered''"

definition PlacementWhileLLM :: string where
  "PlacementWhileLLM = ''llm''"

definition PlacementWhileCredentialSet :: string where
  "PlacementWhileCredentialSet = ''credentialSet''"

definition RequiresCapabilityAnnotation :: string where
  "RequiresCapabilityAnnotation = ''gentianos.io/requires-capability''"

definition RequiresUsageStatisticsAnnotation :: string where
  "RequiresUsageStatisticsAnnotation = ''gentianos.io/requires-usage-statistics''"

definition PlacementOf :: "component_profile option \<Rightarrow> component_placement option" where
  "PlacementOf p =
     (case p of
        None \<Rightarrow> None
      | Some p \<Rightarrow>
          if cp_Placement p \<noteq> None then cp_Placement p
          else if cp_DefaultForTenants p then Some \<lparr>pl_Tenants = PlacementEvery, pl_While = []\<rparr>
          else if cp_DefaultForPlatform p then Some \<lparr>pl_Tenants = PlacementPlatform, pl_While = []\<rparr>
          else if cp_DefaultWhereStoreOffered p
          then Some \<lparr>pl_Tenants = PlacementUsers, pl_While = PlacementWhileStoreOffered\<rparr>
          else if at_key (cp_Annotations p) RequiresCapabilityAnnotation = PlacementWhileLLM
          then Some \<lparr>pl_Tenants = PlacementUsers, pl_While = PlacementWhileLLM\<rparr>
          else None)"

definition isApp :: "component_profile \<Rightarrow> bool" where
  "isApp p \<longleftrightarrow> list_ex (\<lambda>c. c = ''app'') (cp_Classes p)"

definition ByOperator :: "component_profile \<Rightarrow> bool" where
  "ByOperator p \<longleftrightarrow>
     (case PlacementOf (Some p) of None \<Rightarrow> False | Some pl \<Rightarrow> pl_While pl \<noteq> PlacementWhileLLM)"

record placement_set =
  ps_Wanted :: "string list"
  ps_Undecided :: "string list"

record grant =
  gr_App :: string
  gr_Contract :: string
  gr_Provider :: string
  gr_Capabilities :: "string list"

record placement_answer =
  pa_Users :: placement_set
  pa_Platform :: placement_set
  pa_Grants :: "grant list"

definition Has :: "placement_set \<Rightarrow> string \<Rightarrow> bool" where
  "Has s name \<longleftrightarrow> name \<in> set (ps_Wanted s)"

definition Decided :: "placement_set \<Rightarrow> string \<Rightarrow> bool" where
  "Decided s name \<longleftrightarrow> name \<notin> set (ps_Undecided s)"

definition answerFor :: "placement_answer \<Rightarrow> bool \<Rightarrow> placement_set" where
  "answerFor a platform = (if platform then pa_Platform a else pa_Users a)"

record facts =
  fa_Profiles :: "component_profile list"
  fa_UsageStatistics :: bool
  fa_StoreOffered :: "bool option"
  fa_Credentialed :: "string list"
  fa_Gone :: "string list"

text \<open>\<open>preApproved\<close>: the platform's own placed apps by name, and each contract one names another for.\<close>

fun oursOf :: "component_profile list \<Rightarrow> string list \<Rightarrow> (string, component_profile) gomap \<Rightarrow> (string, component_profile) gomap" where
  "oursOf [] gone m = m"
| "oursOf (p # ps) gone m =
     oursOf ps gone
       (if ByOperator p \<and> isApp p \<and> cp_Name p \<notin> set gone \<and> cp_TrustTier p = ''platform''
        then AList.update (cp_Name p) p m else m)"

definition grantsOf :: "(string, component_profile) gomap \<Rightarrow> component_profile \<Rightarrow> integration \<Rightarrow> grant list" where
  "grantsOf ours consumer i =
     (case map_of ours (ig_Provider i) of
        None \<Rightarrow> []
      | Some provider \<Rightarrow>
          if ig_Capabilities i = [] \<or> cp_Name provider = cp_Name consumer then []
          else if list_ex (\<lambda>c. c = ig_Contract i) (cp_Provides provider)
          then [\<lparr>gr_App = cp_Name consumer, gr_Contract = ig_Contract i, gr_Provider = cp_Name provider,
            gr_Capabilities = ig_Capabilities i\<rparr>]
          else [])"

definition grantLess :: "grant \<Rightarrow> grant \<Rightarrow> bool" where
  "grantLess x y \<longleftrightarrow> (if gr_App x \<noteq> gr_App y then gr_App x < gr_App y else gr_Contract x < gr_Contract y)"

definition preApproved :: "component_profile list \<Rightarrow> string list \<Rightarrow> grant list" where
  "preApproved profiles gone =
     (let ours = oursOf profiles gone []
      in sortStable grantLess (concat (map (\<lambda>(_, consumer).
           concat (map (grantsOf ours consumer) (cp_Integrations consumer))) ours)))"

text \<open>What one profile adds to the four lists: wanted and undecided of users, and of the platform.\<close>

definition decideOne ::
  "facts \<Rightarrow> component_profile \<Rightarrow> string list \<times> string list \<times> string list \<times> string list" where
  "decideOne f p =
     (let name = cp_Name p; nothing = ([], [], [], [])
      in case PlacementOf (Some p) of
           None \<Rightarrow> nothing
         | Some pl \<Rightarrow>
             if pl_While pl = PlacementWhileLLM \<or> \<not> isApp p then nothing
             else if at_key (cp_Annotations p) RequiresUsageStatisticsAnnotation = ''true'' \<and> \<not> fa_UsageStatistics f
             then nothing
             else if name \<in> set (fa_Gone f) then nothing
             else if pl_While pl = PlacementWhileStoreOffered \<and> fa_StoreOffered f = None
             then ([], [name], [], [name])
             else if pl_While pl = PlacementWhileStoreOffered \<and> fa_StoreOffered f = Some False then nothing
             else if pl_While pl = PlacementWhileCredentialSet \<and> name \<notin> set (fa_Credentialed f)
             then ([], [], [], [name])
             else if pl_Tenants pl = PlacementEvery then ([name], [], [name], [])
             else if pl_Tenants pl = PlacementPlatform then ([], [], [name], [])
             else if pl_Tenants pl = PlacementUsers then ([name], [], [], [])
             else nothing)"

definition Decide :: "facts \<Rightarrow> placement_answer" where
  "Decide f =
     (let four = map (decideOne f) (fa_Profiles f)
      in \<lparr>pa_Users = \<lparr>ps_Wanted = sort (concat (map (\<lambda>(uw, uu, pw, pu). uw) four)),
             ps_Undecided = sort (concat (map (\<lambda>(uw, uu, pw, pu). uu) four))\<rparr>,
           pa_Platform = \<lparr>ps_Wanted = sort (concat (map (\<lambda>(uw, uu, pw, pu). pw) four)),
             ps_Undecided = sort (concat (map (\<lambda>(uw, uu, pw, pu). pu) four))\<rparr>,
           pa_Grants = preApproved (fa_Profiles f) (fa_Gone f)\<rparr>)"

definition appName :: "tenant_app \<Rightarrow> string" where
  "appName app =
     (if ta_Profile app = [] then (case ta_ProfileRef app of None \<Rightarrow> [] | Some name \<Rightarrow> name) else ta_Profile app)"

fun Installed :: "(string \<Rightarrow> 'e + component_profile option) \<Rightarrow> tenant_app list \<Rightarrow> 'e + tenant_app list" where
  "Installed getProfile [] = Inr []"
| "Installed getProfile (app # apps) =
     (let rest = (\<lambda>kept. case Installed getProfile apps of Inl e \<Rightarrow> Inl e | Inr out \<Rightarrow> Inr (kept @ out))
      in if \<not> ta_Placed app then rest [app]
         else
           (case getProfile (appName app) of
              Inl e \<Rightarrow> Inl e
            | Inr None \<Rightarrow> rest [app]
            | Inr (Some p) \<Rightarrow> if ByOperator p then rest [] else rest [app]))"

subsection \<open>Properties\<close>

text \<open>Whether an app the platform places may be party to a pre-approved contract.\<close>

definition ourOwn :: "string list \<Rightarrow> component_profile \<Rightarrow> bool" where
  "ourOwn gone p \<longleftrightarrow> ByOperator p \<and> isApp p \<and> cp_Name p \<notin> set gone \<and> cp_TrustTier p = ''platform''"

lemma oursOf_inv:
  assumes "distinct (map fst m)" "\<And>x. x \<in> set m \<Longrightarrow> Q x" "set ps \<subseteq> P"
    and own: "\<And>p. p \<in> P \<Longrightarrow> ourOwn gone p \<Longrightarrow> Q (cp_Name p, p)"
  shows "distinct (map fst (oursOf ps gone m)) \<and> (\<forall>x \<in> set (oursOf ps gone m). Q x)"
  using assms(1-3)
proof (induction ps arbitrary: m)
  case (Cons p ps)
  let ?m = "if ourOwn gone p then AList.update (cp_Name p) p m else m"
  have "set (AList.update k v m) \<subseteq> insert (k, v) (set m)" for k :: string and v :: component_profile and m
    by (induction m) auto
  then have "\<And>x. x \<in> set ?m \<Longrightarrow> Q x"
    using Cons.prems(2,3) own [of p] by (auto split: if_splits) blast+
  moreover have "distinct (map fst ?m)" using Cons.prems(1) by (simp add: distinct_update)
  ultimately have "distinct (map fst (oursOf ps gone ?m)) \<and> (\<forall>x \<in> set (oursOf ps gone ?m). Q x)"
    using Cons.prems(3) by (intro Cons.IH) auto
  then show ?case unfolding ourOwn_def oursOf.simps .
qed simp

lemma oursOf_complete:
  assumes "distinct (map cp_Name ps)" "p \<in> set ps" "ourOwn gone p"
  shows "map_of (oursOf ps gone m) (cp_Name p) = Some p"
proof -
  have keep: "cp_Name p \<notin> cp_Name ` set ps \<Longrightarrow> map_of (oursOf ps gone m) (cp_Name p) = map_of m (cp_Name p)" for ps m
    by (induction ps arbitrary: m) (auto simp: update_conv')
  show ?thesis using assms
  proof (induction ps arbitrary: m)
    case (Cons x ps)
    show ?case
    proof (cases "x = p")
      case True
      then show ?thesis using Cons.prems keep [of ps] by (auto simp: ourOwn_def update_conv')
    next
      case False
      then show ?thesis using Cons by auto
    qed
  qed simp
qed

lemma grantsOf_mem:
  "g \<in> set (grantsOf ours consumer i) \<longleftrightarrow>
     (\<exists>provider. map_of ours (ig_Provider i) = Some provider \<and> ig_Capabilities i \<noteq> [] \<and>
        cp_Name provider \<noteq> cp_Name consumer \<and> ig_Contract i \<in> set (cp_Provides provider) \<and>
        g = \<lparr>gr_App = cp_Name consumer, gr_Contract = ig_Contract i, gr_Provider = cp_Name provider,
          gr_Capabilities = ig_Capabilities i\<rparr>)"
  by (cases "map_of ours (ig_Provider i)") (auto simp: grantsOf_def list_ex_iff)

text \<open>
  C40. A contract is pre-approved exactly between two different apps of the cluster that the platform
  places itself, is still offered and trusts as its own, where the consumer names the provider and the
  capabilities and the provider provides that contract; everything else is left to an administrator.
\<close>

theorem grants_only_between_platform_apps:
  assumes "distinct (map cp_Name (fa_Profiles f))"
  shows "g \<in> set (pa_Grants (Decide f)) \<longleftrightarrow>
    (\<exists>consumer provider i. consumer \<in> set (fa_Profiles f) \<and> provider \<in> set (fa_Profiles f) \<and>
       ourOwn (fa_Gone f) consumer \<and> ourOwn (fa_Gone f) provider \<and> cp_Name provider \<noteq> cp_Name consumer \<and>
       i \<in> set (cp_Integrations consumer) \<and> ig_Provider i = cp_Name provider \<and> ig_Capabilities i \<noteq> [] \<and>
       ig_Contract i \<in> set (cp_Provides provider) \<and>
       g = \<lparr>gr_App = cp_Name consumer, gr_Contract = ig_Contract i, gr_Provider = cp_Name provider,
         gr_Capabilities = ig_Capabilities i\<rparr>)" (is "?l \<longleftrightarrow> ?r")
proof -
  define ours where "ours = oursOf (fa_Profiles f) (fa_Gone f) []"
  have d: "distinct (map fst ours)" and inv: "\<And>k p. (k, p) \<in> set ours \<Longrightarrow> k = cp_Name p \<and> p \<in> set (fa_Profiles f) \<and> ourOwn (fa_Gone f) p"
    using oursOf_inv [of "[]" "\<lambda>(k, p). k = cp_Name p \<and> p \<in> set (fa_Profiles f) \<and> ourOwn (fa_Gone f) p" "fa_Profiles f"
        "set (fa_Profiles f)" "fa_Gone f"]
    by (auto simp: ours_def)
  have look: "map_of ours n = Some p \<longleftrightarrow> p \<in> set (fa_Profiles f) \<and> ourOwn (fa_Gone f) p \<and> n = cp_Name p" for n p
    using oursOf_complete [OF assms, of p "fa_Gone f" "[]"] map_of_is_SomeI [OF d, of n p] map_of_SomeD [of ours n p] inv [of n p]
    by (auto simp: ours_def)
  have mem: "(k, p) \<in> set ours \<longleftrightarrow> map_of ours k = Some p" for k p
    using d by (simp add: map_of_eq_Some_iff)
  have "?l \<longleftrightarrow> (\<exists>consumer i. map_of ours (cp_Name consumer) = Some consumer \<and> i \<in> set (cp_Integrations consumer) \<and> g \<in> set (grantsOf ours consumer i))"
  proof -
    have "?l \<longleftrightarrow> (\<exists>k consumer i. (k, consumer) \<in> set ours \<and> i \<in> set (cp_Integrations consumer) \<and> g \<in> set (grantsOf ours consumer i))"
      by (auto simp: Decide_def Let_def preApproved_def simp flip: ours_def)
    then show ?thesis unfolding mem using look by blast
  qed
  also have "\<dots> \<longleftrightarrow> (\<exists>consumer i provider. map_of ours (cp_Name consumer) = Some consumer \<and> i \<in> set (cp_Integrations consumer) \<and>
      map_of ours (ig_Provider i) = Some provider \<and> ig_Capabilities i \<noteq> [] \<and> cp_Name provider \<noteq> cp_Name consumer \<and>
      ig_Contract i \<in> set (cp_Provides provider) \<and>
      g = \<lparr>gr_App = cp_Name consumer, gr_Contract = ig_Contract i, gr_Provider = cp_Name provider,
        gr_Capabilities = ig_Capabilities i\<rparr>)"
    unfolding grantsOf_mem by blast
  also have "\<dots> \<longleftrightarrow> ?r" unfolding look by blast
  finally show ?thesis .
qed

definition sampleFacts :: facts where
  "sampleFacts = \<lparr>fa_Profiles = [
     (blankProfile ''desk'')\<lparr>cp_TrustTier := ''platform'', cp_Classes := [''app''], cp_DefaultForTenants := True,
       cp_Integrations := [\<lparr>ig_Contract = ''files'', ig_Provider = ''drive'', ig_Capabilities = [''read'']\<rparr>]\<rparr>,
     (blankProfile ''drive'')\<lparr>cp_TrustTier := ''platform'', cp_Classes := [''app''], cp_DefaultForTenants := True,
       cp_Provides := [''files'']\<rparr>],
     fa_UsageStatistics = False, fa_StoreOffered = None, fa_Credentialed = [], fa_Gone = []\<rparr>"

theorem grants_only_between_platform_apps_witness:
  "\<lparr>gr_App = ''desk'', gr_Contract = ''files'', gr_Provider = ''drive'', gr_Capabilities = [''read'']\<rparr> \<in>
     set (pa_Grants (Decide sampleFacts))"
proof -
  have "distinct (map cp_Name (fa_Profiles sampleFacts))" by code_simp
  moreover have "ourOwn [] (fa_Profiles sampleFacts ! 0) \<and> ourOwn [] (fa_Profiles sampleFacts ! 1)" by code_simp
  moreover have "set (fa_Profiles sampleFacts) = {fa_Profiles sampleFacts ! 0, fa_Profiles sampleFacts ! 1}" "fa_Gone sampleFacts = []"
      "cp_Name (fa_Profiles sampleFacts ! 0) = ''desk''" "cp_Name (fa_Profiles sampleFacts ! 1) = ''drive''"
      "cp_Provides (fa_Profiles sampleFacts ! 1) = [''files'']"
      "cp_Integrations (fa_Profiles sampleFacts ! 0) = [\<lparr>ig_Contract = ''files'', ig_Provider = ''drive'', ig_Capabilities = [''read'']\<rparr>]"
    by (simp_all add: sampleFacts_def blankProfile_def)
  ultimately show ?thesis
    by (intro grants_only_between_platform_apps [THEN iffD2] exI [of _ "fa_Profiles sampleFacts ! 0"]
        exI [of _ "fa_Profiles sampleFacts ! 1"]
        exI [of _ "\<lparr>ig_Contract = ''files'', ig_Provider = ''drive'', ig_Capabilities = [''read'']\<rparr>"]) simp_all
qed

end
