(* ===== verification/Handover.thy ===== *)
theory Handover
  imports Tenancy
begin

section \<open>The handover record\<close>

text \<open>
  \<open>internal/handover/handover.go\<close>: the ConfigMap that records that the cluster administrator's write path
  was seen to work, when and by whom, and what else the handover leaves there. The record is the map of
  its data, or none; a call to the API server that fails is an argument.
\<close>

subsection \<open>Definitions\<close>

type_synonym cm_data = "(string, string) gomap"

definition KeyWritePathProven :: string where
  "KeyWritePathProven = ''writePathProven''"

definition KeyProvenAt :: string where
  "KeyProvenAt = ''provenAt''"

definition KeyProvenBy :: string where
  "KeyProvenBy = ''provenBy''"

definition KeyBootstrapRevoked :: string where
  "KeyBootstrapRevoked = ''bootstrapCredentialRevoked''"

definition KeyRevokedAt :: string where
  "KeyRevokedAt = ''revokedAt''"

definition KeyRecoveryKitExported :: string where
  "KeyRecoveryKitExported = ''recoveryKitExported''"

definition KeyRecoveryKitExportedAt :: string where
  "KeyRecoveryKitExportedAt = ''recoveryKitExportedAt''"

record handover_state =
  hs_WritePathProven :: bool
  hs_ProvenAt :: string
  hs_ProvenBy :: string
  hs_BootstrapRevoked :: bool
  hs_RevokedAt :: string
  hs_RecoveryKitExported :: bool
  hs_RecoveryKitExportedAt :: string

datatype 'e handover_err = ReadRecord 'e | CreateRecord 'e | UpdateRecord 'e

definition stateOf :: "cm_data \<Rightarrow> handover_state" where
  "stateOf d =
     \<lparr>hs_WritePathProven = (at_key d KeyWritePathProven = ''true''),
       hs_ProvenAt = at_key d KeyProvenAt, hs_ProvenBy = at_key d KeyProvenBy,
       hs_BootstrapRevoked = (at_key d KeyBootstrapRevoked = ''true''),
       hs_RevokedAt = at_key d KeyRevokedAt,
       hs_RecoveryKitExported = (at_key d KeyRecoveryKitExported = ''true''),
       hs_RecoveryKitExportedAt = at_key d KeyRecoveryKitExportedAt\<rparr>"

definition readHandover :: "'e + cm_data option \<Rightarrow> 'e handover_err + handover_state" where
  "readHandover got =
     (case got of
        Inl e \<Rightarrow> Inl (ReadRecord e)
      | Inr None \<Rightarrow> Inr (stateOf [])
      | Inr (Some d) \<Rightarrow> Inr (stateOf d))"

definition provenData :: "string \<Rightarrow> int \<Rightarrow> cm_data" where
  "provenData user now =
     [(KeyWritePathProven, ''true''), (KeyProvenAt, stamp now)] @ (if user \<noteq> [] then [(KeyProvenBy, user)] else [])"

text \<open>
  How the API server answers a create: it stores the object, the object is already there, or an error.
\<close>

datatype 'e create_answer = Created | AlreadyThere | CreateFailed 'e

definition RecordWritePathProven ::
  "'e option \<Rightarrow> 'e create_answer \<Rightarrow> 'e option \<Rightarrow> cm_data option \<Rightarrow> string \<Rightarrow> int \<Rightarrow>
     'e handover_err option \<times> cm_data option" where
  "RecordWritePathProven getErr created updateErr cm user now =
     (case getErr of
        Some e \<Rightarrow> (Some (ReadRecord e), cm)
      | None \<Rightarrow>
          (case cm of
             None \<Rightarrow>
               (case created of
                  Created \<Rightarrow> (None, Some (provenData user now))
                | AlreadyThere \<Rightarrow> (None, None)
                | CreateFailed e \<Rightarrow> (Some (CreateRecord e), None))
           | Some d \<Rightarrow>
               if at_key d KeyWritePathProven = ''true'' then (None, Some d)
               else
                 (case updateErr of
                    Some e \<Rightarrow> (Some (UpdateRecord e), Some d)
                  | None \<Rightarrow> (None, Some (fold (\<lambda>(k, v). AList.update k v) (provenData user now) d)))))"

text \<open>
  What happens to the record: the operator records a proof, or a step of the handover run by hand writes
  one of the other keys.
\<close>

inductive handover_run :: "cm_data option \<Rightarrow> cm_data option \<Rightarrow> bool" where
  start: "handover_run cm cm"
| proof_seen: "handover_run cm cm' \<Longrightarrow>
    handover_run cm (snd (RecordWritePathProven (getErr :: string option) created updateErr cm' user now))"
| by_hand: "handover_run cm (Some d) \<Longrightarrow>
    k \<in> {KeyBootstrapRevoked, KeyRevokedAt, KeyRecoveryKitExported, KeyRecoveryKitExportedAt} \<Longrightarrow>
    handover_run cm (Some (AList.update k v d))"

subsection \<open>Properties\<close>

lemmas handover_keys = KeyWritePathProven_def KeyProvenAt_def KeyProvenBy_def KeyBootstrapRevoked_def KeyRevokedAt_def
  KeyRecoveryKitExported_def KeyRecoveryKitExportedAt_def

lemma at_key_update: "at_key (AList.update k v d) k' = (if k' = k then v else at_key d k')"
  by (simp add: at_key_def update_conv')

lemma at_key_Cons: "at_key ((k, v) # d) k' = (if k' = k then v else at_key d k')"
  by (simp add: at_key_def)

text \<open>The record says the path was proven, when and by whom.\<close>

definition provenAs :: "string \<Rightarrow> string \<Rightarrow> cm_data option \<Rightarrow> bool" where
  "provenAs at_time user cm \<longleftrightarrow>
     (\<exists>d. cm = Some d \<and> at_key d KeyWritePathProven = ''true'' \<and> at_key d KeyProvenAt = at_time \<and> at_key d KeyProvenBy = user)"

lemma provenAs_run:
  assumes "handover_run cm cm'" "provenAs at_time user cm"
  shows "provenAs at_time user cm'"
  using assms
proof (induction rule: handover_run.induct)
  case (proof_seen cm cm' getErr created updateErr user now)
  then show ?case by (cases getErr) (auto simp: provenAs_def RecordWritePathProven_def)
next
  case (by_hand cm d k v)
  then show ?case by (auto simp: provenAs_def at_key_update handover_keys)
qed

text \<open>
  C39. The record answers when the write path was first seen to work. A proof that could be written makes
  the record say so, with the time and the person of that proof; and from then on, through any sequence of
  further proofs, failed calls and steps run by hand, it keeps saying exactly that.
\<close>

theorem first_proof_is_kept:
  assumes "RecordWritePathProven None Created None cm user now = (None, cm')"
    and "hs_WritePathProven (stateOf (case cm of None \<Rightarrow> [] | Some d \<Rightarrow> d)) = False"
    and "handover_run cm' cm''" "user \<noteq> []"
  shows "\<exists>s. readHandover (Inr cm'') = Inr s \<and> hs_WritePathProven s \<and> hs_ProvenAt s = stamp now \<and> hs_ProvenBy s = user"
proof -
  have "provenAs (stamp now) user cm'"
    using assms(1,2,4)
    by (cases cm) (auto simp: RecordWritePathProven_def provenAs_def provenData_def stateOf_def at_key_update at_key_Cons handover_keys
        split: if_splits)
  from provenAs_run [OF assms(3) this] show ?thesis
    by (auto simp: provenAs_def readHandover_def stateOf_def)
qed

theorem first_proof_is_kept_witness:
  "\<exists>s. readHandover (Inr (snd (RecordWritePathProven (None :: string option) Created None (Some (provenData ''ada'' 0)) ''eve'' 5))) = Inr s \<and>
     hs_WritePathProven s \<and> hs_ProvenAt s = stamp 0 \<and> hs_ProvenBy s = ''ada''"
proof (rule first_proof_is_kept [where cm = None])
  show "RecordWritePathProven None Created None None ''ada'' 0 = (None, Some (provenData ''ada'' 0))"
    by (simp add: RecordWritePathProven_def)
  show "handover_run (Some (provenData ''ada'' 0)) (snd (RecordWritePathProven (None :: string option) Created None (Some (provenData ''ada'' 0)) ''eve'' 5))"
    by (rule handover_run.proof_seen [OF handover_run.start])
qed (simp_all add: stateOf_def at_key_def)

end
