(* ===== verification/Tenant_Admission.thy ===== *)
theory Tenant_Admission
  imports Tenant_Stores Placement Handover
begin

section \<open>Admission of tenants\<close>

text \<open>
  \<open>internal/webhook/tenant_validator.go\<close>: what the admission webhook answers to the creation, update and
  deletion of a Tenant. The cluster it reads is a record of answers: the tenants there are, a profile by
  name, and the handover record; each may be an error. An object that cannot be decoded is a \<open>Left\<close>.
\<close>

subsection \<open>Definitions\<close>

record 'e admission_view =
  av_Tenants :: "'e + tenant list"
  av_Profile :: "string \<Rightarrow> 'e + component_profile option"
  av_Handover :: "'e + cm_data option"

record validator =
  tv_TenancyMode :: string
  tv_GateOnHandover :: bool
  tv_KernelRealm :: string
  tv_HandoverNamespace :: string

definition HandoverOverrideAnnotation :: string where
  "HandoverOverrideAnnotation = ''gentianos.io/handover-override''"

datatype 'e denial =
    BadTenantName string
  | WritePathUnproven string
  | TenantsUnreadable string 'e
  | NamesInUse names_err
  | InstalledUnreadable string 'e
  | TooManyApps string int int
  | DuplicateApp string string
  | NoSuchProfile string string
  | ProfileUnreadable string string 'e
  | SingleTenancy string tenancy_err
  | PlatformTenantKept string

datatype 'e admission = AdmissionAllowed | AdmissionDenied "'e denial" | AdmissionErrored int

datatype 'd operation =
    CreateTenant "'d + tenant"
  | UpdateTenant "'d + tenant"
  | DeleteTenant "('d + tenant) option"

definition webhook_adoptsKernelRealm :: "validator \<Rightarrow> tenant \<Rightarrow> bool" where
  "webhook_adoptsKernelRealm v t \<longleftrightarrow>
     tv_KernelRealm v \<noteq> [] \<and>
     (case tn_Isolation t of None \<Rightarrow> False | Some i \<Rightarrow> iso_KeycloakRealm i = tv_KernelRealm v)"

definition validateHandover :: "validator \<Rightarrow> 'e admission_view \<Rightarrow> tenant \<Rightarrow> 'e denial option" where
  "validateHandover v w t =
     (if \<not> tv_GateOnHandover v \<or> tv_HandoverNamespace v = [] then None
      else if at_key (tn_Annotations t) HandoverOverrideAnnotation \<noteq> [] then None
      else
        (case readHandover (av_Handover w) of
           Inl _ \<Rightarrow> None
         | Inr s \<Rightarrow> if hs_WritePathProven s then None else Some (WritePathUnproven (tn_Name t))))"

text \<open>\<open>int32(n)\<close>.\<close>

definition int32 :: "int \<Rightarrow> int" where
  "int32 n = (n + 2 ^ 31) mod 2 ^ 32 - 2 ^ 31"

fun validateApps ::
  "string \<Rightarrow> (string \<Rightarrow> 'e + component_profile option) \<Rightarrow> string list \<Rightarrow> tenant_app list \<Rightarrow> 'e denial option" where
  "validateApps name getProfile seen [] = None"
| "validateApps name getProfile seen (app # apps) =
     (if ta_Profile app \<in> set seen then Some (DuplicateApp name (ta_Profile app))
      else
        (case getProfile (ta_Profile app) of
           Inl e \<Rightarrow> Some (ProfileUnreadable name (ta_Profile app) e)
         | Inr None \<Rightarrow> Some (NoSuchProfile name (ta_Profile app))
         | Inr (Some _) \<Rightarrow> validateApps name getProfile (ta_Profile app # seen) apps))"

definition validateQuota :: "'e admission_view \<Rightarrow> tenant \<Rightarrow> 'e denial option" where
  "validateQuota w t =
     (case tn_MaxApps t of
        None \<Rightarrow> None
      | Some m \<Rightarrow>
          if 0 < m then
            (case Installed (av_Profile w) (tn_Apps t) of
               Inl e \<Rightarrow> Some (InstalledUnreadable (tn_Name t) e)
             | Inr installed \<Rightarrow>
                 if int32 (int (length installed)) > m
                 then Some (TooManyApps (tn_Name t) (int (length installed)) m) else None)
          else None)"

definition Validate :: "validator \<Rightarrow> 'e admission_view \<Rightarrow> tenant \<Rightarrow> 'e denial option" where
  "Validate v w t =
     (case validateQuota w t of
        Some d \<Rightarrow> Some d
      | None \<Rightarrow>
          (case validateApps (tn_Name t) (av_Profile w) [] (tn_Apps t) of
             Some d \<Rightarrow> Some d
           | None \<Rightarrow>
               (case EnforceSingle (tv_TenancyMode v) (tv_KernelRealm v) t of
                  Some e \<Rightarrow> Some (SingleTenancy (tn_Name t) e)
                | None \<Rightarrow> None)))"

definition validateNames :: "(string \<Rightarrow> string) \<Rightarrow> 'e admission_view \<Rightarrow> tenant \<Rightarrow> 'e denial option" where
  "validateNames q w t =
     (case av_Tenants w of
        Inl e \<Rightarrow> Some (TenantsUnreadable (tn_Name t) e)
      | Inr tenants \<Rightarrow>
          (case NamesTaken q t tenants of None \<Rightarrow> None | Some e \<Rightarrow> Some (NamesInUse e)))"

definition handleDelete :: "validator \<Rightarrow> ('d + tenant) option \<Rightarrow> 'e admission" where
  "handleDelete v old =
     (case old of
        None \<Rightarrow> AdmissionAllowed
      | Some (Inl _) \<Rightarrow> AdmissionErrored 400
      | Some (Inr t) \<Rightarrow>
          if webhook_adoptsKernelRealm v t then AdmissionDenied (PlatformTenantKept (tn_Name t)) else AdmissionAllowed)"

text \<open>The checks of \<open>Handle\<close> in its order, the first four of them on creation only.\<close>

definition admit :: "(string \<Rightarrow> string) \<Rightarrow> validator \<Rightarrow> 'e admission_view \<Rightarrow> bool \<Rightarrow> tenant \<Rightarrow> 'e denial option" where
  "admit q v w creating t =
     (if creating \<and> \<not> ValidTenantName (tn_Name t) then Some (BadTenantName (tn_Name t))
      else
        (case (if creating \<and> \<not> webhook_adoptsKernelRealm v t then validateHandover v w t else None) of
           Some d \<Rightarrow> Some d
         | None \<Rightarrow>
             (case (if creating then validateNames q w t else None) of
                Some d \<Rightarrow> Some d
              | None \<Rightarrow> Validate v w t)))"

definition answer :: "'e denial option \<Rightarrow> 'e admission" where
  "answer d = (case d of None \<Rightarrow> AdmissionAllowed | Some d \<Rightarrow> AdmissionDenied d)"

definition Handle ::
  "(string \<Rightarrow> string) \<Rightarrow> validator option \<Rightarrow> 'e admission_view option \<Rightarrow> 'd operation \<Rightarrow> 'e admission" where
  "Handle q v client operation =
     (case v of
        None \<Rightarrow> AdmissionErrored 500
      | Some v \<Rightarrow>
          (case client of
             None \<Rightarrow> AdmissionErrored 500
           | Some w \<Rightarrow>
               (case operation of
                  DeleteTenant old \<Rightarrow> handleDelete v old
                | CreateTenant (Inl _) \<Rightarrow> AdmissionErrored 400
                | CreateTenant (Inr t) \<Rightarrow> answer (admit q v w True t)
                | UpdateTenant (Inl _) \<Rightarrow> AdmissionErrored 400
                | UpdateTenant (Inr t) \<Rightarrow> answer (admit q v w False t))))"

text \<open>
  The tenants of a cluster as the API server stores what the webhook admits. A creation has a name no
  tenant has; an update replaces the tenant of its name and states its names as before; a deletion hands
  the webhook the tenant it takes away. What the webhook reads beside the tenants may be anything at
  every step.
\<close>

inductive tenants_run :: "(string \<Rightarrow> string) \<Rightarrow> validator \<Rightarrow> tenant list \<Rightarrow> tenant list \<Rightarrow> bool"
  for q :: "string \<Rightarrow> string" and v :: validator where
  start: "tenants_run q v ts ts"
| create: "tenants_run q v ts ts' \<Longrightarrow> av_Tenants w = Inr ts' \<Longrightarrow> tn_Name t \<notin> tn_Name ` set ts' \<Longrightarrow>
    Handle q (Some v) (Some (w :: string admission_view)) (CreateTenant (Inr t) :: string operation) = AdmissionAllowed \<Longrightarrow>
    tenants_run q v ts (ts' @ [t])"
| update: "tenants_run q v ts ts' \<Longrightarrow> u \<in> set ts' \<Longrightarrow> tn_Name t = tn_Name u \<Longrightarrow> tn_Isolation t = tn_Isolation u \<Longrightarrow>
    Handle q (Some v) (Some (w :: string admission_view)) (UpdateTenant (Inr t) :: string operation) = AdmissionAllowed \<Longrightarrow>
    tenants_run q v ts (map (\<lambda>x. if tn_Name x = tn_Name t then t else x) ts')"
| delete: "tenants_run q v ts ts' \<Longrightarrow> u \<in> set ts' \<Longrightarrow>
    Handle q (Some v) (Some (w :: string admission_view)) (DeleteTenant (Some (Inr u)) :: string operation) = AdmissionAllowed \<Longrightarrow>
    tenants_run q v ts (filter (\<lambda>x. tn_Name x \<noteq> tn_Name u) ts')"

subsection \<open>What admission keeps\<close>

lemma Handle_create:
  "Handle q (Some v) (Some w) (CreateTenant (Inr t)) = AdmissionAllowed \<longleftrightarrow>
     ValidTenantName (tn_Name t) \<and> (webhook_adoptsKernelRealm v t \<or> validateHandover v w t = None) \<and>
     validateNames q w t = None \<and> Validate v w t = None"
  by (auto simp: Handle_def admit_def answer_def split: option.splits)

lemma Handle_update:
  "Handle q (Some v) (Some w) (UpdateTenant (Inr t)) = AdmissionAllowed \<longleftrightarrow> Validate v w t = None"
  by (auto simp: Handle_def admit_def answer_def split: option.splits)

lemma Handle_delete:
  "Handle q (Some v) (Some w) (DeleteTenant (Some (Inr t))) = AdmissionAllowed \<longleftrightarrow> \<not> webhook_adoptsKernelRealm v t"
  by (simp add: Handle_def handleDelete_def)

lemma Validate_single: "Validate v w t = None \<Longrightarrow> EnforceSingle (tv_TenancyMode v) (tv_KernelRealm v) t = None"
  by (auto simp: Validate_def split: option.splits)

text \<open>Every tenant was admitted, and no two share a name of any kind.\<close>

definition tenants_ok :: "validator \<Rightarrow> tenant list \<Rightarrow> bool" where
  "tenants_ok v ts \<longleftrightarrow>
     distinct (map tn_Name ts) \<and>
     (\<forall>t \<in> set ts. ValidTenantName (tn_Name t) \<and> EnforceSingle (tv_TenancyMode v) (tv_KernelRealm v) t = None) \<and>
     (\<forall>t \<in> set ts. \<forall>u \<in> set ts. tn_Name t \<noteq> tn_Name u \<longrightarrow> namesApart t u)"

lemma NamesOf_cong: "tn_Name t = tn_Name u \<Longrightarrow> tn_Isolation t = tn_Isolation u \<Longrightarrow> NamesOf t = NamesOf u"
  unfolding NamesOf_def Let_def by (simp only:)

lemma namesApart_cong:
  "NamesOf t = NamesOf t' \<Longrightarrow> NamesOf u = NamesOf u' \<Longrightarrow> namesApart t u = namesApart t' u'"
  by (simp add: namesApart_def)

lemma tenants_ok_create:
  assumes "tenants_ok v ts" "av_Tenants w = Inr ts" "tn_Name t \<notin> tn_Name ` set ts"
    and "Handle q (Some v) (Some w) (CreateTenant (Inr t)) = AdmissionAllowed"
  shows "tenants_ok v (ts @ [t])"
proof -
  have "NamesTaken q t ts = None" "ValidTenantName (tn_Name t)" "EnforceSingle (tv_TenancyMode v) (tv_KernelRealm v) t = None"
    using assms(2,4) Validate_single [of v w t] by (auto simp: Handle_create validateNames_def split: option.splits)
  moreover from this(1) have "\<forall>u \<in> set ts. namesApart t u" using assms(3) unfolding NamesTaken_None by (metis image_eqI)
  ultimately show ?thesis using assms(1,3) namesApart_sym by (auto simp: tenants_ok_def)
qed

lemma tenants_ok_update:
  assumes "tenants_ok v ts" "u \<in> set ts" "tn_Name t = tn_Name u" "tn_Isolation t = tn_Isolation u"
    and "Handle q (Some v) (Some w) (UpdateTenant (Inr t)) = AdmissionAllowed"
  shows "tenants_ok v (map (\<lambda>x. if tn_Name x = tn_Name t then t else x) ts)"
proof -
  let ?f = "\<lambda>x. if tn_Name x = tn_Name t then t else x"
  have single: "EnforceSingle (tv_TenancyMode v) (tv_KernelRealm v) t = None"
    using assms(5) Validate_single [of v w t] by (simp add: Handle_update)
  have u: "x = u" if "x \<in> set ts" "tn_Name x = tn_Name t" for x
    using that assms(1,2,3) by (auto simp: tenants_ok_def distinct_map dest: inj_onD)
  have names: "NamesOf (?f x) = NamesOf x" "tn_Name (?f x) = tn_Name x" if "x \<in> set ts" for x
    using u [OF that] assms(3,4) NamesOf_cong [of t u] by auto
  have "map tn_Name (map ?f ts) = map tn_Name ts" using names(2) by simp
  then have "distinct (map tn_Name (map ?f ts))" using assms(1) by (simp only: tenants_ok_def)
  moreover have "ValidTenantName (tn_Name (?f x)) \<and> EnforceSingle (tv_TenancyMode v) (tv_KernelRealm v) (?f x) = None"
    if "x \<in> set ts" for x
    using that assms(1,2,3) single by (auto simp: tenants_ok_def)
  moreover have "namesApart (?f x) (?f y)" if "x \<in> set ts" "y \<in> set ts" "tn_Name (?f x) \<noteq> tn_Name (?f y)" for x y
    using that assms(1) names(2) namesApart_cong [OF names(1) names(1), of x y] by (simp add: tenants_ok_def)
  ultimately show ?thesis unfolding tenants_ok_def by (simp only: set_map ball_simps) blast
qed

lemma tenants_ok_filter: "tenants_ok v ts \<Longrightarrow> tenants_ok v (filter P ts)"
  by (auto simp: tenants_ok_def distinct_map_filter)

lemma tenants_run_ok:
  assumes "tenants_run q v ts ts'" "tenants_ok v ts"
  shows "tenants_ok v ts'"
  using assms
proof (induction rule: tenants_run.induct)
  case (create ts ts' w t)
  then show ?case by (intro tenants_ok_create) auto
next
  case (update ts ts' u t w)
  then show ?case by (intro tenants_ok_update) auto
next
  case (delete ts ts' u w)
  then show ?case by (simp add: tenants_ok_filter)
qed

lemma tenants_run_platform:
  assumes "tenants_run q v ts ts'" "tenants_ok v ts" "p \<in> set ts" "webhook_adoptsKernelRealm v p"
  shows "\<exists>p' \<in> set ts'. tn_Name p' = tn_Name p \<and> webhook_adoptsKernelRealm v p'"
  using assms
proof (induction rule: tenants_run.induct)
  case (update ts ts' u t w)
  then obtain p' where p: "p' \<in> set ts'" "tn_Name p' = tn_Name p" "webhook_adoptsKernelRealm v p'" by blast
  have "distinct (map tn_Name ts')" using tenants_run_ok [OF update.hyps(1) update.prems(1)] by (simp add: tenants_ok_def)
  then have "tn_Name p' = tn_Name t \<Longrightarrow> p' = u" using p(1) update.hyps by (auto simp: distinct_map dest: inj_onD)
  then have "webhook_adoptsKernelRealm v (if tn_Name p' = tn_Name t then t else p')"
    using p(3) update.hyps(4) by (auto simp: webhook_adoptsKernelRealm_def)
  moreover have "tn_Name (if tn_Name p' = tn_Name t then t else p') = tn_Name p" using p(2) by simp
  ultimately show ?case using p(1) unfolding set_map by blast
next
  case (delete ts ts' u w)
  then obtain p' where p: "p' \<in> set ts'" "tn_Name p' = tn_Name p" "webhook_adoptsKernelRealm v p'" by blast
  have "distinct (map tn_Name ts')" using tenants_run_ok [OF delete.hyps(1) delete.prems(1)] by (simp add: tenants_ok_def)
  moreover have "\<not> webhook_adoptsKernelRealm v u" using delete.hyps(3) by (simp add: Handle_delete)
  ultimately have "tn_Name p' \<noteq> tn_Name u" using p(1,3) delete.hyps(2) by (auto simp: distinct_map dest: inj_onD)
  then show ?case using p by auto
qed auto

lemma one_of_a_name: "distinct (map f xs) \<Longrightarrow> (\<And>x. x \<in> set xs \<Longrightarrow> f x = c) \<Longrightarrow> length xs \<le> 1"
  by (cases xs; cases "tl xs") auto

text \<open>
  C36. What the webhook keeps true of a cluster that began empty, through any sequence of creations,
  updates that leave a tenant's isolation alone and deletions, whatever else it reads and whichever of
  its reads fail. Every tenant has a valid name of its own; no two tenants share a realm, a database prefix
  or a bucket prefix; under single tenancy at most one tenant is not the platform's; and the platform
  tenant, once there, is never gone.
\<close>

theorem admission_keeps_tenants_apart:
  assumes "tenants_run q v [] ts"
  shows "distinct (map tn_Name ts) \<and>
    (\<forall>t u. t \<in> set ts \<and> u \<in> set ts \<and> tn_Name t \<noteq> tn_Name u \<longrightarrow>
       nm_Realm (NamesOf t) \<noteq> nm_Realm (NamesOf u) \<and>
       nm_DatabasePrefix (NamesOf t) \<noteq> nm_DatabasePrefix (NamesOf u) \<and>
       nm_BucketPrefix (NamesOf t) \<noteq> nm_BucketPrefix (NamesOf u)) \<and>
    (\<forall>t. t \<in> set ts \<longrightarrow> ValidTenantName (tn_Name t)) \<and>
    (NormalizeTenancyMode (tv_TenancyMode v) = TenancyModeSingle \<longrightarrow>
       length (filter (\<lambda>t. \<not> IsPlatformTenant (Some t) (tv_KernelRealm v)) ts) \<le> 1) \<and>
    (\<forall>ts' p. tenants_run q v ts ts' \<and> p \<in> set ts \<and> webhook_adoptsKernelRealm v p \<longrightarrow>
       (\<exists>p'. p' \<in> set ts' \<and> tn_Name p' = tn_Name p \<and> webhook_adoptsKernelRealm v p'))"
proof -
  have ok: "tenants_ok v ts" using tenants_run_ok [OF assms] by (simp add: tenants_ok_def)
  have "length (filter (\<lambda>t. \<not> IsPlatformTenant (Some t) (tv_KernelRealm v)) ts) \<le> 1"
    if "NormalizeTenancyMode (tv_TenancyMode v) = TenancyModeSingle"
  proof (rule one_of_a_name [of tn_Name _ SingleUserTenantName])
    show "distinct (map tn_Name (filter (\<lambda>t. \<not> IsPlatformTenant (Some t) (tv_KernelRealm v)) ts))"
      using ok by (simp add: tenants_ok_def distinct_map_filter)
    show "tn_Name x = SingleUserTenantName" if "x \<in> set (filter (\<lambda>t. \<not> IsPlatformTenant (Some t) (tv_KernelRealm v)) ts)" for x
      using that ok EnforceSingle_single [OF \<open>NormalizeTenancyMode (tv_TenancyMode v) = TenancyModeSingle\<close>]
      by (auto simp: tenants_ok_def)
  qed
  moreover have "\<exists>p'. p' \<in> set ts' \<and> tn_Name p' = tn_Name p \<and> webhook_adoptsKernelRealm v p'"
    if "tenants_run q v ts ts'" "p \<in> set ts" "webhook_adoptsKernelRealm v p" for ts' p
    using tenants_run_platform [OF that(1) ok that(2,3)] by blast
  ultimately show ?thesis using ok unfolding tenants_ok_def namesApart_def by blast
qed

definition sampleView :: "tenant list \<Rightarrow> string admission_view" where
  "sampleView ts = \<lparr>av_Tenants = Inr ts, av_Profile = (\<lambda>_. Inr None), av_Handover = Inr None\<rparr>"

definition sampleValidator :: validator where
  "sampleValidator = \<lparr>tv_TenancyMode = ''multi'', tv_GateOnHandover = True, tv_KernelRealm = ''kernel'',
     tv_HandoverNamespace = []\<rparr>"

theorem admission_keeps_tenants_apart_witness:
  "tenants_run id sampleValidator [] [namedTenant ''acme'', namedTenant ''demo''] \<and>
   nm_BucketPrefix (NamesOf (namedTenant ''acme'')) \<noteq> nm_BucketPrefix (NamesOf (namedTenant ''demo''))"
proof -
  have "tenants_run id sampleValidator [] ([] @ [namedTenant ''acme''])"
    by (rule tenants_run.create [OF tenants_run.start, where w = "sampleView []"])
      (simp add: sampleView_def, simp, code_simp)
  then have "tenants_run id sampleValidator [] (([] @ [namedTenant ''acme'']) @ [namedTenant ''demo''])"
    by (rule tenants_run.create [where w = "sampleView [namedTenant ''acme'']"])
      (simp add: sampleView_def, simp add: namedTenant_def, code_simp)
  then have r: "tenants_run id sampleValidator [] [namedTenant ''acme'', namedTenant ''demo'']" by simp
  moreover have "tn_Name (namedTenant ''acme'') \<noteq> tn_Name (namedTenant ''demo'')" by (simp add: namedTenant_def)
  ultimately show ?thesis using admission_keeps_tenants_apart [OF r] by (simp only: list.set) blast
qed

end
