(* ===== verification/Rights_Backup.thy ===== *)
theory Rights_Backup
  imports Rights_Tenants Rights_Apps
begin

section \<open>What of a tenant's rights exists only in the store\<close>

text \<open>
  \<open>internal/director/authz/storeonly.go\<close>: a backup carries the entries on a tenant and its apps
  that no projection writes, and, as withdrawn, the consent a tenant was given with its attachment
  and no longer has. An entry of a bundle is put under the name of the cluster it is restored on,
  and is only written when it is an id of the store and on the tenant.
\<close>

subsection \<open>Definitions\<close>

record store_only =
  so_Granted :: "tuple list"
  so_Withdrawn :: "tuple list"

datatype 'e backup_err =
    Projection "'e reconcile_err"
  | ReadEntriesOn string 'e
  | ReadAppsOf string 'e
  | ErrNotProjected string

text \<open>The objects of the apps named: those of the wanted entries and those of what is still held.\<close>

definition heldObjects :: "string \<Rightarrow> string list \<Rightarrow> string list" where
  "heldObjects tenant held =
     map (App tenant) (filter (\<lambda>name. name \<noteq> [] \<and>
       \<not> ContainsAny name [CHR ''#'', CHR ''/'', CHR '' '', CHR 0x09, CHR 0x0D, CHR 0x0A]) held)"

text \<open>Every entry on the objects, besides those of the two relations the projection owns.\<close>

fun entriesOn ::
  "('w \<Rightarrow> tuple \<Rightarrow> 'e + tuple list) \<Rightarrow> 'w \<Rightarrow> string list \<Rightarrow> tuple list \<Rightarrow> 'e backup_err + tuple list" where
  "entriesOn rd w [] granted = Inr granted"
| "entriesOn rd w (object # names) granted =
     (case rd w (tup [] [] object) of
        Inl e \<Rightarrow> Inl (ReadEntriesOn object e)
      | Inr entries \<Rightarrow>
          entriesOn rd w names (granted @
            map plain (filter (\<lambda>t. \<not> (t_relation t = ''tenant'' \<or> t_relation t = ''entitled'')) entries)))"

definition StoreOnlyOf ::
  "('w \<Rightarrow> tuple \<Rightarrow> 'e + tuple list) \<Rightarrow> 'w \<Rightarrow> string \<Rightarrow> string \<Rightarrow> installed_app list \<Rightarrow> string list \<Rightarrow>
   'e backup_err + store_only" where
  "StoreOnlyOf rd w cluster tenant apps held =
     (case tenantDefaults cluster tenant of
        Inl e \<Rightarrow> Inl (Projection e)
      | Inr (standing, once) \<Rightarrow>
          (case appTuples tenant apps of
             Inl e \<Rightarrow> Inl (Projection e)
           | Inr want \<Rightarrow>
               (let derived = map key standing @ map key once @ map fst want;
                    objects = map (\<lambda>(k, t). t_object t) want @ heldObjects tenant held in
                case rd w (tup [] [] (Tenant tenant)) of
                  Inl e \<Rightarrow> Inl (ReadEntriesOn (Tenant tenant) e)
                | Inr onTenant \<Rightarrow>
                    (let hv = map (\<lambda>t. key (plain t)) onTenant in
                     if key (hd standing) \<notin> set hv then Inl (ErrNotProjected tenant)
                     else
                       (let granted = map plain (filter (\<lambda>t. \<not> claimTenantRelation (t_relation t) \<and>
                              key (plain t) \<notin> set derived) onTenant);
                            withdrawn = (if tenant \<noteq> PlatformTenant
                              then filter (\<lambda>t. key t \<notin> set hv) once else []) in
                        case rd w (tup (Tenant tenant) ''tenant'' ''app:'') of
                          Inl e \<Rightarrow> Inl (ReadAppsOf (Tenant tenant) e)
                        | Inr attached \<Rightarrow>
                            (let objects = objects @
                                   filter (\<lambda>ob. HasPrefix ob (''app:'' @ tenant @ ''/'')) (map t_object attached) in
                             case entriesOn rd w (sort (remdups objects)) granted of
                               Inl e \<Rightarrow> Inl e
                             | Inr granted \<Rightarrow>
                                 Inr \<lparr>so_Granted = sort_key key granted, so_Withdrawn = withdrawn\<rparr>))))))"

definition rename :: "string \<Rightarrow> string \<Rightarrow> string \<Rightarrow> string" where
  "rename fromCluster toCluster i =
     (let (i, relation, _) = Cut i (CHR ''#'');
          i = (if fromCluster \<noteq> [] \<and> i = Cluster fromCluster then Cluster toCluster else i) in
      if relation \<noteq> [] then i @ ''#'' @ relation else i)"

definition Rebase :: "tuple \<Rightarrow> string \<Rightarrow> string \<Rightarrow> tuple" where
  "Rebase t fromCluster toCluster =
     tup (rename fromCluster toCluster (t_user t)) (t_relation t) (rename fromCluster toCluster (t_object t))"

definition OnTenant :: "tuple \<Rightarrow> string \<Rightarrow> bool" where
  "OnTenant t tenant \<longleftrightarrow>
     t_object t = Tenant tenant \<or>
     HasPrefix (t_object t) (''app:'' @ tenant @ ''/'') \<and> length (t_object t) > length (''app:'' @ tenant @ ''/'')"

datatype form_err = NotAnId string string | NotARelation string

definition storeId :: "string \<Rightarrow> string \<Rightarrow> bool \<Rightarrow> form_err option" where
  "storeId what i userset =
     (if i = [] \<or> ContainsAny i [CHR '' '', CHR 0x09, CHR 0x0D, CHR 0x0A, CHR ''*''] then Some (NotAnId what i)
      else
        (let (object, relation, found) = Cut i (CHR ''#'') in
         if found \<and> (\<not> userset \<or> relation = [] \<or> CHR ''#'' \<in> set relation) then Some (NotAnId what i)
         else
           (let (kind, name, ok) = Cut object (CHR '':'') in
            if \<not> ok \<or> kind = [] \<or> name = [] \<or> CHR '':'' \<in> set name then Some (NotAnId what i)
            else None)))"

definition WellFormed :: "tuple \<Rightarrow> form_err option" where
  "WellFormed t =
     (case storeId ''the holder'' (t_user t) True of
        Some e \<Rightarrow> Some e
      | None \<Rightarrow>
          (case storeId ''the object'' (t_object t) False of
             Some e \<Rightarrow> Some e
           | None \<Rightarrow>
               (if t_relation t = [] \<or>
                   ContainsAny (t_relation t) [CHR '' '', CHR 0x09, CHR 0x0D, CHR 0x0A, CHR ''#'', CHR '':'', CHR ''*'']
                then Some (NotARelation (t_relation t)) else None)))"

subsection \<open>What a backup has to carry\<close>

text \<open>What the projection of a tenant writes on it, and the objects of its apps.\<close>

definition derivedOn :: "string \<Rightarrow> string \<Rightarrow> tuple set" where
  "derivedOn cluster t = {attachment cluster t, consent cluster t} \<union> set (standingRoles t)"

definition backupObjects :: "tuple set \<Rightarrow> string \<Rightarrow> installed_app list \<Rightarrow> string list \<Rightarrow> string set" where
  "backupObjects S t apps held =
     App t ` fst ` set (entitled apps) \<union> set (heldObjects t held) \<union>
     {ob. HasPrefix ob (''app:'' @ t @ ''/'') \<and> tup (Tenant t) ''tenant'' ob \<in> S}"

definition grantedOn :: "tuple set \<Rightarrow> string \<Rightarrow> string \<Rightarrow> tuple set" where
  "grantedOn S cluster t =
     {x \<in> S. t_object x = Tenant t \<and> \<not> claimTenantRelation (t_relation x) \<and> x \<notin> derivedOn cluster t}"

definition grantedIn :: "tuple set \<Rightarrow> string set \<Rightarrow> tuple set" where
  "grantedIn S obs = {x \<in> S. t_object x \<in> obs \<and> \<not> appRelation x}"

lemma derivedOn_barFree:
  assumes "ValidTenantName t" "CHR ''|'' \<notin> set cluster" "x \<in> derivedOn cluster t"
  shows "barFree x"
  using assms(3) ValidTenantName_chars(2) [OF assms(1), of "CHR ''|''"] assms(2)
  by (auto simp: derivedOn_def attachment_def consent_def standingRoles_def barFree_def Cluster_def Tenant_def)

lemma appsEntries_objects: "t_object ` appsEntries t apps = App t ` fst ` set (entitled apps)"
  unfolding appsEntries_def image_UN appEntry_objects by auto

lemma App_ne_Tenant [simp]: "App t p \<noteq> Tenant u" "Tenant u \<noteq> App t p"
  by (simp_all add: App_def Tenant_def)

lemma map_plain [simp]: "map plain ts = ts"
  by (simp add: map_idI)

lemma image_keys_barFree: "\<forall>d \<in> D. barFree d \<Longrightarrow> key x \<in> key ` D \<longleftrightarrow> x \<in> D"
  using key_barFree by blast

lemma appsEntries_not_on_tenant: "x \<in> appsEntries t apps \<Longrightarrow> t_object x \<noteq> Tenant u"
  using imageI [of x "appsEntries t apps" t_object] unfolding appsEntries_objects by auto

text \<open>The projection's entries, as \<^const>\<open>appTuples\<close> files them.\<close>

lemma appTuples_ok:
  assumes "ValidTenantName t" "installable apps"
  shows "\<exists>want. (appTuples t apps :: 'e reconcile_err + _) = Inr want \<and> barKeyed want \<and> snd ` set want = appsEntries t apps"
  using appTuples_loop_ok [OF assms(1) assms(2) [unfolded installable_def entitled_def] barKeyed_Nil, where 'e = 'e]
  by (simp add: appTuples_def appsEntries_def entitled_def)

lemma barKeyed_fst: "barKeyed want \<Longrightarrow> fst ` set want = key ` snd ` set want"
proof -
  assume "barKeyed want"
  then have k: "distinct (map fst want)" "\<forall>k t. map_of want k = Some t \<longrightarrow> k = key t"
    by (simp_all add: barKeyed_def keyed_def)
  have "fst p = key (snd p)" if "p \<in> set want" for p
    using k that map_of_is_SomeI [OF k(1), of "fst p" "snd p"] by simp
  then show ?thesis by (force simp: image_iff)
qed

lemma heldObjects_wf:
  assumes "\<forall>n \<in> set held. \<not> HasSuffix n '':''" "ob \<in> set (heldObjects t held)"
  shows "\<not> HasSuffix ob '':'' \<and> ob \<noteq> [] \<and> HasPrefix ob (''app:'' @ t @ ''/'')"
proof -
  obtain n where n: "n \<in> set held" "n \<noteq> []" "ob = App t n" using assms(2) by (auto simp: heldObjects_def)
  then have "\<not> HasSuffix n '':''" using assms(1) by blast
  then show ?thesis using n(2) HasSuffix_colon [OF n(2), of "[]"] HasSuffix_colon [OF n(2), of "''app:'' @ t @ ''/''"]
    unfolding n(3) by (simp add: App_def HasPrefix_def)
qed

lemma backupObjects_wf:
  assumes "\<forall>x \<in> S. \<not> HasSuffix (t_object x) '':''" "installable apps" "\<forall>n \<in> set held. \<not> HasSuffix n '':''"
    and "ob \<in> backupObjects S t apps held"
  shows "\<not> HasSuffix ob '':'' \<and> ob \<noteq> [] \<and> HasPrefix ob (''app:'' @ t @ ''/'')"
proof -
  have "\<not> HasSuffix ob '':'' \<and> ob \<noteq> [] \<and> HasPrefix ob (''app:'' @ t @ ''/'')" if "ob \<in> App t ` fst ` set (entitled apps)"
    using that App_wf [of _ t] assms(2) unfolding installable_def list_all_iff by (fastforce simp: App_def HasPrefix_def)
  moreover have "\<not> HasSuffix ob '':'' \<and> ob \<noteq> []" if "HasPrefix ob (''app:'' @ t @ ''/'')" "tup (Tenant t) ''tenant'' ob \<in> S"
    using that assms(1) by (fastforce simp: HasPrefix_def)
  ultimately show ?thesis using assms(4) heldObjects_wf [OF assms(3)] unfolding backupObjects_def by blast
qed

lemma backupObjects_not_tenant: "Tenant u \<notin> backupObjects S t apps held"
proof -
  have "\<not> HasPrefix (Tenant u) (''app:'' @ t @ ''/'')" by (simp add: Tenant_def HasPrefix_def)
  then show ?thesis by (auto simp: backupObjects_def heldObjects_def)
qed

lemma entry_mem: "x \<in> S \<Longrightarrow> t_user x = u \<Longrightarrow> t_relation x = r \<Longrightarrow> tup u r (t_object x) \<in> S"
  by (cases x) simp

context live_server
begin

lemma attached_objects:
  assumes "rd w (tup (Tenant t) ''tenant'' ''app:'') = Inr ts"
  shows "ob \<in> t_object ` set ts \<longleftrightarrow> HasPrefix ob ''app:'' \<and> tup (Tenant t) ''tenant'' ob \<in> stored w"
proof
  assume "ob \<in> t_object ` set ts"
  then obtain x where x: "x \<in> stored w" "t_user x = Tenant t" "t_relation x = ''tenant''" "HasPrefix (t_object x) ''app:''" "ob = t_object x"
    unfolding rd_sound [OF assms] matches_attached by blast
  then show "HasPrefix ob ''app:'' \<and> tup (Tenant t) ''tenant'' ob \<in> stored w" using entry_mem [OF x(1-3)] by simp
next
  assume "HasPrefix ob ''app:'' \<and> tup (Tenant t) ''tenant'' ob \<in> stored w"
  then have "tup (Tenant t) ''tenant'' ob \<in> set ts" unfolding rd_sound [OF assms] matches_attached by simp
  then show "ob \<in> t_object ` set ts" by (rule rev_image_eqI) simp
qed

lemma read_whole_object:
  assumes "\<not> HasSuffix ob '':''" "ob \<noteq> []"
  shows "\<exists>ts. rd w (tup [] [] ob) = Inr ts \<and> set ts = {x \<in> stored w. t_object x = ob} \<and> distinct ts"
proof -
  obtain ts where ts: "rd w (tup [] [] ob) = Inr ts" using rd_total by blast
  from rd_sound [OF ts] rd_distinct [OF ts] ts show ?thesis unfolding matches_whole_object [OF assms] by blast
qed

lemma entriesOn_ok:
  assumes "\<forall>ob \<in> set obs. \<not> HasSuffix ob '':'' \<and> ob \<noteq> []" "distinct obs" "distinct g"
    and "\<forall>x \<in> set g. t_object x \<notin> set obs"
  shows "\<exists>ts. entriesOn rd w obs g = Inr ts \<and> set ts = set g \<union> grantedIn (stored w) (set obs) \<and> distinct ts"
  using assms
proof (induction obs arbitrary: g)
  case Nil
  then show ?case by (simp add: grantedIn_def)
next
  case (Cons ob obs)
  obtain es where es: "rd w (tup [] [] ob) = Inr es" "set es = {x \<in> stored w. t_object x = ob}" "distinct es"
    using read_whole_object [of ob w] Cons.prems(1) by auto
  let ?g = "g @ filter (\<lambda>t. \<not> appRelation t) es"
  have g: "set ?g = set g \<union> grantedIn (stored w) {ob}" unfolding grantedIn_def using es(2) by auto
  have d: "distinct ?g" "\<forall>x \<in> set ?g. t_object x \<notin> set obs"
    using Cons.prems es(2,3) by auto
  have "\<forall>ob \<in> set obs. \<not> HasSuffix ob '':'' \<and> ob \<noteq> []" "distinct obs" using Cons.prems by simp_all
  from Cons.IH [OF this d] obtain ts where ts: "entriesOn rd w obs ?g = Inr ts"
    "set ts = set ?g \<union> grantedIn (stored w) (set obs)" "distinct ts" by blast
  have "entriesOn rd w (ob # obs) g = Inr ts" using ts(1) by (simp add: es(1))
  moreover have "set ts = set g \<union> grantedIn (stored w) (set (ob # obs))"
    unfolding ts(2) g by (auto simp: grantedIn_def)
  ultimately show ?case using ts(3) by blast
qed

lemma StoreOnlyOf_ok:
  assumes wf: "\<forall>x \<in> stored w. \<not> HasSuffix (t_object x) '':''" and t: "ValidTenantName t"
    and c: "CHR ''|'' \<notin> set cluster" and apps: "installable apps" and held: "\<forall>n \<in> set held. \<not> HasSuffix n '':''"
    and a: "attachment cluster t \<in> stored w"
  shows "\<exists>so. StoreOnlyOf rd w cluster t apps held = Inr so \<and> distinct (so_Granted so) \<and> sorted (map key (so_Granted so)) \<and>
     set (so_Granted so) = grantedOn (stored w) cluster t \<union> grantedIn (stored w) (backupObjects (stored w) t apps held) \<and>
     so_Withdrawn so = (if t \<noteq> PlatformTenant \<and> consent cluster t \<notin> stored w then [consent cluster t] else [])"
proof -
  let ?S = "stored w" and ?D = "derivedOn cluster t"
  let ?standing = "attachment cluster t # standingRoles t" and ?once = "[consent cluster t]"
  obtain want where want: "(appTuples t apps :: 'b reconcile_err + _) = Inr want" "barKeyed want" "snd ` set want = appsEntries t apps"
    using appTuples_ok [OF t apps] by blast
  obtain ts where ts: "rd w (tup [] [] (Tenant t)) = Inr ts" "set ts = {x \<in> ?S. t_object x = Tenant t}" "distinct ts"
    using read_whole_object [of "Tenant t" w] Tenant_no_colon [OF t] by auto
  obtain att where att: "rd w (tup (Tenant t) ''tenant'' ''app:'') = Inr att" using rd_total by blast
  let ?hv = "map key ts" and ?derived = "map key ?standing @ map key ?once @ map fst want"
  have D: "set ?derived = key ` (?D \<union> appsEntries t apps)"
    unfolding set_append set_map barKeyed_fst [OF want(2)] want(3) by (auto simp: derivedOn_def)
  have free: "\<forall>d \<in> ?D \<union> appsEntries t apps. barFree d"
    using derivedOn_barFree [OF t c] want(2,3) by (auto simp: barKeyed_def)
  have onT: "key x \<in> set ?hv \<longleftrightarrow> x \<in> ?S" if "x \<in> ?D" for x
  proof -
    have "t_object x = Tenant t" using that by (auto simp: derivedOn_def attachment_def consent_def standingRoles_def)
    with key_barFree [OF _ derivedOn_barFree [OF t c that]] ts(2) show ?thesis by auto
  qed
  let ?g = "filter (\<lambda>x. \<not> claimTenantRelation (t_relation x) \<and> key x \<notin> set ?derived) ts"
  have g: "set ?g = grantedOn ?S cluster t"
    using image_keys_barFree [OF free] appsEntries_not_on_tenant [of _ t apps] ts(2) unfolding D grantedOn_def by auto
  let ?obs = "(map (\<lambda>(k, x). t_object x) want @ heldObjects t held) @
     filter (\<lambda>ob. HasPrefix ob (''app:'' @ t @ ''/'')) (map t_object att)"
  have want_obs: "set (map (\<lambda>(k, x). t_object x) want) = App t ` fst ` set (entitled apps)"
    unfolding set_map split_beta image_image [symmetric, of t_object snd] want(3) appsEntries_objects ..
  have pre: "HasPrefix ob (''app:'' @ t @ ''/'') \<Longrightarrow> HasPrefix ob ''app:''" for ob by (auto simp: HasPrefix_def prefix_def)
  have obs: "set ?obs = backupObjects ?S t apps held"
    unfolding set_append want_obs backupObjects_def using attached_objects [OF att] pre by auto
  have ok: "\<forall>ob \<in> set (sort (remdups ?obs)). \<not> HasSuffix ob '':'' \<and> ob \<noteq> []"
    using backupObjects_wf [OF wf apps held, of _ t] unfolding obs [symmetric] by simp
  have apart: "\<forall>x \<in> set ?g. t_object x \<notin> set (sort (remdups ?obs))"
    using backupObjects_not_tenant unfolding set_sort set_remdups obs g by (simp add: grantedOn_def)
  have "distinct (sort (remdups ?obs))" "distinct ?g" using ts(3) by simp_all
  from entriesOn_ok [OF ok this apart] obtain gs where gs: "entriesOn rd w (sort (remdups ?obs)) ?g = Inr gs"
    "set gs = set ?g \<union> grantedIn ?S (set (sort (remdups ?obs)))" "distinct gs"
    by blast
  have "key (attachment cluster t) \<in> set ?hv" using onT a by (simp add: derivedOn_def)
  then have "StoreOnlyOf rd w cluster t apps held = Inr \<lparr>so_Granted = sort_key key gs,
      so_Withdrawn = (if t \<noteq> PlatformTenant then filter (\<lambda>x. key x \<notin> set ?hv) ?once else [])\<rparr>"
    by (simp only: StoreOnlyOf_def tenantDefaults_ok [OF t] want(1) ts(1) att gs(1) Let_def sum.case prod.case
        list.sel plain_id map_plain if_True if_False not_True_eq_False)
  moreover have "set (sort_key key gs) = grantedOn ?S cluster t \<union> grantedIn ?S (backupObjects ?S t apps held)"
    using gs(2) unfolding g set_sort set_remdups obs by simp
  moreover have "key (consent cluster t) \<in> set ?hv \<longleftrightarrow> consent cluster t \<in> ?S" using onT by (simp add: derivedOn_def)
  ultimately show ?thesis using gs(3) by simp
qed

lemma StoreOnlyOf_not_projected:
  assumes t: "ValidTenantName t" and c: "CHR ''|'' \<notin> set cluster" and apps: "installable apps"
    and a: "attachment cluster t \<notin> stored w"
  shows "StoreOnlyOf rd w cluster t apps held = Inl (ErrNotProjected t)"
proof -
  obtain want where want: "(appTuples t apps :: 'b reconcile_err + _) = Inr want" using appTuples_ok [OF t apps] by blast
  obtain ts where ts: "rd w (tup [] [] (Tenant t)) = Inr ts" "set ts = {x \<in> stored w. t_object x = Tenant t}"
    using read_whole_object [of "Tenant t" w] Tenant_no_colon [OF t] by auto
  have "barFree (attachment cluster t)" using derivedOn_barFree [OF t c] by (simp add: derivedOn_def)
  then have "key (attachment cluster t) \<notin> set (map key ts)" using key_barFree [OF sym] a ts(2) by auto
  then show ?thesis
    by (simp only: StoreOnlyOf_def tenantDefaults_ok [OF t] want ts(1) Let_def sum.case prod.case list.sel plain_id if_True
        not_False_eq_True)
qed

end

subsection \<open>Entries of a bundle\<close>

lemma Cut_parts:
  assumes "Cut s c = (a, b, found)"
  shows "found \<longleftrightarrow> c \<in> set s" "c \<notin> set a" "found \<Longrightarrow> s = a @ c # b" "\<not> found \<Longrightarrow> s = a \<and> b = []"
proof -
  show "found \<longleftrightarrow> c \<in> set s" "\<not> found \<Longrightarrow> s = a \<and> b = []" "c \<notin> set a"
    using assms by (auto simp: Cut_def dest: set_takeWhileD split: if_splits)
  show "s = a @ c # b" if "found"
    using assms that split_list_first [of c s] by (auto simp: Cut_def takeWhile_append dropWhile_append split: if_splits)
qed

text \<open>
  What an id of the store is: not empty, without blanks, untouched by a renaming of a cluster to
  itself, and, where no relation may follow, not that of a bare type.
\<close>

lemma storeId_ok:
  assumes "storeId what i userset = None"
  shows "i \<noteq> []" "CHR '' '' \<notin> set i" "rename c c i = i" "\<not> userset \<Longrightarrow> \<not> HasSuffix i '':''"
proof -
  obtain object relation found where cut: "Cut i (CHR ''#'') = (object, relation, found)" by (metis prod_cases3)
  obtain kind name ok where cut': "Cut object (CHR '':'') = (kind, name, ok)" by (metis prod_cases3)
  have i: "i \<noteq> []" "\<not> ContainsAny i [CHR '' '', CHR 0x09, CHR 0x0D, CHR 0x0A, CHR ''*'']"
    "found \<longrightarrow> userset \<and> relation \<noteq> []" "ok" "name \<noteq> []" "CHR '':'' \<notin> set name"
    using assms by (simp_all add: storeId_def cut cut' Let_def split: if_splits)
  show "i \<noteq> []" by (fact i(1))
  show "CHR '' '' \<notin> set i" using i(2) by (auto simp: ContainsAny_def list_ex_iff)
  show "rename c c i = i" using i(3) Cut_parts(3,4) [OF cut] by (auto simp: rename_def cut)
  show "\<not> HasSuffix i '':''" if "\<not> userset"
  proof -
    have "i = kind @ CHR '':'' # name"
      using that i(3) Cut_parts(4) [OF cut] Cut_parts(3) [OF cut' i(4)] by simp
    moreover have "last name \<noteq> CHR '':''" using last_in_set [OF i(5)] i(6) by metis
    ultimately show ?thesis using HasSuffix_colon [OF i(5), of "kind @ '':''"] by simp
  qed
qed

lemma WellFormed_parts:
  assumes "WellFormed t = None"
  shows "t_user t \<noteq> []" "t_relation t \<noteq> []" "t_object t \<noteq> []" "CHR '' '' \<notin> set (t_user t)"
    "CHR '' '' \<notin> set (t_relation t)" "CHR '' '' \<notin> set (t_object t)" "\<not> HasSuffix (t_object t) '':''"
proof -
  have u: "storeId ''the holder'' (t_user t) True = None" and ob: "storeId ''the object'' (t_object t) False = None"
    and r: "t_relation t \<noteq> []"
      "\<not> ContainsAny (t_relation t) [CHR '' '', CHR 0x09, CHR 0x0D, CHR 0x0A, CHR ''#'', CHR '':'', CHR ''*'']"
    using assms by (simp_all add: WellFormed_def split: option.splits if_splits)
  from storeId_ok(1,2) [OF u] storeId_ok(1,2,4) [OF ob] r
  show "t_user t \<noteq> []" "t_relation t \<noteq> []" "t_object t \<noteq> []" "CHR '' '' \<notin> set (t_user t)"
    "CHR '' '' \<notin> set (t_relation t)" "CHR '' '' \<notin> set (t_object t)" "\<not> HasSuffix (t_object t) '':''"
    by (auto simp: ContainsAny_def list_ex_iff)
qed

lemma Rebase_same: "WellFormed t = None \<Longrightarrow> Rebase t c c = t"
  by (simp add: Rebase_def WellFormed_def storeId_ok(3) split: option.splits)

subsection \<open>Properties\<close>

text \<open>
  C6. What a backup carries of the rights store. On a server that answers, of a tenant the store
  attaches to its cluster, it carries exactly the entries on the tenant that are no default of the
  projection and of no relation the Cluster claim decides, and the entries on every object of its
  apps - installed, still held, or attached to it - that are of neither relation the projection
  owns there; each once. Withdrawn is the consent to being operated by the cluster, exactly when
  the store no longer holds it, and never for the platform tenant. A tenant that is not attached
  is an error and not one that withdrew everything.
\<close>

theorem backup_carries_the_rest:
  assumes "live_server stored rd post"
    and "\<forall>x \<in> stored w. \<not> HasSuffix (t_object x) '':''" "ValidTenantName t" "CHR ''|'' \<notin> set cluster"
    and "installable apps" "\<forall>n \<in> set held. \<not> HasSuffix n '':''"
  shows "case StoreOnlyOf rd w cluster t apps held of
      Inl e \<Rightarrow> e = ErrNotProjected t \<and> attachment cluster t \<notin> stored w
    | Inr so \<Rightarrow> attachment cluster t \<in> stored w \<and> distinct (so_Granted so) \<and>
        set (so_Granted so) =
          {x \<in> stored w. t_object x = Tenant t \<and> \<not> claimTenantRelation (t_relation x) \<and> x \<notin> derivedOn cluster t} \<union>
          {x \<in> stored w. t_object x \<in> backupObjects (stored w) t apps held \<and> \<not> appRelation x} \<and>
        so_Withdrawn so = (if t \<noteq> PlatformTenant \<and> consent cluster t \<notin> stored w then [consent cluster t] else [])"
proof (cases "attachment cluster t \<in> stored w")
  case True
  from live_server.StoreOnlyOf_ok [OF assms True] obtain so where so: "StoreOnlyOf rd w cluster t apps held = Inr so"
    "distinct (so_Granted so)"
    "set (so_Granted so) = grantedOn (stored w) cluster t \<union> grantedIn (stored w) (backupObjects (stored w) t apps held)"
    "so_Withdrawn so = (if t \<noteq> PlatformTenant \<and> consent cluster t \<notin> stored w then [consent cluster t] else [])"
    by blast
  show ?thesis unfolding so(1) sum.case
    by (intro conjI True so(2) so(3) [unfolded grantedOn_def grantedIn_def] so(4))
next
  case False
  from live_server.StoreOnlyOf_not_projected [OF assms(1,3,4,5) False] False show ?thesis by simp
qed

text \<open>
  A tenant that took back its consent, with a person granted a role beside the defaults and one on
  an app that is no longer installed: both are carried, the defaults are not.
\<close>

definition sampleRights :: memory where
  "sampleRights =
     [tup ''cluster:c1'' ''cluster'' ''tenant:acme'',
      tup ''group:gentian/tenant/acme/admins#member'' ''admin'' ''tenant:acme'',
      tup ''group:gentian/tenant/acme/members#member'' ''member'' ''tenant:acme'',
      tup ''user:anna'' ''admin'' ''tenant:acme'',
      tup ''user:eve'' ''auditor'' ''tenant:acme'',
      tup ''user:bert'' ''can_use'' ''app:acme/wiki'',
      tup ''tenant:acme'' ''tenant'' ''app:acme/wiki'']"

theorem backup_carries_the_rest_witness:
  "StoreOnlyOf mem_read sampleRights ''c1'' ''acme'' [] [] =
     Inr \<lparr>so_Granted = [tup ''user:anna'' ''admin'' ''tenant:acme'', tup ''user:bert'' ''can_use'' ''app:acme/wiki''],
          so_Withdrawn = [tup ''cluster:c1'' ''operated_by'' ''tenant:acme'']\<rparr> \<and>
   consent ''c1'' ''acme'' \<notin> set sampleRights"
proof -
  have r: "StoreOnlyOf mem_read sampleRights ''c1'' ''acme'' [] [] =
     Inr \<lparr>so_Granted = [tup ''user:anna'' ''admin'' ''tenant:acme'', tup ''user:bert'' ''can_use'' ''app:acme/wiki''],
          so_Withdrawn = [tup ''cluster:c1'' ''operated_by'' ''tenant:acme'']\<rparr>"
    by code_simp
  have "list_all (\<lambda>x. \<not> HasSuffix (t_object x) '':'') sampleRights" "ValidTenantName ''acme''" "installable []"
    by (code_simp, code_simp, code_simp)
  then have "so_Withdrawn \<lparr>so_Granted = [tup ''user:anna'' ''admin'' ''tenant:acme'', tup ''user:bert'' ''can_use'' ''app:acme/wiki''],
      so_Withdrawn = [tup ''cluster:c1'' ''operated_by'' ''tenant:acme'']\<rparr> =
    (if ''acme'' \<noteq> PlatformTenant \<and> consent ''c1'' ''acme'' \<notin> set sampleRights then [consent ''c1'' ''acme''] else [])"
    using backup_carries_the_rest [OF mem.live_server_axioms, of sampleRights "''acme''" "''c1''" "[]" "[]"]
    unfolding r sum.case by (simp add: list_all_iff)
  with r show ?thesis by (simp split: if_splits)
qed

end
