(* ===== verification/Bundle_Signature.thy ===== *)
theory Bundle_Signature
  imports Component_Keys Rights_Store
begin

section \<open>Where a bundle comes from\<close>

text \<open>
  \<open>internal/backup/signature.go\<close>: the manifest of a bundle is signed with the key of the cluster that
  wrote it, and a restore asks whether the bundle was signed with its own cluster's key and taken
  on its own cluster. Ed25519 and SHA-256 are arguments (\<open>pub\<close>, \<open>sign\<close>, \<open>verify\<close>, \<open>sum256\<close>); what is
  relied on is that a signature verifies with the public half of the key that made it, and that
  this half has 32 bytes. The base64 of Go's \<open>encoding/base64\<close> (standard alphabet, padded, not strict)
  and the hex of \<open>encoding/hex\<close> are written out.
\<close>

subsection \<open>Base64\<close>

definition alphabet :: string where
  "alphabet = ''ABCDEFGHIJKLMNOPQRSTUVWXYZabcdefghijklmnopqrstuvwxyz0123456789+/''"

definition sextet :: "nat \<Rightarrow> char" where
  "sextet n = alphabet ! n"

definition sextetOf :: "char \<Rightarrow> nat option" where
  "sextetOf x = map_of (zip alphabet [0..<64]) x"

fun encode64 :: "nat list \<Rightarrow> string" where
  "encode64 [] = []"
| "encode64 [x] = [sextet (x div 4), sextet (x mod 4 * 16), CHR ''='', CHR ''='']"
| "encode64 [x, y] = [sextet (x div 4), sextet (x mod 4 * 16 + y div 16), sextet (y mod 16 * 4), CHR ''='']"
| "encode64 (x # y # z # bs) =
     [sextet (x div 4), sextet (x mod 4 * 16 + y div 16), sextet (y mod 16 * 4 + z div 64), sextet (z mod 64)] @
     encode64 bs"

definition EncodeBase64 :: "string \<Rightarrow> string" where
  "EncodeBase64 s = encode64 (map of_char s)"

text \<open>Four characters at a time, the last group padded; bits the padding leaves over are ignored.\<close>

fun decode64 :: "string \<Rightarrow> nat list option" where
  "decode64 [] = Some []"
| "decode64 (a # b # c # d # rest) =
     (case (sextetOf a, sextetOf b) of
        (Some p, Some q) \<Rightarrow>
          (if c = CHR ''='' then
             (if d = CHR ''='' \<and> rest = [] then Some [p * 4 + q div 16] else None)
           else
             (case sextetOf c of
                None \<Rightarrow> None
              | Some r \<Rightarrow>
                  (if d = CHR ''='' then
                     (if rest = [] then Some [p * 4 + q div 16, q mod 16 * 16 + r div 4] else None)
                   else
                     (case (sextetOf d, decode64 rest) of
                        (Some s, Some bs) \<Rightarrow>
                          Some ([p * 4 + q div 16, q mod 16 * 16 + r div 4, r mod 4 * 64 + s] @ bs)
                      | _ \<Rightarrow> None))))
      | _ \<Rightarrow> None)"
| "decode64 _ = None"

definition DecodeBase64 :: "string \<Rightarrow> string option" where
  "DecodeBase64 s =
     map_option (map char_of) (decode64 (filter (\<lambda>x. x \<noteq> CHR 0x0A \<and> x \<noteq> CHR 0x0D) s))"

subsection \<open>Hex\<close>

fun DecodeHex :: "string \<Rightarrow> string option" where
  "DecodeHex [] = Some []"
| "DecodeHex [x] = None"
| "DecodeHex (x # y # s) =
     (case (hexValue x, hexValue y, DecodeHex s) of
        (Some p, Some q, Some bs) \<Rightarrow> Some (char_of (p * 16 + q) # bs)
      | _ \<Rightarrow> None)"

subsection \<open>Keys and signatures\<close>

record manifest_signature =
  ms_Algorithm :: string
  ms_PublicKey :: string
  ms_Signature :: string

definition SignatureContext :: string where
  "SignatureContext = ''gentian-os bundle manifest v1'' @ [CHR 0x0A]"

definition SignatureAlgorithm :: string where
  "SignatureAlgorithm = ''ed25519''"

definition KernelPath :: "string \<Rightarrow> string \<Rightarrow> string" where
  "KernelPath category name = ''gentian-os/kernel/'' @ category @ ''/'' @ name"

definition SigningKeyPath :: string where
  "SigningKeyPath = KernelPath ''backup'' ''signing''"

datatype 'e signing_err = ErrNoSigningKey | NotASeed | VaultUnreadable 'e

definition SigningKeyFromSeed :: "(string \<Rightarrow> 'k) \<Rightarrow> string \<Rightarrow> 'e signing_err + 'k" where
  "SigningKeyFromSeed newKeyFromSeed seed =
     (let seed = TrimSpace seed in
      if seed = [] then Inl ErrNoSigningKey
      else
        (case DecodeHex seed of
           None \<Rightarrow> Inl NotASeed
         | Some raw \<Rightarrow> if length raw \<noteq> 32 then Inl NotASeed else Inr (newKeyFromSeed raw)))"

definition SigningKeyFromVault ::
  "(string \<Rightarrow> 'k) \<Rightarrow> (string \<Rightarrow> 'e + (string, string) gomap) option \<Rightarrow> ('e \<Rightarrow> bool) option \<Rightarrow> 'e signing_err + 'k" where
  "SigningKeyFromVault newKeyFromSeed rd absent =
     (case rd of
        None \<Rightarrow> Inl ErrNoSigningKey
      | Some rd \<Rightarrow>
          (case rd SigningKeyPath of
             Inl e \<Rightarrow>
               (case absent of
                  Some absent \<Rightarrow> if absent e then Inl ErrNoSigningKey else Inl (VaultUnreadable e)
                | None \<Rightarrow> Inl (VaultUnreadable e))
           | Inr data \<Rightarrow>
               SigningKeyFromSeed newKeyFromSeed
                 (case map_of data ''signing_seed'' of None \<Rightarrow> [] | Some v \<Rightarrow> v)))"

definition PublicKey :: "('k \<Rightarrow> string) \<Rightarrow> 'k \<Rightarrow> string" where
  "PublicKey pub k = EncodeBase64 (pub k)"

definition keyID :: "(string \<Rightarrow> string) \<Rightarrow> string \<Rightarrow> string" where
  "keyID sum256 public = take 16 (EncodeToString (sum256 public))"

definition signedMessage :: "string \<Rightarrow> string" where
  "signedMessage manifest = SignatureContext @ TrimSuffix manifest [CHR 0x0A]"

definition SignManifest ::
  "('k \<Rightarrow> string) \<Rightarrow> ('k \<Rightarrow> string \<Rightarrow> string) \<Rightarrow> 'k \<Rightarrow> string \<Rightarrow> manifest_signature" where
  "SignManifest pub sign k manifest =
     \<lparr>ms_Algorithm = SignatureAlgorithm, ms_PublicKey = PublicKey pub k,
      ms_Signature = EncodeBase64 (sign k (signedMessage manifest))\<rparr>"

subsection \<open>Provenance\<close>

text \<open>The manifest's entries of the rights store, and the two of its fields that matter here.\<close>

record manifest_rights =
  mr_Cluster :: string
  mr_Granted :: "tuple list"
  mr_Withdrawn :: "tuple list"

record bundle_manifest =
  bm_ClusterUID :: string
  bm_Rights :: "manifest_rights option"

record provenance =
  pv_Reason :: string
  pv_Message :: string

definition ProvenanceProven :: string where
  "ProvenanceProven = ''Proven''"

definition ProvenanceNoKey :: string where
  "ProvenanceNoKey = ''NoSigningKey''"

definition ProvenanceUnsigned :: string where
  "ProvenanceUnsigned = ''Unsigned''"

definition ProvenanceOtherKey :: string where
  "ProvenanceOtherKey = ''SignedByAnotherKey''"

definition ProvenanceBadSignature :: string where
  "ProvenanceBadSignature = ''BadSignature''"

definition ProvenanceNoClusterID :: string where
  "ProvenanceNoClusterID = ''NoClusterID''"

definition ProvenanceOtherCluster :: string where
  "ProvenanceOtherCluster = ''AnotherCluster''"

abbreviation prov :: "string \<Rightarrow> string \<Rightarrow> provenance" where
  "prov reason message \<equiv> \<lparr>pv_Reason = reason, pv_Message = message\<rparr>"

definition Proven :: "provenance \<Rightarrow> bool" where
  "Proven p \<longleftrightarrow> pv_Reason p = ProvenanceProven"

definition CheckProvenance ::
  "('k \<Rightarrow> string) \<Rightarrow> (string \<Rightarrow> string \<Rightarrow> string \<Rightarrow> bool) \<Rightarrow> (string \<Rightarrow> string) \<Rightarrow> string \<Rightarrow> bundle_manifest option \<Rightarrow>
   manifest_signature option \<Rightarrow> 'k option \<Rightarrow> string \<Rightarrow> provenance" where
  "CheckProvenance pub verify sum256 manifest m sig own ownUID =
     (case own of
        None \<Rightarrow> prov ProvenanceNoKey ''this cluster holds no bundle signing key (gentian-os/kernel/backup/signing), so it cannot tell whether it wrote the bundle''
      | Some own \<Rightarrow>
     (case sig of
        None \<Rightarrow> prov ProvenanceUnsigned ''the bundle is not signed: it was written before bundles were signed, or by a platform that does not sign them''
      | Some sig \<Rightarrow>
     (let unreadable = prov ProvenanceBadSignature ''the bundle's signature is NOT one this platform can read: it was damaged or made up'' in
      case (DecodeBase64 (ms_PublicKey sig), DecodeBase64 (ms_Signature sig)) of
        (Some public, Some signature) \<Rightarrow>
          (if ms_Algorithm sig \<noteq> SignatureAlgorithm \<or> length public \<noteq> 32 then unreadable
           else if public \<noteq> pub own then
             prov ProvenanceOtherKey (''the bundle is signed with another key ('' @ keyID sum256 public @
               '') than this cluster's ('' @ keyID sum256 (pub own) @
               ''): it was written on another cluster, or on this one before its bundle signing key was replaced'')
           else if \<not> verify (pub own) (signedMessage manifest) signature then
             prov ProvenanceBadSignature ''the bundle's signature does NOT match its manifest: the manifest was changed after this cluster signed it, or the signature is another bundle's''
           else if ownUID = [] then
             prov ProvenanceNoClusterID ''this cluster has no cluster id (spec.clusterUID of its Cluster claim), so it cannot tell whether the bundle was taken on it''
           else
             (let uid = (case m of None \<Rightarrow> [] | Some m \<Rightarrow> bm_ClusterUID m) in
              if m = None \<or> uid \<noteq> ownUID then
                prov ProvenanceOtherCluster (''the bundle is signed with this cluster's key and was taken on a cluster of another id ('' @
                  (if uid = [] then ''none'' else uid) @ ''; this one is '' @ ownUID @
                  ''): one built from the same recovery kit and another deployments repository'')
              else
                prov ProvenanceProven (''the bundle is signed with this cluster's key and was taken on this cluster ('' @ ownUID @ '')'')))
      | _ \<Rightarrow> unreadable)))"

subsection \<open>What is encoded is decoded\<close>

lemma sextet_ok:
  assumes "n < 64"
  shows "sextetOf (sextet n) = Some n" "sextet n \<noteq> CHR ''=''" "sextet n \<noteq> CHR 0x0A" "sextet n \<noteq> CHR 0x0D"
proof -
  have "list_all (\<lambda>n. sextetOf (sextet n) = Some n \<and> sextet n \<noteq> CHR ''='' \<and> sextet n \<noteq> CHR 0x0A \<and> sextet n \<noteq> CHR 0x0D) [0..<64]"
    by code_simp
  with assms show "sextetOf (sextet n) = Some n" "sextet n \<noteq> CHR ''=''" "sextet n \<noteq> CHR 0x0A" "sextet n \<noteq> CHR 0x0D"
    by (simp_all add: list_all_iff)
qed

text \<open>The bits of three bytes in four sextets.\<close>

lemma six_bits:
  fixes x y z :: nat
  assumes "x < 256" "y < 256" "z < 256"
  shows "x div 4 < 64" "x mod 4 * 16 + y div 16 < 64" "y mod 16 * 4 + z div 64 < 64"
    "x div 4 * 4 + (x mod 4 * 16 + y div 16) div 16 = x"
    "(x mod 4 * 16 + y div 16) mod 16 * 16 + (y mod 16 * 4 + z div 64) div 4 = y"
    "(y mod 16 * 4 + z div 64) mod 4 * 64 + z mod 64 = z"
    "y div 16 mod 16 * 16 + y mod 16 = y"
proof -
  have b: "y div 16 < 16" "z div 64 < 4" "x mod 4 < 4" "y mod 16 < 16" using assms by auto
  show "x div 4 < 64" "x mod 4 * 16 + y div 16 < 64" "y mod 16 * 4 + z div 64 < 64" using assms b by linarith+
  have "(x mod 4 * 16 + y div 16) div 16 = x mod 4" "(x mod 4 * 16 + y div 16) mod 16 = y div 16"
    "(y mod 16 * 4 + z div 64) div 4 = y mod 16" "(y mod 16 * 4 + z div 64) mod 4 = z div 64"
    using b by simp_all
  then show "x div 4 * 4 + (x mod 4 * 16 + y div 16) div 16 = x"
    "(x mod 4 * 16 + y div 16) mod 16 * 16 + (y mod 16 * 4 + z div 64) div 4 = y"
    "(y mod 16 * 4 + z div 64) mod 4 * 64 + z mod 64 = z" "y div 16 mod 16 * 16 + y mod 16 = y"
    using b(1) by simp_all
qed

lemma decode64_encode64: "list_all (\<lambda>b. b < 256) bs \<Longrightarrow> decode64 (encode64 bs) = Some bs"
proof (induction bs rule: encode64.induct)
  case (2 x)
  then show ?case using six_bits [of x 0 0] by (simp add: sextet_ok)
next
  case (3 x y)
  then show ?case using six_bits [of x y 0] by (simp add: sextet_ok)
next
  case (4 x y z bs)
  then show ?case using six_bits [of x y z] by (simp add: sextet_ok)
qed simp

lemma encode64_one_line:
  "list_all (\<lambda>b. b < 256) bs \<Longrightarrow> filter (\<lambda>x. x \<noteq> CHR 0x0A \<and> x \<noteq> CHR 0x0D) (encode64 bs) = encode64 bs"
proof (induction bs rule: encode64.induct)
  case (2 x)
  then show ?case using six_bits [of x 0 0] by (simp add: sextet_ok)
next
  case (3 x y)
  then show ?case using six_bits [of x y 0] by (simp add: sextet_ok)
next
  case (4 x y z bs)
  then show ?case using six_bits [of x y z] by (simp add: sextet_ok)
qed simp

lemma base64_roundtrip: "DecodeBase64 (EncodeBase64 s) = Some s"
proof -
  have "list_all (\<lambda>b. b < 256) (map of_char s :: nat list)" by (simp add: list_all_iff)
  then show ?thesis by (simp add: DecodeBase64_def EncodeBase64_def encode64_one_line decode64_encode64 comp_def)
qed

subsection \<open>What a proven bundle is\<close>

lemmas reasons =
  ProvenanceProven_def ProvenanceNoKey_def ProvenanceUnsigned_def ProvenanceOtherKey_def
  ProvenanceBadSignature_def ProvenanceNoClusterID_def ProvenanceOtherCluster_def

lemma Proven_iff:
  "Proven (CheckProvenance pub verify sum256 manifest m sig own ownUID) \<longleftrightarrow>
     (\<exists>k s signature m'. own = Some k \<and> sig = Some s \<and> m = Some m' \<and> ms_Algorithm s = SignatureAlgorithm \<and>
        DecodeBase64 (ms_PublicKey s) = Some (pub k) \<and> length (pub k) = 32 \<and>
        DecodeBase64 (ms_Signature s) = Some signature \<and> verify (pub k) (signedMessage manifest) signature \<and>
        ownUID \<noteq> [] \<and> bm_ClusterUID m' = ownUID)"
  by (auto simp: CheckProvenance_def Proven_def reasons Let_def split: option.split)

text \<open>The sentence beside the reason is never empty, which the plan of a restore relies on.\<close>

lemma CheckProvenance_says: "pv_Message (CheckProvenance pub verify sum256 manifest m sig own ownUID) \<noteq> []"
  by (auto simp: CheckProvenance_def Let_def split: option.split)

subsection \<open>Properties\<close>

text \<open>
  C7. A signed bundle recognizes its cluster and no other. With signatures that verify under the
  key that made them, the manifest a cluster signed - read back with or without the newline its
  file ends with - is proven exactly on a cluster that holds a key of the same public half and has
  the id the manifest names: not without a key, not by another key, not under another id.
\<close>

theorem own_bundles_are_proven:
  assumes "\<And>m. verify (pub k) m (sign k m)" "length (pub k) = 32"
    and "TrimSuffix file [CHR 0x0A] = TrimSuffix manifest [CHR 0x0A]"
  shows "Proven (CheckProvenance pub verify sum256 file m (Some (SignManifest pub sign k manifest)) own ownUID) \<longleftrightarrow>
     (\<exists>own'. own = Some own' \<and> pub own' = pub k) \<and> ownUID \<noteq> [] \<and> (\<exists>m'. m = Some m' \<and> bm_ClusterUID m' = ownUID)"
  using assms by (auto simp: Proven_iff SignManifest_def PublicKey_def base64_roundtrip signedMessage_def)

text \<open>A key of one byte, repeated for its public half and put before what it signs.\<close>

theorem own_bundles_are_proven_witness:
  "Proven (CheckProvenance (replicate 32) (\<lambda>p m s. s = hd p # m) id ''{}'' (Some \<lparr>bm_ClusterUID = ''u1'', bm_Rights = None\<rparr>)
     (Some (SignManifest (replicate 32) (#) (CHR ''k'') (''{}'' @ [CHR 0x0A]))) (Some (CHR ''k'')) ''u1'') \<and>
   \<not> Proven (CheckProvenance (replicate 32) (\<lambda>p m s. s = hd p # m) id ''{}'' (Some \<lparr>bm_ClusterUID = ''u1'', bm_Rights = None\<rparr>)
     (Some (SignManifest (replicate 32) (#) (CHR ''k'') (''{}'' @ [CHR 0x0A]))) (Some (CHR ''j'')) ''u1'')"
proof -
  have v: "\<And>m. (\<lambda>p m s. s = hd p # m) (replicate 32 (CHR ''k'')) m (CHR ''k'' # m)" "length (replicate 32 (CHR ''k'')) = 32"
    by simp_all
  have t: "TrimSuffix ''{}'' [CHR 0x0A] = TrimSuffix (''{}'' @ [CHR 0x0A]) [CHR 0x0A]" by code_simp
  note i = own_bundles_are_proven [where sign = "(#)" and k = "CHR ''k''" and pub = "replicate 32" and verify = "\<lambda>p m s. s = hd p # m", OF v t]
  show ?thesis by (subst i, subst i) simp
qed

end
