(* ===== verification/Rights_Restore.thy ===== *)
theory Rights_Restore
  imports Rights_Backup Bundle_Signature
begin

section \<open>A tenant's rights in a backup and in a restore\<close>

text \<open>
  \<open>internal/controller/tenant_rights.go\<close>: an export puts what exists only in the rights store into the
  manifest, a restore plans what of it comes back - each entry under the name of the cluster
  restored on, a grant only from a bundle that is proven to be this cluster's own - and writes the
  plan once the tenant is attached. The sentences are the code's; \<open>q\<close> is the verb \<open>%q\<close>.
\<close>

subsection \<open>Definitions\<close>

datatype ('a, 'e) export_err = NotInstalled 'a | NotRetained 'a | NotRead string "'e backup_err"

text \<open>
  The installed apps with their profile, as \<open>catalogue.ResolveTenantComponentProfile\<close> names it:
  an app whose profile cannot be named is left out, as the projection leaves it out.
\<close>

definition installedOf :: "('app \<Rightarrow> 'p + string) \<Rightarrow> ('app \<Rightarrow> string list) \<Rightarrow> 'app list \<Rightarrow> installed_app list" where
  "installedOf resolve addons apps =
     concat (map (\<lambda>app. case resolve app of
        Inl e \<Rightarrow> []
      | Inr profile \<Rightarrow> [\<lparr>ia_profile = profile, ia_addons = addons app\<rparr>]) apps)"

definition storeOnlyRights ::
  "('w \<Rightarrow> tuple \<Rightarrow> 'e + tuple list) option \<Rightarrow> 'w \<Rightarrow> string \<Rightarrow> string \<Rightarrow> ('app \<Rightarrow> 'p + string) \<Rightarrow> ('app \<Rightarrow> string list) \<Rightarrow>
   'a + 'app list \<Rightarrow> 'a + string list \<Rightarrow> ('a, 'e) export_err + manifest_rights option" where
  "storeOnlyRights store w clusterID tenant resolve addons installed retained =
     (case store of
        None \<Rightarrow> Inr None
      | Some rd \<Rightarrow>
     (if clusterID = [] then Inr None
      else
     (case installed of
        Inl e \<Rightarrow> Inl (NotInstalled e)
      | Inr apps \<Rightarrow>
     (case retained of
        Inl e \<Rightarrow> Inl (NotRetained e)
      | Inr held \<Rightarrow>
     (case StoreOnlyOf rd w clusterID tenant (installedOf resolve addons apps) held of
        Inl e \<Rightarrow> Inl (NotRead tenant e)
      | Inr only \<Rightarrow>
          Inr (Some \<lparr>mr_Cluster = clusterID, mr_Granted = so_Granted only, mr_Withdrawn = so_Withdrawn only\<rparr>))))))"

record restore_rights =
  rr_Grant :: "string list"
  rr_Withdraw :: "string list"
  rr_NotBrought :: "string list"
  rr_Provenance :: string
  rr_ProvenanceMessage :: string
  rr_Applied :: bool

definition formText :: "(string \<Rightarrow> string) \<Rightarrow> form_err \<Rightarrow> string" where
  "formText q e =
     (case e of
        NotAnId what i \<Rightarrow> what @ '' '' @ q i @ '' is not an id of the rights store''
      | NotARelation r \<Rightarrow> ''the relation '' @ q r @ '' is not one of the rights store's'')"

definition rightsText :: "tuple \<Rightarrow> string" where
  "rightsText t = t_user t @ '' '' @ t_relation t @ '' '' @ t_object t"

definition usable ::
  "(string \<Rightarrow> string) \<Rightarrow> string \<Rightarrow> string \<Rightarrow> string \<Rightarrow> bool \<Rightarrow> string \<Rightarrow> tuple \<Rightarrow> tuple \<times> string" where
  "usable q fromCluster tenant cluster haveStore ours raw =
     (let t = Rebase raw fromCluster cluster in
      (t,
       if \<not> haveStore then ''this cluster's operator has no rights store to write it to''
       else
         (case WellFormed t of
            Some e \<Rightarrow> formText q e
          | None \<Rightarrow>
              (if \<not> OnTenant t tenant then ''it is held on something that is neither this tenant nor one of its apps''
               else if HasPrefix (t_user t) ''user:'' \<and> ours \<noteq> [] then
                 ''it names a person, and a person's rights come back only from this cluster's own bundle of this tenant: '' @ ours
               else []))))"

definition grantWhy :: "string \<Rightarrow> tuple \<times> string \<Rightarrow> tuple \<times> string" where
  "grantWhy ours u =
     (case u of (t, why) \<Rightarrow>
       (t, if why = [] \<and> ours \<noteq> [] then ''it was granted in the tenant the bundle was taken of, and a grant comes back only from this cluster's own bundle of this tenant; whoever may grant it here grants it again'' else why))"

definition rightsPlan ::
  "(string \<Rightarrow> string) \<Rightarrow> bundle_manifest \<Rightarrow> string \<Rightarrow> string \<Rightarrow> provenance \<Rightarrow> bool \<Rightarrow> restore_rights option" where
  "rightsPlan q m tenant cluster p haveStore =
     (case bm_Rights m of
        None \<Rightarrow> None
      | Some r \<Rightarrow>
          (if mr_Granted r = [] \<and> mr_Withdrawn r = [] then None
           else
             (let ours = (if \<not> Proven p then pv_Message p else []);
                  withdrawn = map (usable q (mr_Cluster r) tenant cluster haveStore ours) (mr_Withdrawn r);
                  granted = map (grantWhy ours \<circ> usable q (mr_Cluster r) tenant cluster haveStore ours) (mr_Granted r) in
              Some \<lparr>rr_Grant = map (\<lambda>(t, why). rightsText t) (filter (\<lambda>(t, why). why = []) granted),
                    rr_Withdraw = map (\<lambda>(t, why). rightsText t) (filter (\<lambda>(t, why). why = []) withdrawn),
                    rr_NotBrought =
                      map (\<lambda>(t, why). rightsText t @ '' (withdrawn in the bundle): '' @ why)
                        (filter (\<lambda>(t, why). why \<noteq> []) withdrawn) @
                      map (\<lambda>(t, why). rightsText t @ '': '' @ why) (filter (\<lambda>(t, why). why \<noteq> []) granted),
                    rr_Provenance = pv_Reason p, rr_ProvenanceMessage = pv_Message p, rr_Applied = False\<rparr>)))"

datatype 'e restore_err =
    NotAnEntry string
  | NotWellFormed form_err
  | NoStore
  | ReadStore 'e
  | Refused string string
  | ReadEntry string 'e
  | WriteStore 'e

definition rightsTuple :: "string \<Rightarrow> 'e restore_err + tuple" where
  "rightsTuple text =
     (case Split text (CHR '' '') of
        [u, r, ob] \<Rightarrow> (case WellFormed (tup u r ob) of Some e \<Rightarrow> Inl (NotWellFormed e) | None \<Rightarrow> Inr (tup u r ob))
      | _ \<Rightarrow> Inl (NotAnEntry text))"

text \<open>The entries of the plan that the store does (\<open>present\<close>) or does not hold.\<close>

fun planned ::
  "('w \<Rightarrow> tuple \<Rightarrow> 'e + tuple list) \<Rightarrow> 'w \<Rightarrow> string \<Rightarrow> bool \<Rightarrow> string list \<Rightarrow> tuple list \<Rightarrow> 'e restore_err + tuple list" where
  "planned rd w tenant present [] out = Inr out"
| "planned rd w tenant present (text # texts) out =
     (case rightsTuple text of
        Inl e \<Rightarrow> Inl e
      | Inr t \<Rightarrow>
          (if \<not> OnTenant t tenant then Inl (Refused text tenant)
           else
             (case rd w t of
                Inl e \<Rightarrow> Inl (ReadEntry text e)
              | Inr hv \<Rightarrow> planned rd w tenant present texts (if (hv \<noteq> []) = present then out @ [t] else out))))"

definition applyRights ::
  "('w \<Rightarrow> tuple \<Rightarrow> 'e + tuple list) \<Rightarrow> ('w \<Rightarrow> write_request \<Rightarrow> 'e option \<times> 'w) \<Rightarrow> string \<Rightarrow> bool \<Rightarrow> string \<Rightarrow> string \<Rightarrow>
   restore_rights option \<Rightarrow> 'w \<Rightarrow> ('e restore_err + bool) \<times> restore_rights option \<times> 'w" where
  "applyRights rd post model haveStore cluster tenant plan w =
     (case plan of
        None \<Rightarrow> (Inr True, plan, w)
      | Some p \<Rightarrow>
     (if rr_Applied p \<or> rr_Grant p = [] \<and> rr_Withdraw p = [] then (Inr True, plan, w)
      else if \<not> haveStore then (Inl NoStore, plan, w)
      else
     (case rd w (tup (Cluster cluster) ''cluster'' (Tenant tenant)) of
        Inl e \<Rightarrow> (Inl (ReadStore e), plan, w)
      | Inr attached \<Rightarrow>
     (if attached = [] then (Inr False, plan, w)
      else
     (case planned rd w tenant False (rr_Grant p) [] of
        Inl e \<Rightarrow> (Inl e, plan, w)
      | Inr writes \<Rightarrow>
     (case planned rd w tenant True (rr_Withdraw p) [] of
        Inl e \<Rightarrow> (Inl e, plan, w)
      | Inr deletes \<Rightarrow>
     (if writes \<noteq> [] \<or> deletes \<noteq> [] then
        (case Write post writes deletes (modelOptions model) w of
           (Some e, w') \<Rightarrow> (Inl (WriteStore e), plan, w')
         | (None, w') \<Rightarrow> (Inr True, Some (p\<lparr>rr_Applied := True\<rparr>), w'))
      else (Inr True, Some (p\<lparr>rr_Applied := True\<rparr>), w))))))))"

subsection \<open>What is planned\<close>

text \<open>An entry of a bundle on the cluster restored on, and when it may be written at all.\<close>

definition writable :: "string \<Rightarrow> tuple \<Rightarrow> bool" where
  "writable tenant t \<longleftrightarrow> WellFormed t = None \<and> OnTenant t tenant"

lemma formText_ne [simp]: "formText q e \<noteq> []"
  by (simp add: formText_def split: form_err.split)

lemma usable_iff:
  "usable q from tenant cluster haveStore ours raw = (t, []) \<longleftrightarrow>
     t = Rebase raw from cluster \<and> haveStore \<and> writable tenant t \<and> (ours = [] \<or> \<not> HasPrefix (t_user t) ''user:'')"
  by (auto simp: usable_def writable_def Let_def split: option.splits if_splits)

lemma grantWhy_iff: "grantWhy ours u = (t, []) \<longleftrightarrow> u = (t, []) \<and> ours = []"
  by (cases u) (auto simp: grantWhy_def)

lemma brought:
  "set (map (\<lambda>(t, why). h t) (filter (\<lambda>(t, why). why = []) (map g xs))) = {h t | t. \<exists>raw \<in> set xs. g raw = (t, [])}"
proof (induction xs)
  case (Cons x xs)
  obtain t why where "g x = (t, why)" by fastforce
  with Cons show ?case by auto
qed simp

lemma rightsPlan_grants:
  assumes "rightsPlan q m tenant cluster pv haveStore = Some p" "bm_Rights m = Some r" "pv_Message pv \<noteq> []"
  shows "set (rr_Grant p) = {rightsText t | t. haveStore \<and> Proven pv \<and> writable tenant t \<and>
           t \<in> (\<lambda>raw. Rebase raw (mr_Cluster r) cluster) ` set (mr_Granted r)}"
proof -
  let ?ours = "if \<not> Proven pv then pv_Message pv else []"
  let ?u = "usable q (mr_Cluster r) tenant cluster haveStore ?ours"
  have "rr_Grant p = map (\<lambda>(t, why). rightsText t) (filter (\<lambda>(t, why). why = []) (map (grantWhy ?ours \<circ> ?u) (mr_Granted r)))"
    using assms(1,2) by (auto simp: rightsPlan_def Let_def split: if_splits)
  then have "set (rr_Grant p) = {rightsText t | t. \<exists>raw \<in> set (mr_Granted r). grantWhy ?ours (?u raw) = (t, [])}"
    by (simp only: brought comp_apply)
  then show ?thesis unfolding grantWhy_iff usable_iff using assms(3) by (auto split: if_splits)
qed

lemma rightsPlan_withdraws:
  assumes "rightsPlan q m tenant cluster pv haveStore = Some p" "bm_Rights m = Some r" "pv_Message pv \<noteq> []"
  shows "set (rr_Withdraw p) = {rightsText t | t. haveStore \<and> (Proven pv \<or> \<not> HasPrefix (t_user t) ''user:'') \<and> writable tenant t \<and>
           t \<in> (\<lambda>raw. Rebase raw (mr_Cluster r) cluster) ` set (mr_Withdrawn r)}"
proof -
  let ?ours = "if \<not> Proven pv then pv_Message pv else []"
  let ?u = "usable q (mr_Cluster r) tenant cluster haveStore ?ours"
  have "rr_Withdraw p = map (\<lambda>(t, why). rightsText t) (filter (\<lambda>(t, why). why = []) (map ?u (mr_Withdrawn r)))"
    using assms(1,2) by (auto simp: rightsPlan_def Let_def split: if_splits)
  then have "set (rr_Withdraw p) = {rightsText t | t. \<exists>raw \<in> set (mr_Withdrawn r). ?u raw = (t, [])}"
    by (simp only: brought comp_apply)
  then show ?thesis unfolding usable_iff using assms(3) by (auto split: if_splits)
qed

subsection \<open>What is written\<close>

text \<open>The text an entry is planned under is read back as the entry.\<close>

lemma rightsTuple_rightsText: "WellFormed t = None \<Longrightarrow> rightsTuple (rightsText t) = Inr t"
  using WellFormed_parts(4,5,6) [of t] Split_Join [of "[t_user t, t_relation t, t_object t]" "CHR '' ''"]
  by (simp add: rightsTuple_def rightsText_def)

lemma planned_step:
  "writable tenant t \<Longrightarrow> planned rd w tenant present (rightsText t # texts) out =
     (case rd w t of
        Inl e \<Rightarrow> Inl (ReadEntry (rightsText t) e)
      | Inr hv \<Rightarrow> planned rd w tenant present texts (if (hv \<noteq> []) = present then out @ [t] else out))"
  by (simp add: writable_def rightsTuple_rightsText)

lemma planned_sound:
  "planned rd w tenant present texts out = Inr ts \<Longrightarrow> \<forall>s \<in> set texts. \<exists>t. s = rightsText t \<and> writable tenant t \<Longrightarrow>
   set ts \<subseteq> set out \<union> {t. writable tenant t \<and> rightsText t \<in> set texts}"
proof (induction texts arbitrary: out)
  case (Cons s texts)
  obtain t where t: "s = rightsText t" "writable tenant t" using Cons.prems(2) by auto
  then obtain hv :: "tuple list" where "planned rd w tenant present texts (if (hv \<noteq> []) = present then out @ [t] else out) = Inr ts"
    using Cons.prems(1) unfolding t(1) planned_step [OF t(2)] by (auto split: sum.splits)
  from Cons.IH [OF this] Cons.prems(2) t show ?case by (auto split: if_splits)
qed simp

definition planTexts :: "string \<Rightarrow> restore_rights \<Rightarrow> bool" where
  "planTexts tenant p \<longleftrightarrow> (\<forall>s \<in> set (rr_Grant p) \<union> set (rr_Withdraw p). \<exists>t. s = rightsText t \<and> writable tenant t)"

context rights_server
begin

text \<open>However it ends, what is written and what is removed was planned.\<close>

lemma applyRights_bounds:
  assumes "applyRights rd post model haveStore cluster tenant (Some p) w = (r, p', w')" "planTexts tenant p"
  shows "stored w' \<subseteq> stored w \<union> {t. writable tenant t \<and> rightsText t \<in> set (rr_Grant p)}"
    "stored w \<subseteq> stored w' \<union> {t. writable tenant t \<and> rightsText t \<in> set (rr_Withdraw p)}"
proof -
  let ?G = "{t. writable tenant t \<and> rightsText t \<in> set (rr_Grant p)}"
  let ?W = "{t. writable tenant t \<and> rightsText t \<in> set (rr_Withdraw p)}"
  have "stored w' \<subseteq> stored w \<union> ?G \<and> stored w \<subseteq> stored w' \<union> ?W"
  proof (cases "\<exists>writes deletes. planned rd w tenant False (rr_Grant p) [] = Inr writes \<and>
      planned rd w tenant True (rr_Withdraw p) [] = Inr deletes \<and>
      w' = snd (Write post writes deletes (modelOptions model) w)")
    case True
    then obtain writes deletes e where wd: "planned rd w tenant False (rr_Grant p) [] = Inr writes"
      "planned rd w tenant True (rr_Withdraw p) [] = Inr deletes"
      "Write post writes deletes (modelOptions model) w = (e, w')"
      by (metis prod.collapse)
    have "set writes \<subseteq> ?G" "set deletes \<subseteq> ?W"
      using planned_sound [OF wd(1)] planned_sound [OF wd(2)] assms(2) by (auto simp: planTexts_def)
    moreover have "stored w' \<subseteq> stored w \<union> set writes \<and> stored w \<subseteq> stored w' \<union> set deletes"
      using Write_applies [OF wd(3)] by (auto dest: in_set_takeD)
    ultimately show ?thesis by blast
  next
    case False
    then have "w' = w" using assms(1)
      by (auto simp: applyRights_def split: if_splits sum.splits prod.splits option.splits)
    then show ?thesis by blast
  qed
  then show "stored w' \<subseteq> stored w \<union> ?G" "stored w \<subseteq> stored w' \<union> ?W" by blast+
qed

end

lemma rightsText_inj: "writable tenant s \<Longrightarrow> writable tenant t \<Longrightarrow> rightsText s = rightsText t \<Longrightarrow> s = t"
  using rightsTuple_rightsText [where 'a = unit] unfolding writable_def by (metis sum.inject(2))

lemma rightsPlan_planTexts:
  assumes "rightsPlan q m tenant cluster pv haveStore = Some p" "pv_Message pv \<noteq> []"
  shows "planTexts tenant p"
proof -
  obtain r where r: "bm_Rights m = Some r" using assms(1) by (auto simp: rightsPlan_def split: option.splits)
  show ?thesis unfolding planTexts_def rightsPlan_grants [OF assms(1) r assms(2)] rightsPlan_withdraws [OF assms(1) r assms(2)]
    by blast
qed

subsection \<open>A bundle of the cluster's own\<close>

lemma usable_own:
  "writable tenant t \<Longrightarrow> usable q cluster tenant cluster True [] t = (t, [])"
  by (simp add: usable_iff writable_def Rebase_same)

lemma rightsPlan_own:
  assumes "bm_Rights m = Some \<lparr>mr_Cluster = cluster, mr_Granted = gs, mr_Withdrawn = ws\<rparr>" "Proven pv"
    and "\<forall>t \<in> set gs \<union> set ws. writable tenant t" "\<not> (gs = [] \<and> ws = [])"
  shows "rightsPlan q m tenant cluster pv True =
    Some \<lparr>rr_Grant = map rightsText gs, rr_Withdraw = map rightsText ws, rr_NotBrought = [],
          rr_Provenance = pv_Reason pv, rr_ProvenanceMessage = pv_Message pv, rr_Applied = False\<rparr>"
proof -
  have "map (usable q cluster tenant cluster True []) ws = map (\<lambda>t. (t, [])) ws"
    "map (grantWhy [] \<circ> usable q cluster tenant cluster True []) gs = map (\<lambda>t. (t, [])) gs"
    using assms(3) by (simp_all add: usable_own grantWhy_def)
  then show ?thesis using assms(1,2,4) by (simp add: rightsPlan_def Let_def filter_map comp_def)
qed

context live_server
begin

lemma read_entry:
  assumes "writable tenant t"
  shows "\<exists>hv. rd w t = Inr hv \<and> (hv \<noteq> [] \<longleftrightarrow> t \<in> stored w)"
proof -
  obtain hv where hv: "rd w t = Inr hv" using rd_total by blast
  have "WellFormed t = None" using assms by (simp add: writable_def)
  note parts = WellFormed_parts [OF this]
  have hv': "set hv = {x \<in> stored w. x = t}"
    unfolding rd_sound [OF hv] matches_entry [OF parts(7,3,2,1)] ..
  have "hv \<noteq> [] \<longleftrightarrow> t \<in> stored w"
  proof -
    have "hv \<noteq> [] \<longleftrightarrow> set hv \<noteq> {}" by (cases hv) simp_all
    then show ?thesis unfolding hv' by blast
  qed
  with hv show ?thesis by (intro exI conjI)
qed

lemma planned_ok:
  "\<forall>t \<in> set ts. writable tenant t \<Longrightarrow>
   planned rd w tenant present (map rightsText ts) out = Inr (out @ filter (\<lambda>t. (t \<in> stored w) = present) ts)"
proof (induction ts arbitrary: out)
  case (Cons t ts)
  then obtain hv where "rd w t = Inr hv" "hv \<noteq> [] \<longleftrightarrow> t \<in> stored w" using read_entry [of tenant t w] by auto
  with Cons show ?case by (simp add: planned_step del: planned.simps(2))
qed simp

lemma applyRights_ok:
  assumes p: "rr_Grant p = map rightsText gs" "rr_Withdraw p = map rightsText ws" "\<not> rr_Applied p"
    and ok: "\<forall>t \<in> set gs \<union> set ws. writable tenant t" "distinct gs" "distinct ws" "set gs \<inter> set ws = {}"
    and t: "ValidTenantName tenant" "attachment cluster tenant \<in> stored w"
  shows "\<exists>p' w'. applyRights rd post model True cluster tenant (Some p) w = (Inr True, p', w') \<and>
           stored w' = (stored w - set ws) \<union> set gs"
proof (cases "gs = [] \<and> ws = []")
  case True
  then show ?thesis using p by (simp add: applyRights_def)
next
  case False
  let ?gs = "filter (\<lambda>t. (t \<in> stored w) = False) gs" and ?ws = "filter (\<lambda>t. (t \<in> stored w) = True) ws"
  obtain att where att: "rd w (attachment cluster tenant) = Inr att" using rd_total by blast
  have "matches (attachment cluster tenant) (attachment cluster tenant)"
    by (simp add: matches_def)
  then have "att \<noteq> []" using rd_sound [OF att] t(2) by auto
  have pl: "planned rd w tenant False (rr_Grant p) [] = Inr ?gs" "planned rd w tenant True (rr_Withdraw p) [] = Inr ?ws"
    using ok(1) by (simp_all add: p planned_ok)
  have "\<exists>w'. Write post ?gs ?ws (modelOptions model) w = (None, w')"
    by (rule Write_succeeds) (use ok in auto)
  then obtain w' where w': "Write post ?gs ?ws (modelOptions model) w = (None, w')" by blast
  have S: "(stored w - set ?ws) \<union> set ?gs = (stored w - set ws) \<union> set gs" using ok(4) by auto
  have e: "(rr_Applied p \<or> rr_Grant p = [] \<and> rr_Withdraw p = []) = False" using False p by auto
  note unfold = applyRights_def option.case e if_False if_True not_True_eq_False att [unfolded attachment_def]
    sum.case \<open>att \<noteq> []\<close> pl
  show ?thesis
  proof (cases "?gs \<noteq> [] \<or> ?ws \<noteq> []")
    case True
    then have "applyRights rd post model True cluster tenant (Some p) w = (Inr True, Some (p\<lparr>rr_Applied := True\<rparr>), w')"
      by (simp only: unfold w' prod.case)
    moreover have "stored w' = (stored w - set ?ws) \<union> set ?gs" using Write_applies [OF w'] by blast
    ultimately show ?thesis using S by blast
  next
    case none: False
    then have "applyRights rd post model True cluster tenant (Some p) w = (Inr True, Some (p\<lparr>rr_Applied := True\<rparr>), w)"
      by (simp only: unfold)
    moreover have "stored w = (stored w - set ws) \<union> set gs" using none unfolding S [symmetric] by simp
    ultimately show ?thesis by blast
  qed
qed

end

subsection \<open>What a backup holds may be written back\<close>

lemma App_prefix_OnTenant:
  assumes "HasPrefix (t_object x) (''app:'' @ t @ ''/'')" "t_object x \<noteq> App t []"
  shows "OnTenant x t"
  using assms by (auto simp: OnTenant_def HasPrefix_def prefix_def App_def)

lemma backup_writable:
  assumes wf: "\<forall>x \<in> S. \<not> HasSuffix (t_object x) '':'' \<and> t_object x \<noteq> App t []" "installable apps" "\<forall>n \<in> set held. \<not> HasSuffix n '':''"
    and ok: "\<forall>x \<in> S. OnTenant x t \<longrightarrow> WellFormed x = None"
    and x: "x \<in> grantedOn S cluster t \<union> grantedIn S (backupObjects S t apps held)"
  shows "writable t x"
proof -
  have S: "x \<in> S" using x by (auto simp: grantedOn_def grantedIn_def)
  have "OnTenant x t"
  proof (cases "t_object x = Tenant t")
    case True
    then show ?thesis by (simp add: OnTenant_def)
  next
    case False
    then have ob: "t_object x \<in> backupObjects S t apps held" using x by (auto simp: grantedOn_def grantedIn_def)
    have "\<forall>x \<in> S. \<not> HasSuffix (t_object x) '':''" using wf(1) by blast
    from backupObjects_wf [OF this wf(2,3) ob] have "HasPrefix (t_object x) (''app:'' @ t @ ''/'')" by blast
    then show ?thesis using wf(1) S by (intro App_prefix_OnTenant) blast+
  qed
  with ok S show ?thesis by (simp add: writable_def)
qed

lemma derivedOn_on_tenant:
  assumes "x \<in> derivedOn cluster t"
  shows "t_object x = Tenant t" "\<not> claimTenantRelation (t_relation x)"
  using assms
  by (auto simp: derivedOn_def attachment_def consent_def standingRoles_def claimTenantRelation_def claimTenantRelations_def)

text \<open>The entries on the tenant, put together again from the defaults and what a backup carries.\<close>

lemma tenant_put_together:
  assumes "derivedOn cluster t - {consent cluster t} \<subseteq> S"
    and "{x \<in> S2. t_object x = Tenant t \<and> \<not> claimTenantRelation (t_relation x)} = derivedOn cluster t"
    and "ws = (if consent cluster t \<in> S then {} else {consent cluster t})"
    and "S3 = (S2 - ws) \<union> (grantedOn S cluster t \<union> grantedIn S obs)" "Tenant t \<notin> obs"
  shows "{x \<in> S3. t_object x = Tenant t \<and> \<not> claimTenantRelation (t_relation x)} =
         {x \<in> S. t_object x = Tenant t \<and> \<not> claimTenantRelation (t_relation x)}"
proof -
  let ?P = "\<lambda>x. t_object x = Tenant t \<and> \<not> claimTenantRelation (t_relation x)"
  have D: "derivedOn cluster t - ws = derivedOn cluster t \<inter> S"
    using assms(1) unfolding assms(3) by (cases "consent cluster t \<in> S") auto
  have n: "x \<notin> grantedIn S obs" if "t_object x = Tenant t" for x
    using that assms(5) by (simp add: grantedIn_def)
  have g: "?P x" if "x \<in> grantedOn S cluster t" for x
    using that by (simp add: grantedOn_def)
  have "{x \<in> S3. ?P x} = ({x \<in> S2. ?P x} - ws) \<union> {x \<in> grantedOn S cluster t. ?P x}"
    unfolding assms(4) using n by blast
  also have "\<dots> = (derivedOn cluster t \<inter> S) \<union> grantedOn S cluster t"
    unfolding assms(2) D using g by blast
  also have "\<dots> = {x \<in> S. ?P x}"
    using derivedOn_on_tenant [of _ cluster t] unfolding grantedOn_def by blast
  finally show ?thesis .
qed

subsection \<open>Properties\<close>

text \<open>
  C4. What a file can do to a tenant's rights. Whatever the bundle holds, and however the restore
  ends, an entry that is not on the tenant or one of its apps is neither added nor removed; an
  entry is added only from a bundle proven to be this cluster's own, and is one the bundle records
  as granted, well formed, under this cluster's name; an entry is removed only when the bundle
  records it as withdrawn, and one that names a person only from a proven bundle.
\<close>

theorem restore_cannot_widen:
  assumes "rights_server stored rd post"
    and "pv = CheckProvenance pub verify sum256 manifest (Some m) sig own ownUID"
    and "applyRights rd post model haveStore' cluster tenant (rightsPlan q m tenant cluster pv haveStore) w = (r, p', w')"
  shows "(\<forall>x \<in> stored w' - stored w. Proven pv \<and> OnTenant x tenant \<and> WellFormed x = None \<and>
            (\<exists>rights. bm_Rights m = Some rights \<and> x \<in> (\<lambda>raw. Rebase raw (mr_Cluster rights) cluster) ` set (mr_Granted rights))) \<and>
         (\<forall>x \<in> stored w - stored w'. (Proven pv \<or> \<not> HasPrefix (t_user x) ''user:'') \<and> OnTenant x tenant \<and>
            (\<exists>rights. bm_Rights m = Some rights \<and> x \<in> (\<lambda>raw. Rebase raw (mr_Cluster rights) cluster) ` set (mr_Withdrawn rights)))"
proof (cases "rightsPlan q m tenant cluster pv haveStore")
  case None
  then show ?thesis using assms(3) by (simp add: applyRights_def)
next
  case (Some p)
  have says: "pv_Message pv \<noteq> []" unfolding assms(2) by (rule CheckProvenance_says)
  obtain rights where rights: "bm_Rights m = Some rights" using Some by (auto simp: rightsPlan_def split: option.splits)
  note bounds = rights_server.applyRights_bounds [OF assms(1) assms(3) [unfolded Some] rightsPlan_planTexts [OF Some says]]
  note grants = rightsPlan_grants [OF Some rights says] and withdraws = rightsPlan_withdraws [OF Some rights says]
  have G: "Proven pv \<and> OnTenant x tenant \<and> WellFormed x = None \<and> x \<in> (\<lambda>raw. Rebase raw (mr_Cluster rights) cluster) ` set (mr_Granted rights)"
    if x: "x \<in> stored w' - stored w" for x
  proof -
    have x': "writable tenant x" "rightsText x \<in> set (rr_Grant p)" using bounds(1) x by blast+
    from x'(2) obtain t where t: "rightsText x = rightsText t" "Proven pv" "writable tenant t"
      "t \<in> (\<lambda>raw. Rebase raw (mr_Cluster rights) cluster) ` set (mr_Granted rights)"
      unfolding grants by blast
    have "x = t" by (rule rightsText_inj [OF x'(1) t(3,1)])
    with t(2-4) show ?thesis by (simp only: writable_def simp_thms)
  qed
  have W: "(Proven pv \<or> \<not> HasPrefix (t_user x) ''user:'') \<and> OnTenant x tenant \<and> x \<in> (\<lambda>raw. Rebase raw (mr_Cluster rights) cluster) ` set (mr_Withdrawn rights)"
    if x: "x \<in> stored w - stored w'" for x
  proof -
    have x': "writable tenant x" "rightsText x \<in> set (rr_Withdraw p)" using bounds(2) x by blast+
    from x'(2) obtain t where t: "rightsText x = rightsText t" "Proven pv \<or> \<not> HasPrefix (t_user t) ''user:''" "writable tenant t"
      "t \<in> (\<lambda>raw. Rebase raw (mr_Cluster rights) cluster) ` set (mr_Withdrawn rights)"
      unfolding withdraws by blast
    have "x = t" by (rule rightsText_inj [OF x'(1) t(3,1)])
    with t(2-4) show ?thesis by (simp only: writable_def simp_thms)
  qed
  show ?thesis unfolding rights option.inject using G W by blast
qed

text \<open>
  An unsigned bundle that withdraws the consent and grants a role: the consent goes, the role is
  not given.
\<close>

definition attackRights :: manifest_rights where
  "attackRights = \<lparr>mr_Cluster = ''c0'', mr_Granted = [tup ''user:eve'' ''admin'' ''tenant:acme''],
     mr_Withdrawn = [tup ''cluster:c0'' ''operated_by'' ''tenant:acme'', tup ''user:anna'' ''admin'' ''tenant:acme'']\<rparr>"

definition attackBundle :: bundle_manifest where
  "attackBundle = \<lparr>bm_ClusterUID = ''u1'', bm_Rights = Some attackRights\<rparr>"

definition attackedStore :: memory where
  "attackedStore = sampleRights @ [tup ''cluster:c1'' ''operated_by'' ''tenant:acme'']"

definition attackPlan :: "restore_rights option" where
  "attackPlan = rightsPlan id attackBundle ''acme'' ''c1''
     (CheckProvenance id (\<lambda>p m s. True) id ''{}'' (Some attackBundle) None None ''u1'') True"

theorem restore_cannot_widen_witness:
  "\<exists>p' m'. applyRights mem_read mem_post ''m1'' True ''c1'' ''acme'' attackPlan attackedStore = (Inr True, p', m') \<and>
     tup ''user:eve'' ''admin'' ''tenant:acme'' \<notin> set m' \<and> tup ''user:anna'' ''admin'' ''tenant:acme'' \<in> set m' \<and>
     tup ''cluster:c1'' ''operated_by'' ''tenant:acme'' \<notin> set m'"
proof -
  let ?a = "applyRights mem_read mem_post ''m1'' True ''c1'' ''acme'' attackPlan attackedStore"
  have a: "fst ?a = Inr True" "tup ''cluster:c1'' ''operated_by'' ''tenant:acme'' \<notin> set (snd (snd ?a))" by code_simp+
  have s: "tup ''user:eve'' ''admin'' ''tenant:acme'' \<notin> set attackedStore" "tup ''user:anna'' ''admin'' ''tenant:acme'' \<in> set attackedStore"
    by code_simp+
  have n: "\<not> Proven (CheckProvenance id (\<lambda>p m s. True) id ''{}'' (Some attackBundle) None None ''u1'')" by code_simp
  obtain p' m' where m': "?a = (Inr True, p', m')" using a(1) by (metis prod.collapse)
  from restore_cannot_widen [OF mem.rights_server_axioms refl m' [unfolded attackPlan_def]] n
  have "set m' \<subseteq> set attackedStore" "\<And>x. x \<in> set attackedStore - set m' \<Longrightarrow> \<not> HasPrefix (t_user x) ''user:''" by blast+
  moreover have "HasPrefix (t_user (tup ''user:anna'' ''admin'' ''tenant:acme'')) ''user:''" by code_simp
  ultimately show ?thesis using m' s a(2) by fastforce
qed

text \<open>
  C5. A backup and a restore lose no right. The entries a tenant has on a cluster - whatever was
  granted or taken back beyond what the projection writes - are exported, and restored on that
  cluster from the proven bundle over a tenant that the projection has just made anew: the restore
  succeeds, and the entries on the tenant, besides those the Cluster claim decides, and on each of
  its apps' objects, besides those the projection owns, are exactly what they were.
\<close>

theorem restore_gives_back:
  assumes "live_server stored rd post" "ValidTenantName t" "CHR ''|'' \<notin> set cluster" "cluster \<noteq> []"
    and wf: "\<forall>x \<in> stored w. \<not> HasSuffix (t_object x) '':'' \<and> t_object x \<noteq> App t []"
    and apps: "installable (installedOf resolve addons apps)" "\<forall>n \<in> set held. \<not> HasSuffix n '':''"
    and ok: "\<forall>x \<in> stored w. OnTenant x t \<longrightarrow> WellFormed x = None" "WellFormed (consent cluster t) = None"
    and proj: "derivedOn cluster t - {consent cluster t} \<subseteq> stored w" "t = PlatformTenant \<longrightarrow> consent cluster t \<in> stored w"
    and m: "storeOnlyRights (Some rd) w cluster t resolve addons (Inr apps) (Inr held) = Inr (bm_Rights m)" "Proven pv"
    and fresh: "{x \<in> stored w2. t_object x = Tenant t \<and> \<not> claimTenantRelation (t_relation x)} = derivedOn cluster t"
      "{x \<in> stored w2. HasPrefix (t_object x) (''app:'' @ t @ ''/'') \<and> \<not> appRelation x} = {}"
  shows "\<exists>p' w3. applyRights rd post model True cluster t (rightsPlan q m t cluster pv True) w2 = (Inr True, p', w3) \<and>
    {x \<in> stored w3. t_object x = Tenant t \<and> \<not> claimTenantRelation (t_relation x)} =
    {x \<in> stored w. t_object x = Tenant t \<and> \<not> claimTenantRelation (t_relation x)} \<and>
    {x \<in> stored w3. t_object x \<in> backupObjects (stored w) t (installedOf resolve addons apps) held \<and> \<not> appRelation x} =
    {x \<in> stored w. t_object x \<in> backupObjects (stored w) t (installedOf resolve addons apps) held \<and> \<not> appRelation x}"
proof -
  let ?apps = "installedOf resolve addons apps" and ?S = "stored w" and ?S2 = "stored w2" and ?c = "consent cluster t"
  let ?obs = "backupObjects ?S t ?apps held"
  let ?G = "grantedOn ?S cluster t \<union> grantedIn ?S ?obs"
  have wf': "\<forall>x \<in> ?S. \<not> HasSuffix (t_object x) '':''" using wf by blast
  have "attachment cluster t \<in> ?S" using proj(1) by (auto simp: derivedOn_def attachment_def consent_def)
  from live_server.StoreOnlyOf_ok [OF assms(1) wf' assms(2,3) apps this] obtain so where
    so: "StoreOnlyOf rd w cluster t ?apps held = Inr so" "distinct (so_Granted so)" "set (so_Granted so) = ?G"
    and wd: "so_Withdrawn so = (if t \<noteq> PlatformTenant \<and> ?c \<notin> ?S then [?c] else [])" by blast
  have ws: "set (so_Withdrawn so) = (if ?c \<in> ?S then {} else {?c})" "distinct (so_Withdrawn so)"
    unfolding wd using proj(2) by auto
  have m': "bm_Rights m = Some \<lparr>mr_Cluster = cluster, mr_Granted = so_Granted so, mr_Withdrawn = so_Withdrawn so\<rparr>"
    using m(1) by (simp add: storeOnlyRights_def so(1) assms(4))
  have cw: "writable t ?c" using ok(2) by (simp add: writable_def OnTenant_def consent_def)
  have wr: "\<forall>x \<in> set (so_Granted so) \<union> set (so_Withdrawn so). writable t x"
    using backup_writable [OF wf apps ok(1)] cw unfolding so(3) ws(1) by (auto split: if_splits)
  have dis: "set (so_Granted so) \<inter> set (so_Withdrawn so) = {}"
    unfolding so(3) ws(1) by (auto simp: grantedOn_def grantedIn_def)
  have att: "attachment cluster t \<in> ?S2" using fresh(1) by (auto simp: derivedOn_def)
  obtain p' w3 where w3: "applyRights rd post model True cluster t (rightsPlan q m t cluster pv True) w2 = (Inr True, p', w3)"
    "stored w3 = (?S2 - set (so_Withdrawn so)) \<union> ?G"
  proof (cases "so_Granted so = [] \<and> so_Withdrawn so = []")
    case True
    then have "rightsPlan q m t cluster pv True = None" by (simp add: rightsPlan_def m')
    with True so(3) show ?thesis by (intro that [of None w2]) (simp_all add: applyRights_def)
  next
    case False
    obtain p where plan: "rightsPlan q m t cluster pv True = Some p" and
      p: "rr_Grant p = map rightsText (so_Granted so)" "rr_Withdraw p = map rightsText (so_Withdrawn so)" "\<not> rr_Applied p"
      using rightsPlan_own [OF m' m(2) wr False, of q] by simp
    from live_server.applyRights_ok [OF assms(1) p wr so(2) ws(2) dis assms(2) att, of model] obtain p' w3 where
      "applyRights rd post model True cluster t (Some p) w2 = (Inr True, p', w3)"
      "stored w3 = (?S2 - set (so_Withdrawn so)) \<union> ?G" unfolding so(3) by blast
    with plan show ?thesis using that by simp
  qed
  have nt: "Tenant t \<notin> ?obs" by (rule backupObjects_not_tenant)
  note T = tenant_put_together [OF proj(1) fresh(1) ws(1) w3(2) nt]
  have "HasPrefix ob (''app:'' @ t @ ''/'')" if "ob \<in> ?obs" for ob using backupObjects_wf [OF wf' apps that] by blast
  then have "x \<notin> ?S2 \<and> x \<notin> grantedOn ?S cluster t" if "t_object x \<in> ?obs" "\<not> appRelation x" for x
    using fresh(2) that nt by (auto simp: grantedOn_def)
  then have "{x \<in> stored w3. t_object x \<in> ?obs \<and> \<not> appRelation x} = {x \<in> ?S. t_object x \<in> ?obs \<and> \<not> appRelation x}"
    unfolding w3(2) grantedIn_def by blast
  with w3(1) T show ?thesis by blast
qed

text \<open>
  The sample rights, exported and restored over a tenant made anew: the person's role comes back,
  the consent is taken away again.
\<close>

definition freshRights :: memory where
  "freshRights =
     [tup ''cluster:c1'' ''cluster'' ''tenant:acme'',
      tup ''cluster:c1'' ''operated_by'' ''tenant:acme'',
      tup ''group:gentian/tenant/acme/admins#member'' ''admin'' ''tenant:acme'',
      tup ''group:gentian/tenant/acme/members#member'' ''member'' ''tenant:acme'']"

definition sampleBundle :: bundle_manifest where
  "sampleBundle = \<lparr>bm_ClusterUID = ''u1'', bm_Rights = Some \<lparr>mr_Cluster = ''c1'',
     mr_Granted = [tup ''user:anna'' ''admin'' ''tenant:acme'', tup ''user:bert'' ''can_use'' ''app:acme/wiki''],
     mr_Withdrawn = [tup ''cluster:c1'' ''operated_by'' ''tenant:acme'']\<rparr>\<rparr>"

theorem restore_gives_back_witness:
  "\<exists>p' m'. applyRights mem_read mem_post ''m1'' True ''c1'' ''acme''
       (rightsPlan id sampleBundle ''acme'' ''c1'' (prov ProvenanceProven ''ours'') True) freshRights = (Inr True, p', m') \<and>
     tup ''user:anna'' ''admin'' ''tenant:acme'' \<in> set m' \<and> tup ''cluster:c1'' ''operated_by'' ''tenant:acme'' \<notin> set m'"
proof -
  let ?no = "\<lambda>x :: unit. Inr [] :: unit + string" and ?addons = "\<lambda>x :: unit. [] :: string list"
  have e: "(storeOnlyRights (Some mem_read) sampleRights ''c1'' ''acme'' ?no ?addons (Inr []) (Inr []) :: (unit, _) export_err + _) = Inr (bm_Rights sampleBundle)"
    by code_simp
  have l: "list_all (\<lambda>x. \<not> HasSuffix (t_object x) '':'' \<and> t_object x \<noteq> App ''acme'' []) sampleRights"
    "list_all (\<lambda>x. WellFormed x = None) sampleRights"
    "list_all (\<lambda>x. x = consent ''c1'' ''acme'' \<or> x \<in> set sampleRights) freshRights"
    "list_all (\<lambda>x. t_object x = Tenant ''acme'' \<and> \<not> claimTenantRelation (t_relation x) \<and>
      \<not> HasPrefix (t_object x) (''app:'' @ ''acme'' @ ''/'')) freshRights"
    by (code_simp, code_simp, code_simp, code_simp)
  note l' = l [unfolded list_all_iff]
  have d: "derivedOn ''c1'' ''acme'' = set freshRights"
    by (simp add: derivedOn_def attachment_def consent_def standingRoles_def freshRights_def Cluster_def Tenant_def insert_commute)
  have v: "ValidTenantName ''acme''" "CHR ''|'' \<notin> set ''c1''" "''c1'' \<noteq> []" by (code_simp, simp, simp)
  have i: "installable (installedOf ?no ?addons [])" "\<forall>n \<in> set []. \<not> HasSuffix n '':''" by (code_simp, simp)
  have k: "\<forall>x \<in> set sampleRights. OnTenant x ''acme'' \<longrightarrow> WellFormed x = None" "WellFormed (consent ''c1'' ''acme'') = None"
    using l'(2) by (blast, code_simp)
  have p: "derivedOn ''c1'' ''acme'' - {consent ''c1'' ''acme''} \<subseteq> set sampleRights"
    "''acme'' = PlatformTenant \<longrightarrow> consent ''c1'' ''acme'' \<in> set sampleRights"
    unfolding d using l'(3) by (blast, simp add: PlatformTenant_def)
  have f: "{x \<in> set freshRights. t_object x = Tenant ''acme'' \<and> \<not> claimTenantRelation (t_relation x)} = derivedOn ''c1'' ''acme''"
    "{x \<in> set freshRights. HasPrefix (t_object x) (''app:'' @ ''acme'' @ ''/'') \<and> \<not> appRelation x} = {}"
    unfolding d using l'(4) by blast+
  have pv: "Proven (prov ProvenanceProven ''ours'')" by code_simp
  from restore_gives_back [OF mem.live_server_axioms v l'(1) i k p e pv f, of "''m1''" id]
  obtain p' m' where m': "applyRights mem_read mem_post ''m1'' True ''c1'' ''acme''
       (rightsPlan id sampleBundle ''acme'' ''c1'' (prov ProvenanceProven ''ours'') True) freshRights = (Inr True, p', m')"
    and t: "{x \<in> set m'. t_object x = Tenant ''acme'' \<and> \<not> claimTenantRelation (t_relation x)} =
      {x \<in> set sampleRights. t_object x = Tenant ''acme'' \<and> \<not> claimTenantRelation (t_relation x)}"
    by blast
  have x: "x \<in> set m' \<longleftrightarrow> x \<in> set sampleRights" if "t_object x = Tenant ''acme'' \<and> \<not> claimTenantRelation (t_relation x)" for x
    using t that by blast
  let ?anna = "tup ''user:anna'' ''admin'' ''tenant:acme''" and ?c = "tup ''cluster:c1'' ''operated_by'' ''tenant:acme''"
  have "t_object ?anna = Tenant ''acme'' \<and> \<not> claimTenantRelation (t_relation ?anna)" "?anna \<in> set sampleRights"
    "t_object ?c = Tenant ''acme'' \<and> \<not> claimTenantRelation (t_relation ?c)" "?c \<notin> set sampleRights"
    by (code_simp, code_simp, code_simp, code_simp)
  then have "?anna \<in> set m' \<and> ?c \<notin> set m'" using x by blast
  with m' show ?thesis by blast
qed

end
