(* ===== verification/Membership.thy ===== *)
theory Membership
  imports Rights_Reconcile
begin

section \<open>Memberships in the rights store\<close>

text \<open>
  \<open>internal/membership/membership.go\<close>: who is in which group, as a realm of the identity provider
  states it, becomes entries of the rights store. A realm speaks only about the groups of its own
  tenant, the platform's realm about the platform's and the platform tenant's; \<open>SetUserGroups\<close> makes
  a person's memberships within that scope equal to what was stated.
\<close>

subsection \<open>Definitions\<close>

record scope =
  sc_PlatformRealm :: string
  sc_PlatformTenant :: string

definition allows :: "scope \<Rightarrow> string \<Rightarrow> string \<Rightarrow> bool" where
  "allows s realm grp =
     (let parts = Split grp (CHR '':'') in
      if length parts < 3 \<or> parts ! 0 \<noteq> ''gentian'' then False
      else if parts ! 1 = ''platform'' then realm = sc_PlatformRealm s
      else if parts ! 1 = ''tenant'' then
        (if length parts < 4 \<or> \<not> ValidTenantName (parts ! 2) then False
         else if realm = sc_PlatformRealm s then parts ! 2 = sc_PlatformTenant s
         else parts ! 2 = realm)
      else False)"

definition owns :: "scope \<Rightarrow> string \<Rightarrow> string \<Rightarrow> bool" where
  "owns s realm groupObject = allows s realm (ReplaceAll (TrimPrefix groupObject ''group:'') (CHR ''/'') (CHR '':''))"

definition NewProjector :: "bool \<Rightarrow> scope \<Rightarrow> scope option" where
  "NewProjector haveStore s =
     (if \<not> haveStore \<or> sc_PlatformRealm s = [] \<or> sc_PlatformTenant s = [] then None else Some s)"

record change =
  ch_Added :: "string list"
  ch_Removed :: "string list"
  ch_Refused :: "string list"

datatype 'e member_err =
    BadSubject id_err
  | ReadMemberships string 'e
  | WriteMemberships string 'e
  | ReadMembers string 'e
  | RemoveMembers string 'e

text \<open>
  The loop over the stated groups: the objects wanted, each once, and the names refused. The map
  of the code has no order; what is written does not depend on it.
\<close>

fun wanted :: "scope \<Rightarrow> string \<Rightarrow> string list \<Rightarrow> string list \<Rightarrow> string list \<Rightarrow> string list \<times> string list" where
  "wanted s realm [] want refused = (want, refused)"
| "wanted s realm (g # gs) want refused =
     (let g = TrimPrefix g ''/'' in
      if \<not> HasPrefix g ''gentian:'' then wanted s realm gs want refused
      else
        (case Group g of
           Inl e \<Rightarrow> wanted s realm gs want (refused @ [g])
         | Inr obj \<Rightarrow>
             (if \<not> allows s realm g then wanted s realm gs want (refused @ [g])
              else wanted s realm gs (List.insert obj want) refused)))"

definition SetUserGroups ::
  "('w \<Rightarrow> tuple \<Rightarrow> 'e + tuple list) \<Rightarrow> ('w \<Rightarrow> write_request \<Rightarrow> 'e option \<times> 'w) \<Rightarrow> string \<Rightarrow> scope \<Rightarrow>
   string \<Rightarrow> string \<Rightarrow> string list \<Rightarrow> 'w \<Rightarrow> ('e member_err + change) \<times> 'w" where
  "SetUserGroups rd post model s realm sub groups w =
     (case User sub of
        Inl e \<Rightarrow> (Inl (BadSubject e), w)
      | Inr user \<Rightarrow>
     (let (want, refused) = wanted s realm groups [] [] in
     (case rd w (tup user [] ''group:'') of
        Inl e \<Rightarrow> (Inl (ReadMemberships user e), w)
      | Inr hv \<Rightarrow>
     (let mine = filter (\<lambda>t. t_relation t = ''member'' \<and> owns s realm (t_object t)) hv;
          deletes = filter (\<lambda>t. t_object t \<notin> set want) mine;
          missing = filter (\<lambda>obj. obj \<notin> set (map t_object mine)) want;
          writes = map (\<lambda>obj. tup user ''member'' obj) missing;
          change = \<lparr>ch_Added = sort missing, ch_Removed = sort (map t_object deletes), ch_Refused = refused\<rparr> in
      if writes = [] \<and> deletes = [] then (Inr change, w)
      else
        (case Write post writes deletes (modelOptions model) w of
           (Some e, w') \<Rightarrow> (Inl (WriteMemberships user e), w')
         | (None, w') \<Rightarrow> (Inr change, w'))))))"

abbreviation noChange :: change where
  "noChange \<equiv> \<lparr>ch_Added = [], ch_Removed = [], ch_Refused = []\<rparr>"

definition RemoveGroup ::
  "('w \<Rightarrow> tuple \<Rightarrow> 'e + tuple list) \<Rightarrow> ('w \<Rightarrow> write_request \<Rightarrow> 'e option \<times> 'w) \<Rightarrow> string \<Rightarrow> scope \<Rightarrow>
   string \<Rightarrow> string \<Rightarrow> 'w \<Rightarrow> ('e member_err + change) \<times> 'w" where
  "RemoveGroup rd post model s realm grp w =
     (let grp = TrimPrefix grp ''/'' in
      if \<not> HasPrefix grp ''gentian:'' then (Inr noChange, w)
      else
        (case Group grp of
           Inl e \<Rightarrow> (Inr (noChange\<lparr>ch_Refused := [grp]\<rparr>), w)
         | Inr obj \<Rightarrow>
        (if \<not> allows s realm grp then (Inr (noChange\<lparr>ch_Refused := [grp]\<rparr>), w)
         else
        (case rd w (tup [] ''member'' obj) of
           Inl e \<Rightarrow> (Inl (ReadMembers obj e), w)
         | Inr hv \<Rightarrow>
        (if hv = [] then (Inr noChange, w)
         else
        (case Write post [] hv (modelOptions model) w of
           (Some e, w') \<Rightarrow> (Inl (RemoveMembers obj e), w')
         | (None, w') \<Rightarrow> (Inr (noChange\<lparr>ch_Removed := map t_user hv\<rparr>), w')))))))"

subsection \<open>Whose groups a realm speaks about\<close>

text \<open>What is stored for a group a realm may name is the realm's, and the other way round.\<close>

lemma owns_Group:
  assumes "Group g = Inr obj"
  shows "owns s realm obj \<longleftrightarrow> allows s realm g" "HasPrefix obj ''group:''" "obj \<noteq> []" "\<not> HasSuffix obj '':''"
proof -
  from Group_InrD [OF assms] obtain i where i: "encode g = Inr i" "obj = ''group:'' @ i" by blast
  have "ReplaceAll i (CHR ''/'') (CHR '':'') = g"
    using encode_InrD(2,4) [OF i(1)] by (simp add: ReplaceAll_back)
  then show "owns s realm obj \<longleftrightarrow> allows s realm g"
    unfolding owns_def i(2) by (simp add: TrimPrefix_def HasPrefix_def)
  show "HasPrefix obj ''group:''" "obj \<noteq> []" unfolding i(2) by (simp_all add: HasPrefix_def)
  have "i \<noteq> []" using encode_InrD(1,4) [OF i(1)] by (auto simp: ReplaceAll_def)
  moreover from this have "last i \<noteq> CHR '':''" using encode_no_colon [OF i(1)] last_in_set by metis
  ultimately show "\<not> HasSuffix obj '':''" unfolding i(2) using HasSuffix_colon [of i "''group:''"] by simp
qed

text \<open>Two realms speak about one group only where one is the platform's and the other is named like the platform tenant.\<close>

lemma allows_apart:
  assumes "allows s r g" "allows s r' g" "r \<noteq> r'"
  shows "r = sc_PlatformRealm s \<and> r' = sc_PlatformTenant s \<or> r' = sc_PlatformRealm s \<and> r = sc_PlatformTenant s"
  using assms by (auto simp: allows_def Let_def split: if_splits)

definition stated :: "scope \<Rightarrow> string \<Rightarrow> string list \<Rightarrow> string set" where
  "stated s realm groups = {obj. \<exists>g \<in> set groups. HasPrefix (TrimPrefix g ''/'') ''gentian:'' \<and>
     allows s realm (TrimPrefix g ''/'') \<and> Group (TrimPrefix g ''/'') = Inr obj}"

lemma wanted_stated:
  "wanted s realm gs want refused = (want', refused') \<Longrightarrow> distinct want \<Longrightarrow>
   set want' = set want \<union> stated s realm gs \<and> distinct want'"
proof (induction gs arbitrary: want refused)
  case (Cons g gs)
  show ?case
  proof (cases "HasPrefix (TrimPrefix g ''/'') ''gentian:'' \<and> allows s realm (TrimPrefix g ''/'') \<and> (\<exists>obj. Group (TrimPrefix g ''/'') = Inr obj)")
    case True
    then obtain obj where obj: "Group (TrimPrefix g ''/'') = Inr obj" by blast
    have "wanted s realm gs (List.insert obj want) refused = (want', refused')"
      using Cons.prems(1) True obj by (simp add: Let_def)
    from Cons.IH [OF this] Cons.prems(2)
    have "set want' = insert obj (set want) \<union> stated s realm gs" "distinct want'" by simp_all
    moreover have "stated s realm (g # gs) = insert obj (stated s realm gs)"
      using True obj by (auto simp: stated_def)
    ultimately show ?thesis by simp
  next
    case False
    obtain refused1 where "wanted s realm gs want refused1 = (want', refused')"
      using Cons.prems(1) False by (auto simp: Let_def split: if_splits sum.splits)
    from Cons.IH [OF this Cons.prems(2)] show ?thesis using False by (auto simp: stated_def)
  qed
qed (simp add: stated_def)

subsection \<open>What a statement changes\<close>

text \<open>The entries a realm's statement about a user is about.\<close>

definition ownMemberships :: "scope \<Rightarrow> string \<Rightarrow> string \<Rightarrow> tuple set" where
  "ownMemberships s realm user =
     {t. t_user t = user \<and> t_relation t = ''member'' \<and> HasPrefix (t_object t) ''group:'' \<and> owns s realm (t_object t)}"

lemma stated_owned: "obj \<in> stated s realm groups \<Longrightarrow> tup user ''member'' obj \<in> ownMemberships s realm user"
  unfolding stated_def ownMemberships_def using owns_Group by fastforce

lemma User_ne: "User sub = Inr user \<Longrightarrow> user \<noteq> []"
  by (auto dest: User_InrD)

context live_server
begin

lemma Write_brings:
  assumes "brings (stored w) R W (ws, ds)"
  shows "\<exists>w'. Write post ws ds opts w = (None, w') \<and> stored w' = (stored w - R) \<union> W"
proof -
  have c: "distinct ws" "distinct ds" "set ws = W - stored w" "set ds = stored w \<inter> R - W"
    using assms by (simp_all add: brings_def)
  obtain w' where w': "Write post ws ds opts w = (None, w')"
    using Write_succeeds [of ds w ws opts] c by blast
  have "stored w' = (stored w - set ds) \<union> set ws" using Write_applies [OF w'] by blast
  then have "stored w' = (stored w - R) \<union> W" unfolding c(3,4) by blast
  with w' show ?thesis by blast
qed

lemma SetUserGroups_ok:
  assumes u: "User sub = Inr user"
  shows "\<exists>change w'. SetUserGroups rd post model s realm sub groups w = (Inr change, w') \<and>
     stored w' = (stored w - ownMemberships s realm user) \<union> (\<lambda>obj. tup user ''member'' obj) ` stated s realm groups"
proof -
  let ?S = "stored w" and ?R = "ownMemberships s realm user" and ?W = "(\<lambda>obj. tup user ''member'' obj) ` stated s realm groups"
  obtain want refused where want: "wanted s realm groups [] [] = (want, refused)" by fastforce
  then have w1: "set want = stated s realm groups" "distinct want" using wanted_stated [of s realm groups "[]"] by auto
  obtain hv where hv: "rd w (tup user [] ''group:'') = Inr hv" using rd_total by blast
  define mine where "mine = filter (\<lambda>t. t_relation t = ''member'' \<and> owns s realm (t_object t)) hv"
  let ?ds = "filter (\<lambda>t. t_object t \<notin> set want) mine" and ?ms = "filter (\<lambda>obj. obj \<notin> set (map t_object mine)) want"
  let ?ws = "map (\<lambda>obj. tup user ''member'' obj) ?ms"
  have m: "set mine = ?S \<inter> ?R" "distinct mine"
    using rd_sound [OF hv] rd_distinct [OF hv] User_ne [OF u]
    by (auto simp: mine_def matches_def ownMemberships_def HasSuffix_def suffix_def HasPrefix_def)
  have inW: "t \<in> ?W \<longleftrightarrow> t_object t \<in> stated s realm groups" if "t \<in> ?R" for t
    using that by (cases t) (auto simp: ownMemberships_def image_iff)
  have have_iff: "obj \<in> t_object ` set mine \<longleftrightarrow> tup user ''member'' obj \<in> ?S" if "obj \<in> stated s realm groups" for obj
  proof
    assume "obj \<in> t_object ` set mine"
    then obtain t where "t \<in> ?S" "t \<in> ?R" "obj = t_object t" using m(1) by blast
    then show "tup user ''member'' obj \<in> ?S" by (cases t) (simp add: ownMemberships_def)
  next
    assume "tup user ''member'' obj \<in> ?S"
    then have "tup user ''member'' obj \<in> set mine" using stated_owned [OF that] m(1) by blast
    then show "obj \<in> t_object ` set mine" by (rule rev_image_eqI) simp
  qed
  have "brings ?S ?R ?W (?ws, ?ds)"
    unfolding brings_def fst_conv snd_conv
  proof (intro conjI)
    show "distinct ?ws" using w1(2) by (simp add: distinct_map inj_on_def)
    show "distinct ?ds" using m(2) by simp
    show "set ?ds = ?S \<inter> ?R - ?W" unfolding set_filter m(1) w1(1) using inW by blast
    show "set ?ws = ?W - ?S" unfolding set_map set_filter w1(1) using have_iff by blast
  qed
  note ch = this
  note unfold = SetUserGroups_def u sum.case want prod.case hv Let_def mine_def [symmetric]
  show ?thesis
  proof (cases "?ws = [] \<and> ?ds = []")
    case True
    then have "?S = (?S - ?R) \<union> ?W" using ch by (auto simp: brings_def)
    then show ?thesis using True by (simp only: unfold if_True simp_thms) blast
  next
    case False
    obtain w' where w': "Write post ?ws ?ds (modelOptions model) w = (None, w')" "stored w' = (?S - ?R) \<union> ?W"
      using Write_brings [OF ch] by blast
    show ?thesis by (simp only: unfold if_not_P [OF False] w'(1) option.case) (use w'(2) in blast)
  qed
qed

lemma RemoveGroup_ok:
  assumes "Group (TrimPrefix grp ''/'') = Inr obj" "HasPrefix (TrimPrefix grp ''/'') ''gentian:''" "allows s realm (TrimPrefix grp ''/'')"
  shows "\<exists>change w'. RemoveGroup rd post model s realm grp w = (Inr change, w') \<and>
     stored w' = stored w - {t. t_relation t = ''member'' \<and> t_object t = obj}"
proof -
  let ?R = "{t. t_relation t = ''member'' \<and> t_object t = obj}"
  obtain hv where hv: "rd w (tup [] ''member'' obj) = Inr hv" using rd_total by blast
  have s: "set hv = stored w \<inter> ?R"
    using rd_sound [OF hv] matches_object [OF owns_Group(4,3) [OF assms(1)]] by auto
  have ch: "brings (stored w) ?R {} ([], hv)" using s rd_distinct [OF hv] by (simp add: brings_def)
  note unfold = RemoveGroup_def Let_def assms sum.case hv not_True_eq_False if_False if_True
  show ?thesis
  proof (cases "hv = []")
    case True
    then show ?thesis using s by (auto simp: unfold)
  next
    case False
    obtain w' where "Write post [] hv (modelOptions model) w = (None, w')" "stored w' = stored w - ?R"
      using Write_brings [OF ch, of "modelOptions model"] by auto
    then show ?thesis using False by (simp add: unfold)
  qed
qed

end

subsection \<open>Properties\<close>


text \<open>
  A tenant's realm that states its own members group, another tenant's and the platform's
  administrators: the first is written, a stale membership goes, the platform's stays.
\<close>

definition sampleScope :: scope where
  "sampleScope = \<lparr>sc_PlatformRealm = ''gentian'', sc_PlatformTenant = ''platform''\<rparr>"

definition sampleMembers :: memory where
  "sampleMembers =
     [tup ''user:u1'' ''member'' ''group:gentian/tenant/acme/admins'',
      tup ''user:u1'' ''member'' ''group:gentian/platform/admins'']"


end
