(* ===== verification/Membership_Events.thy ===== *)
theory Membership_Events
  imports Membership Bundle_Signature
begin

section \<open>Membership events\<close>

text \<open>
  \<open>internal/membership/events.go\<close>: the endpoint a listener inside the identity provider sends signed
  events to. An event is verified, dropped when its id was seen, dropped when a newer statement
  about the person was applied, and applied. Each of the three looks at the receiver's memory
  under a lock of its own, so the handler is modelled in these steps (\<open>accept\<close>, \<open>judge\<close>, \<open>applyEvent\<close>,
  \<open>settle\<close>) and \<open>ServeHTTP\<close> is their composition. Times are in nanoseconds, an event's own in
  milliseconds; Ed25519 and the JSON decoder are arguments.
\<close>

subsection \<open>Events and signatures\<close>

record event =
  ev_ID :: string
  ev_Time :: int
  ev_Realm :: string
  ev_Type :: string
  ev_User :: string
  ev_Groups :: "string list"
  ev_Group :: string

definition TypeUserMemberships :: string where
  "TypeUserMemberships = ''user.memberships''"

definition TypeUserDeleted :: string where
  "TypeUserDeleted = ''user.deleted''"

definition TypeGroupDeleted :: string where
  "TypeGroupDeleted = ''group.deleted''"

definition window :: int where
  "window = 5 * 60 * 1000000000"

definition maxEventBytes :: nat where
  "maxEventBytes = 262144"

definition eventID :: "string \<Rightarrow> bool" where
  "eventID s \<longleftrightarrow> 8 \<le> length s \<and> length s \<le> 80 \<and>
     list_all (\<lambda>x. is_alnum x \<or> x = CHR ''.'' \<or> x = CHR ''_'' \<or> x = CHR ''-'') s"

definition realmPattern :: "string \<Rightarrow> bool" where
  "realmPattern s \<longleftrightarrow> s \<noteq> [] \<and> length s \<le> 63 \<and> is_alnum (hd s) \<and>
     list_all (\<lambda>x. is_alnum x \<or> x = CHR ''_'' \<or> x = CHR ''-'') s"

text \<open>\<open>strconv.ParseInt\<close> in base ten with 64 bits.\<close>

definition natOf :: "string \<Rightarrow> nat option" where
  "natOf s =
     (if s \<noteq> [] \<and> list_all is_digit s then Some (foldl (\<lambda>n x. n * 10 + (of_char x - 48)) 0 s) else None)"

definition ParseInt64 :: "string \<Rightarrow> int option" where
  "ParseInt64 s =
     (let v = (case s of
         [] \<Rightarrow> None
       | x # r \<Rightarrow>
           (if x = CHR ''-'' then map_option (\<lambda>n. - int n) (natOf r)
            else if x = CHR ''+'' then map_option int (natOf r)
            else map_option int (natOf s))) in
      case v of
        None \<Rightarrow> None
      | Some i \<Rightarrow> if - (2 ^ 63) \<le> i \<and> i < 2 ^ 63 then Some i else None)"

definition fieldsOf :: "string \<Rightarrow> (string, string) gomap" where
  "fieldsOf header =
     foldl (\<lambda>fields part.
        case Cut (TrimSpace part) (CHR ''='') of (k, v, ok) \<Rightarrow> if ok then AList.update k v fields else fields)
       [] (Split header (CHR '',''))"

definition fieldOf :: "string \<Rightarrow> string \<Rightarrow> string" where
  "fieldOf header k = (case map_of (fieldsOf header) k of None \<Rightarrow> [] | Some v \<Rightarrow> v)"

datatype sig_err = UnknownKeyId | NoTimestamp | OutsideWindow | NotBase64 | DoesNotVerify

definition verify_event ::
  "(string \<Rightarrow> string \<Rightarrow> string \<Rightarrow> bool) \<Rightarrow> (string, string) gomap \<Rightarrow> int \<Rightarrow> string \<Rightarrow> string \<Rightarrow> sig_err option" where
  "verify_event verify keys now header body =
     (case map_of keys (fieldOf header ''keyid'') of
        None \<Rightarrow> Some UnknownKeyId
      | Some k \<Rightarrow>
     (case ParseInt64 (fieldOf header ''t'') of
        None \<Rightarrow> Some NoTimestamp
      | Some ts \<Rightarrow>
     (let d = now - ts * 1000000000 in
      if d > window \<or> d < - window then Some OutsideWindow
      else
     (case DecodeBase64 (fieldOf header ''sig'') of
        None \<Rightarrow> Some NotBase64
      | Some sig \<Rightarrow> if \<not> verify k (fieldOf header ''t'' @ ''.'' @ body) sig then Some DoesNotVerify else None))))"

datatype keys_err = NotIdKey string | NotAPublicKey string

fun ParseKeys_loop :: "string list \<Rightarrow> (string, string) gomap \<Rightarrow> keys_err + (string, string) gomap" where
  "ParseKeys_loop [] keys = Inr keys"
| "ParseKeys_loop (item # items) keys =
     (let item = TrimSpace item in
      if item = [] then ParseKeys_loop items keys
      else
        (case Cut item (CHR ''='') of (i, enc, ok) \<Rightarrow>
          (if \<not> ok \<or> i = [] then Inl (NotIdKey item)
           else
             (case DecodeBase64 enc of
                None \<Rightarrow> Inl (NotAPublicKey i)
              | Some raw \<Rightarrow>
                  (if length raw \<noteq> 32 then Inl (NotAPublicKey i)
                   else ParseKeys_loop items (AList.update i raw keys))))))"

definition ParseKeys :: "string \<Rightarrow> keys_err + (string, string) gomap" where
  "ParseKeys s = ParseKeys_loop (Split s (CHR '','')) []"

subsection \<open>What the receiver remembers\<close>

record receiver =
  rc_seen :: "(string, int) gomap"
  rc_last :: "(string, int) gomap"

definition NewReceiver :: "(string, string) gomap \<Rightarrow> receiver option" where
  "NewReceiver keys = (if keys = [] then None else Some \<lparr>rc_seen = [], rc_last = []\<rparr>)"

definition first :: "int \<Rightarrow> string \<Rightarrow> receiver \<Rightarrow> bool \<times> receiver" where
  "first now i rc =
     (let seen = filter (\<lambda>(k, until). \<not> now > until) (rc_seen rc) in
      if map_of seen i \<noteq> None then (False, rc\<lparr>rc_seen := seen\<rparr>)
      else (True, rc\<lparr>rc_seen := AList.update i (now + 2 * window) seen\<rparr>))"

definition newest :: "int \<Rightarrow> string \<Rightarrow> int \<Rightarrow> receiver \<Rightarrow> bool \<times> receiver" where
  "newest now k t rc =
     (if t < (case map_of (rc_last rc) k of None \<Rightarrow> 0 | Some l \<Rightarrow> l) then (False, rc)
      else
        (let lst = (if length (rc_last rc) > 4096
            then filter (\<lambda>(k, v). \<not> v < (now - 2 * window) div 1000000) (rc_last rc) else rc_last rc) in
         (True, rc\<lparr>rc_last := AList.update k t lst\<rparr>)))"

definition forget :: "string \<Rightarrow> string \<Rightarrow> receiver \<Rightarrow> receiver" where
  "forget i k rc = rc\<lparr>rc_seen := AList.delete i (rc_seen rc), rc_last := AList.delete k (rc_last rc)\<rparr>"

subsection \<open>The handler\<close>

text \<open>An answer is its status; what is not answered yet goes on with the event.\<close>

definition accept ::
  "(string \<Rightarrow> string \<Rightarrow> string \<Rightarrow> bool) \<Rightarrow> (string \<Rightarrow> event option) \<Rightarrow> (string, string) gomap \<Rightarrow> int \<Rightarrow> int \<Rightarrow>
   string \<Rightarrow> string option \<Rightarrow> receiver \<Rightarrow> (nat + event) \<times> receiver" where
  "accept verify decode keys nowVerify nowFirst header body rc =
     (case body of
        None \<Rightarrow> (Inl 413, rc)
      | Some body \<Rightarrow>
     (if length body > maxEventBytes then (Inl 413, rc)
      else if verify_event verify keys nowVerify header body \<noteq> None then (Inl 401, rc)
      else
     (case decode body of
        None \<Rightarrow> (Inl 400, rc)
      | Some ev \<Rightarrow>
     (if \<not> eventID (ev_ID ev) \<or> \<not> realmPattern (ev_Realm ev) then (Inl 400, rc)
      else
     (case first nowFirst (ev_ID ev) rc of
        (False, rc) \<Rightarrow> (Inl 204, rc)
      | (True, rc) \<Rightarrow> (Inr ev, rc))))))"

definition userKey :: "event \<Rightarrow> string" where
  "userKey ev = ev_Realm ev @ ''/'' @ ev_User ev"

definition judge :: "int \<Rightarrow> event \<Rightarrow> receiver \<Rightarrow> (nat + event) \<times> receiver" where
  "judge now ev rc =
     (if ev_Type ev = TypeUserMemberships \<or> ev_Type ev = TypeUserDeleted then
        (if ev_User ev = [] then (Inl 400, rc)
         else
           (case newest now (userKey ev) (ev_Time ev) rc of
              (False, rc) \<Rightarrow> (Inl 204, rc)
            | (True, rc) \<Rightarrow> (Inr ev, rc)))
      else if ev_Type ev = TypeGroupDeleted then (Inr ev, rc)
      else (Inl 204, rc))"

record 'x mirror =
  mi_SetUserGroups :: "string \<Rightarrow> string \<Rightarrow> string list \<Rightarrow> 'x option"
  mi_RemoveGroup :: "string \<Rightarrow> string \<Rightarrow> 'x option"

datatype ('e, 'x) apply_err = NotProjected "'e member_err" | NotMirrored 'x

definition eventGroups :: "event \<Rightarrow> string list" where
  "eventGroups ev = (if ev_Type ev = TypeUserDeleted then [] else ev_Groups ev)"

definition applyEvent ::
  "('w \<Rightarrow> tuple \<Rightarrow> 'e + tuple list) \<Rightarrow> ('w \<Rightarrow> write_request \<Rightarrow> 'e option \<times> 'w) \<Rightarrow> string \<Rightarrow> scope \<Rightarrow> 'x mirror option \<Rightarrow>
   event \<Rightarrow> 'w \<Rightarrow> ('e, 'x) apply_err option \<times> 'w" where
  "applyEvent rd post model s mirror ev w =
     (let mirrored = (\<lambda>f w. case mirror of
            None \<Rightarrow> (None, w)
          | Some m \<Rightarrow> (case f m of None \<Rightarrow> (None, w) | Some x \<Rightarrow> (Some (NotMirrored x), w))) in
      if ev_Type ev = TypeGroupDeleted then
        (case RemoveGroup rd post model s (ev_Realm ev) (ev_Group ev) w of
           (Inl e, w') \<Rightarrow> (Some (NotProjected e), w')
         | (Inr c, w') \<Rightarrow> mirrored (\<lambda>m. mi_RemoveGroup m (ev_Realm ev) (ev_Group ev)) w')
      else
        (case SetUserGroups rd post model s (ev_Realm ev) (ev_User ev) (eventGroups ev) w of
           (Inl e, w') \<Rightarrow> (Some (NotProjected e), w')
         | (Inr c, w') \<Rightarrow> mirrored (\<lambda>m. mi_SetUserGroups m (ev_Realm ev) (ev_User ev) (eventGroups ev)) w'))"

definition settle :: "event \<Rightarrow> 'y option \<Rightarrow> receiver \<Rightarrow> nat \<times> receiver" where
  "settle ev err rc = (case err of None \<Rightarrow> (204, rc) | Some _ \<Rightarrow> (503, forget (ev_ID ev) (userKey ev) rc))"

definition process ::
  "('w \<Rightarrow> tuple \<Rightarrow> 'e + tuple list) \<Rightarrow> ('w \<Rightarrow> write_request \<Rightarrow> 'e option \<times> 'w) \<Rightarrow> string \<Rightarrow> scope \<Rightarrow> 'x mirror option \<Rightarrow>
   int \<Rightarrow> event \<Rightarrow> receiver \<times> 'w \<Rightarrow> nat \<times> receiver \<times> 'w" where
  "process rd post model s mirror now ev st =
     (case st of (rc, w) \<Rightarrow>
     (case judge now ev rc of
        (Inl code, rc) \<Rightarrow> (code, rc, w)
      | (Inr ev, rc) \<Rightarrow>
     (case applyEvent rd post model s mirror ev w of
        (err, w) \<Rightarrow> (case settle ev err rc of (code, rc) \<Rightarrow> (code, rc, w)))))"

definition ServeHTTP ::
  "(string \<Rightarrow> string \<Rightarrow> string \<Rightarrow> bool) \<Rightarrow> (string \<Rightarrow> event option) \<Rightarrow> (string, string) gomap \<Rightarrow>
   ('w \<Rightarrow> tuple \<Rightarrow> 'e + tuple list) \<Rightarrow> ('w \<Rightarrow> write_request \<Rightarrow> 'e option \<times> 'w) \<Rightarrow> string \<Rightarrow> scope \<Rightarrow> 'x mirror option \<Rightarrow>
   int \<Rightarrow> string \<Rightarrow> string option \<Rightarrow> receiver \<times> 'w \<Rightarrow> nat \<times> receiver \<times> 'w" where
  "ServeHTTP verify decode keys rd post model s mirror now header body st =
     (case accept verify decode keys now now header body (fst st) of
        (Inl code, rc) \<Rightarrow> (code, rc, snd st)
      | (Inr ev, rc) \<Rightarrow> process rd post model s mirror now ev (rc, snd st))"

subsection \<open>Runs of the receiver\<close>

text \<open>
  The memory under any interleaving of handlers: every look at it is one of these steps, the
  clock does not run backwards. Beside it, the ids that were taken as new and not forgotten since,
  each with the time it was taken.
\<close>

inductive receiver_run :: "int \<Rightarrow> receiver \<Rightarrow> (string \<times> int) list \<Rightarrow> bool" where
  run_start: "receiver_run c \<lparr>rc_seen = [], rc_last = []\<rparr> []"
| run_new: "receiver_run c rc taken \<Longrightarrow> c \<le> now \<Longrightarrow> first now i rc = (True, rc') \<Longrightarrow> receiver_run now rc' ((i, now) # taken)"
| run_old: "receiver_run c rc taken \<Longrightarrow> c \<le> now \<Longrightarrow> first now i rc = (False, rc') \<Longrightarrow> receiver_run now rc' taken"
| run_newest: "receiver_run c rc taken \<Longrightarrow> c \<le> now \<Longrightarrow> newest now k t rc = (b, rc') \<Longrightarrow> receiver_run now rc' taken"
| run_forget: "receiver_run c rc taken \<Longrightarrow> receiver_run c (forget i k rc) (filter (\<lambda>(j, _). j \<noteq> i) taken)"

lemma map_of_filter_snd:
  "distinct (map fst m) \<Longrightarrow> map_of (filter (\<lambda>(k, v). P v) m) k = (case map_of m k of None \<Rightarrow> None | Some v \<Rightarrow> if P v then Some v else None)"
  by (induction m) (auto split: option.splits simp: map_of_eq_None_iff image_iff)

lemma distinct_filter_fst: "distinct (map fst m) \<Longrightarrow> distinct (map fst (filter P m))"
  by (induction m) auto

text \<open>What was taken is remembered until two windows have passed.\<close>

definition remembers :: "int \<Rightarrow> receiver \<Rightarrow> (string \<times> int) list \<Rightarrow> bool" where
  "remembers c rc taken \<longleftrightarrow> distinct (map fst (rc_seen rc)) \<and>
     (\<forall>i f. (i, f) \<in> set taken \<longrightarrow> c \<le> f + 2 * window \<longrightarrow> (\<exists>u. map_of (rc_seen rc) i = Some u \<and> f + 2 * window \<le> u))"

lemma remembers_first:
  assumes "remembers c rc taken" "c \<le> now" "first now i rc = (b, rc')"
  shows "remembers now rc' (if b then (i, now) # taken else taken)"
proof -
  let ?seen = "filter (\<lambda>(k, until). \<not> now > until) (rc_seen rc)"
  have d: "distinct (map fst (rc_seen rc))" using assms(1) by (simp add: remembers_def)
  have kept: "\<exists>u. map_of ?seen j = Some u \<and> f + 2 * window \<le> u" if j: "(j, f) \<in> set taken" "now \<le> f + 2 * window" for j f
  proof -
    obtain u where "map_of (rc_seen rc) j = Some u" "f + 2 * window \<le> u"
      using assms(1,2) j unfolding remembers_def by force
    then show ?thesis using j(2) by (simp add: map_of_filter_snd [OF d, of "\<lambda>u. \<not> u < now"])
  qed
  have d': "distinct (map fst ?seen)" by (rule distinct_filter_fst [OF d])
  show ?thesis
  proof (cases "map_of ?seen i")
    case None
    then have b: "b" "rc' = rc\<lparr>rc_seen := AList.update i (now + 2 * window) ?seen\<rparr>"
      using assms(3) by (simp_all add: first_def Let_def)
    have "\<exists>u. map_of (AList.update i (now + 2 * window) ?seen) j = Some u \<and> f + 2 * window \<le> u"
      if "(j, f) \<in> set ((i, now) # taken)" "now \<le> f + 2 * window" for j f
      using that kept [of j f] None by (auto simp: update_conv)
    then show ?thesis using b d' by (simp add: remembers_def distinct_update)
  next
    case (Some u)
    then have "\<not> b" "rc' = rc\<lparr>rc_seen := ?seen\<rparr>" using assms(3) by (simp_all add: first_def Let_def)
    then show ?thesis using kept d' by (simp add: remembers_def)
  qed
qed

lemma receiver_run_remembers: "receiver_run c rc taken \<Longrightarrow> remembers c rc taken"
proof (induction rule: receiver_run.induct)
  case (run_new c rc taken now i rc')
  then show ?case using remembers_first [of c rc taken now i True rc'] by simp
next
  case (run_old c rc taken now i rc')
  then show ?case using remembers_first [of c rc taken now i False rc'] by simp
next
  case (run_newest c rc taken now k t b rc')
  then have "rc_seen rc' = rc_seen rc" by (auto simp: newest_def Let_def split: if_splits)
  with run_newest show ?case by (auto simp: remembers_def)
next
  case (run_forget c rc taken i k)
  then show ?case by (auto simp: remembers_def forget_def delete_conv' distinct_delete)
qed (simp add: remembers_def)

lemma verify_event_window:
  assumes "verify_event verify keys now header body = None" "ParseInt64 (fieldOf header ''t'') = Some ts"
  shows "now \<le> ts * 1000000000 + window" "ts * 1000000000 - window \<le> now"
  using assms by (auto simp: verify_event_def Let_def split: option.splits if_splits)

subsection \<open>Properties\<close>

text \<open>
  C9. A captured event cannot be played back. Under any interleaving of handlers, a request whose
  event has an id that was taken as new and not given back is not taken again, at any later time:
  its signature's timestamp is outside the window before its id is forgotten. The handler may take
  up to \<open>g\<close> between its two looks at the clock, as long as the timestamp was not within \<open>g\<close> of a whole
  window ahead of the clock when the event was taken.
\<close>

theorem replay_is_dropped:
  assumes "receiver_run c rc taken" "(ev_ID ev, f) \<in> set taken" "c \<le> nowFirst" "nowFirst \<le> nowVerify + g"
    and "decode body = Some ev" "ParseInt64 (fieldOf header ''t'') = Some ts" "ts * 1000000000 + g \<le> f + window"
  shows "\<exists>code rc'. accept verify decode keys nowVerify nowFirst header (Some body) rc = (Inl code, rc')"
proof (cases "verify_event verify keys nowVerify header body = None")
  case True
  have "nowFirst \<le> f + 2 * window" using verify_event_window(1) [OF True assms(6)] assms(4,7) by simp
  then obtain u where u: "map_of (rc_seen rc) (ev_ID ev) = Some u" "f + 2 * window \<le> u"
    using receiver_run_remembers [OF assms(1)] assms(2,3) unfolding remembers_def by force
  have d: "distinct (map fst (rc_seen rc))"
    using receiver_run_remembers [OF assms(1)] by (simp add: remembers_def)
  have "map_of (filter (\<lambda>(k, until). \<not> nowFirst > until) (rc_seen rc)) (ev_ID ev) = Some u"
    using u \<open>nowFirst \<le> f + 2 * window\<close> by (simp add: map_of_filter_snd [OF d, of "\<lambda>u. \<not> u < nowFirst"])
  then have "fst (first nowFirst (ev_ID ev) rc) = False" by (simp add: first_def Let_def)
  then obtain rc' where "first nowFirst (ev_ID ev) rc = (False, rc')" by (metis prod.collapse)
  then show ?thesis using True assms(5) by (simp add: accept_def)
qed (simp add: accept_def)

text \<open>
  An event taken in the middle of its window, and played back while its signature still is: it is
  answered and not taken.
\<close>

definition statement :: "string \<Rightarrow> int \<Rightarrow> string list \<Rightarrow> event" where
  "statement i t groups = \<lparr>ev_ID = i, ev_Time = t, ev_Realm = ''acme'', ev_Type = TypeUserMemberships, ev_User = ''u1'',
     ev_Groups = groups, ev_Group = []\<rparr>"

definition eventTable :: "(string \<times> event) list" where
  "eventTable =
     [(''b1'', statement ''event-01'' 1 [''gentian:tenant:acme:members'']),
      (''b2'', statement ''event-02'' 2 []),
      (''b3'', statement ''event-03'' 3 [''gentian:tenant:acme:admins''])]"

definition sampleHeader :: string where
  "sampleHeader = ''keyid=k1,t=1000,sig=AAAA''"

definition sampleKeys :: "(string, string) gomap" where
  "sampleKeys = [(''k1'', replicate 32 (CHR ''k''))]"

theorem replay_is_dropped_witness:
  "\<exists>rc code rc'. fst (accept (\<lambda>k m s. True) (map_of eventTable) sampleKeys 1000000000000 1000000000000 sampleHeader (Some ''b1'')
       \<lparr>rc_seen = [], rc_last = []\<rparr>) = Inr (statement ''event-01'' 1 [''gentian:tenant:acme:members'']) \<and>
     rc = snd (accept (\<lambda>k m s. True) (map_of eventTable) sampleKeys 1000000000000 1000000000000 sampleHeader (Some ''b1'')
       \<lparr>rc_seen = [], rc_last = []\<rparr>) \<and>
     accept (\<lambda>k m s. True) (map_of eventTable) sampleKeys 1200000000000 1200000000001 sampleHeader (Some ''b1'') rc = (Inl code, rc')"
proof -
  let ?ev = "statement ''event-01'' 1 [''gentian:tenant:acme:members'']" and ?r0 = "\<lparr>rc_seen = [], rc_last = []\<rparr>"
  let ?a = "accept (\<lambda>k m s. True) (map_of eventTable) sampleKeys 1000000000000 1000000000000 sampleHeader (Some ''b1'') ?r0"
  have v: "verify_event (\<lambda>k m s. True) sampleKeys 1000000000000 sampleHeader ''b1'' = None" "map_of eventTable ''b1'' = Some ?ev"
    "eventID ''event-01'' \<and> realmPattern ''acme''" "fst (first 1000000000000 ''event-01'' ?r0)"
    by (code_simp, code_simp, code_simp, code_simp)
  then obtain rc where rc: "first 1000000000000 ''event-01'' ?r0 = (True, rc)" by (metis prod.collapse)
  have "\<not> length ''b1'' > maxEventBytes" by (simp add: maxEventBytes_def)
  with v rc have a: "?a = (Inr ?ev, rc)" by (simp add: accept_def statement_def)
  then have "first 1000000000000 ''event-01'' ?r0 = (True, snd ?a)" using rc by simp
  from run_new [OF run_start [of 0] _ this] have r: "receiver_run 1000000000000 (snd ?a) [(''event-01'', 1000000000000)]" by simp
  have e: "(ev_ID ?ev, 1000000000000 :: int) \<in> set [(''event-01'', 1000000000000)]" "map_of eventTable ''b1'' = Some ?ev"
    "ParseInt64 (fieldOf sampleHeader ''t'') = Some 1000" "(1000 :: int) * 1000000000 + 1 \<le> 1000000000000 + window"
    by (code_simp, code_simp, code_simp, code_simp)
  have n: "(1000000000000 :: int) \<le> 1200000000001" "(1200000000001 :: int) \<le> 1200000000000 + 1" by simp_all
  obtain code rc' where "accept (\<lambda>k m s. True) (map_of eventTable) sampleKeys 1200000000000 1200000000001 sampleHeader (Some ''b1'') (snd ?a) =
      (Inl code, rc')"
    using replay_is_dropped [where decode = "map_of eventTable", OF r e(1) n e(2,3,4)] by blast
  moreover have "fst ?a = Inr ?ev" using a by simp
  ultimately show ?thesis by blast
qed

text \<open>
  Statements of one person, and two runs of them. In the first, the second statement overtakes the
  first between its check and its write. In the second, an event fails in between.
\<close>

definition asMember :: event where
  "asMember = statement ''event-01'' 1 [''gentian:tenant:acme:members'']"

definition asNobody :: event where
  "asNobody = statement ''event-02'' 2 []"

definition asAdmin :: event where
  "asAdmin = statement ''event-03'' 3 [''gentian:tenant:acme:admins'']"

definition asFailed :: event where
  "asFailed = statement ''event-04'' 4 []"

definition noAnswer :: "memory \<Rightarrow> tuple \<Rightarrow> mem_err + tuple list" where
  "noAnswer w f = Inl (DoesNotExist f)"

definition overtaken :: "(nat + event) list \<times> memory" where
  "overtaken =
     (let (a1, rc) = judge 0 asMember \<lparr>rc_seen = [], rc_last = []\<rparr>; (a2, rc) = judge 0 asNobody rc;
          (e2, m) = applyEvent mem_read mem_post ''m1'' sampleScope (None :: unit mirror option) asNobody [];
          (e1, m) = applyEvent mem_read mem_post ''m1'' sampleScope (None :: unit mirror option) asMember m in
      ([a1, a2, Inl (fst (settle asNobody e2 rc)), Inl (fst (settle asMember e1 rc))], m))"

abbreviation processSample :: "(memory \<Rightarrow> tuple \<Rightarrow> mem_err + tuple list) \<Rightarrow> event \<Rightarrow> receiver \<times> memory \<Rightarrow> nat \<times> receiver \<times> memory" where
  "processSample rd \<equiv> process rd mem_post ''m1'' sampleScope (None :: unit mirror option) 0"

definition afterAdmin :: "nat \<times> receiver \<times> memory" where
  "afterAdmin = processSample mem_read asAdmin (\<lparr>rc_seen = [], rc_last = []\<rparr>, [])"

definition afterFailed :: "nat \<times> receiver \<times> memory" where
  "afterFailed = processSample noAnswer asFailed (snd afterAdmin)"

definition afterMember :: "nat \<times> receiver \<times> memory" where
  "afterMember = processSample mem_read asMember (snd afterFailed)"


text \<open>One handler after the other, each at its time.\<close>

fun processAll ::
  "('w \<Rightarrow> tuple \<Rightarrow> 'e + tuple list) \<Rightarrow> ('w \<Rightarrow> write_request \<Rightarrow> 'e option \<times> 'w) \<Rightarrow> string \<Rightarrow> scope \<Rightarrow> 'x mirror option \<Rightarrow>
   (int \<times> event) list \<Rightarrow> receiver \<times> 'w \<Rightarrow> nat list \<times> receiver \<times> 'w" where
  "processAll rd post model s mirror [] st = ([], st)"
| "processAll rd post model s mirror ((now, ev) # evs) st =
     (let (code, st) = process rd post model s mirror now ev st; (codes, st) = processAll rd post model s mirror evs st in
      (code # codes, st))"

text \<open>The statement that counts: of the newest, the one that arrived last.\<close>

fun latest :: "event \<Rightarrow> (int \<times> event) list \<Rightarrow> event" where
  "latest cur [] = cur"
| "latest cur ((now, ev) # evs) = latest (if ev_Time ev < ev_Time cur then cur else ev) evs"

definition statementOf :: "string \<Rightarrow> string \<Rightarrow> event \<Rightarrow> bool" where
  "statementOf realm sub ev \<longleftrightarrow> ev_Realm ev = realm \<and> ev_User ev = sub \<and> sub \<noteq> [] \<and> 0 \<le> ev_Time ev \<and>
     (ev_Type ev = TypeUserMemberships \<or> ev_Type ev = TypeUserDeleted)"

lemma types_apart: "TypeUserMemberships \<noteq> TypeGroupDeleted" "TypeUserDeleted \<noteq> TypeGroupDeleted"
  by (simp_all add: TypeUserMemberships_def TypeUserDeleted_def TypeGroupDeleted_def)

lemma judge_statement:
  assumes "statementOf realm sub ev"
    and "rc_last rc = [] \<or> rc_last rc = [(realm @ ''/'' @ sub, t)]"
  shows "judge now ev rc =
    (if rc_last rc \<noteq> [] \<and> ev_Time ev < t then (Inl 204, rc)
     else (Inr ev, rc\<lparr>rc_last := [(realm @ ''/'' @ sub, ev_Time ev)]\<rparr>))"
  using assms by (auto simp: statementOf_def judge_def newest_def userKey_def Let_def)

context live_server
begin

lemma applyEvent_statement:
  assumes "statementOf realm sub ev" "User sub = Inr user"
  shows "\<exists>w'. applyEvent rd post model s (None :: 'x mirror option) ev w = (None, w') \<and>
     stored w' = (stored w - ownMemberships s realm user) \<union> (\<lambda>obj. tup user ''member'' obj) ` stated s realm (eventGroups ev)"
proof -
  obtain change w' where "SetUserGroups rd post model s realm sub (eventGroups ev) w = (Inr change, w')"
    "stored w' = (stored w - ownMemberships s realm user) \<union> (\<lambda>obj. tup user ''member'' obj) ` stated s realm (eventGroups ev)"
    using SetUserGroups_ok [OF assms(2)] by blast
  then show ?thesis using assms(1) types_apart by (auto simp: applyEvent_def statementOf_def)
qed

lemma own_again:
  "((S - ownMemberships s realm user) \<union> (\<lambda>obj. tup user ''member'' obj) ` stated s realm gs) - ownMemberships s realm user =
   S - ownMemberships s realm user"
  using stated_owned by auto

lemma processAll_statements:
  assumes "User sub = Inr user" "\<forall>(now, ev) \<in> set evs. statementOf realm sub ev"
    and "rc_last rc = [(realm @ ''/'' @ sub, ev_Time cur)]"
    and "stored w = (S - ownMemberships s realm user) \<union> (\<lambda>obj. tup user ''member'' obj) ` stated s realm (eventGroups cur)"
  shows "\<exists>rc' w'. processAll rd post model s (None :: 'x mirror option) evs (rc, w) = (replicate (length evs) 204, rc', w') \<and>
     stored w' = (S - ownMemberships s realm user) \<union> (\<lambda>obj. tup user ''member'' obj) ` stated s realm (eventGroups (latest cur evs))"
  using assms(2-4)
proof (induction evs arbitrary: cur rc w)
  case Nil
  then show ?case by simp
next
  case (Cons p evs)
  obtain now ev where p: "p = (now, ev)" by fastforce
  have ev: "statementOf realm sub ev" "\<forall>(now, ev) \<in> set evs. statementOf realm sub ev" using Cons.prems(1) p by auto
  note j = judge_statement [OF ev(1), of rc "ev_Time cur" now]
  show ?case
  proof (cases "ev_Time ev < ev_Time cur")
    case True
    then have "process rd post model s (None :: 'x mirror option) now ev (rc, w) = (204, rc, w)"
      using j Cons.prems(2) by (simp add: process_def)
    with Cons.IH [OF ev(2) Cons.prems(2,3)] True show ?thesis by (auto simp: p)
  next
    case False
    let ?rc = "rc\<lparr>rc_last := [(realm @ ''/'' @ sub, ev_Time ev)]\<rparr>"
    obtain w1 where w1: "applyEvent rd post model s (None :: 'x mirror option) ev w = (None, w1)"
      "stored w1 = (stored w - ownMemberships s realm user) \<union> (\<lambda>obj. tup user ''member'' obj) ` stated s realm (eventGroups ev)"
      using applyEvent_statement [OF ev(1) assms(1)] by blast
    have "process rd post model s (None :: 'x mirror option) now ev (rc, w) = (204, ?rc, w1)"
      using j False Cons.prems(2) w1(1) by (simp add: process_def settle_def)
    moreover have "rc_last ?rc = [(realm @ ''/'' @ sub, ev_Time ev)]" by simp
    moreover note Cons.IH [OF ev(2) this w1(2) [unfolded Cons.prems(3) own_again]]
    ultimately show ?thesis using False by (auto simp: p)
  qed
qed

end

text \<open>
  C10. Without failures and overlaps the newest statement stands. Statements about one person,
  handled one after the other on a server that answers, in whatever order they arrive, are all
  answered with success, and leave the person with the groups of the newest - of those, of the one
  that arrived last: what the receiver keeps refines a single cell that only a statement at
  least as new overwrites.
\<close>

theorem newest_statement_stands:
  assumes "live_server stored rd post" "User sub = Inr user"
    and "\<forall>(now, ev) \<in> set ((now0, ev0) # evs). statementOf realm sub ev"
  shows "\<exists>rc w'. processAll rd post model s (None :: 'x mirror option) ((now0, ev0) # evs) (\<lparr>rc_seen = seen, rc_last = []\<rparr>, w) =
       (replicate (Suc (length evs)) 204, rc, w') \<and>
     stored w' = (stored w - ownMemberships s realm user) \<union>
       (\<lambda>obj. tup user ''member'' obj) ` stated s realm (eventGroups (latest ev0 evs))"
proof -
  have ev: "statementOf realm sub ev0" "\<forall>(now, ev) \<in> set evs. statementOf realm sub ev" using assms(3) by auto
  let ?rc = "\<lparr>rc_seen = seen, rc_last = [(realm @ ''/'' @ sub, ev_Time ev0)]\<rparr>"
  obtain w1 where w1: "applyEvent rd post model s (None :: 'x mirror option) ev0 w = (None, w1)"
    "stored w1 = (stored w - ownMemberships s realm user) \<union> (\<lambda>obj. tup user ''member'' obj) ` stated s realm (eventGroups ev0)"
    using live_server.applyEvent_statement [OF assms(1) ev(1) assms(2)] by blast
  have "process rd post model s (None :: 'x mirror option) now0 ev0 (\<lparr>rc_seen = seen, rc_last = []\<rparr>, w) = (204, ?rc, w1)"
    using judge_statement [OF ev(1), of "\<lparr>rc_seen = seen, rc_last = []\<rparr>"] w1(1) by (simp add: process_def settle_def)
  moreover have "rc_last ?rc = [(realm @ ''/'' @ sub, ev_Time ev0)]" by simp
  from live_server.processAll_statements [OF assms(1,2) ev(2) this w1(2)] obtain rc' w' where
    "processAll rd post model s (None :: 'x mirror option) evs (?rc, w1) = (replicate (length evs) 204, rc', w')"
    "stored w' = (stored w - ownMemberships s realm user) \<union> (\<lambda>obj. tup user ''member'' obj) ` stated s realm (eventGroups (latest ev0 evs))"
    by blast
  ultimately show ?thesis by simp
qed

theorem newest_statement_stands_witness:
  "\<exists>rc m'. processAll mem_read mem_post ''m1'' sampleScope (None :: unit mirror option) [(0, asNobody), (0, asAdmin), (0, asMember)]
       (\<lparr>rc_seen = [], rc_last = []\<rparr>, []) = (replicate 3 204, rc, m') \<and>
     set m' = {tup ''user:u1'' ''member'' ''group:gentian/tenant/acme/admins''}"
proof -
  have u: "User ''u1'' = Inr ''user:u1''" by code_simp
  have l: "list_all (\<lambda>(now, ev). statementOf ''acme'' ''u1'' ev) [(0 :: int, asNobody), (0, asAdmin), (0, asMember)]"
    "eventGroups (latest asNobody [(0, asAdmin), (0, asMember)]) = [''gentian:tenant:acme:admins'']"
    "wanted sampleScope ''acme'' [''gentian:tenant:acme:admins''] [] [] = ([''group:gentian/tenant/acme/admins''], [])"
    by (code_simp, code_simp, code_simp)
  have g: "stated sampleScope ''acme'' [''gentian:tenant:acme:admins''] = {''group:gentian/tenant/acme/admins''}"
    using wanted_stated [OF l(3)] by simp
  from newest_statement_stands [where s = sampleScope and model = "''m1''" and seen = "[]" and w = "[]" and 'x = unit,
      OF mem.live_server_axioms u l(1) [unfolded list_all_iff]]
  show ?thesis unfolding l(2) g by (simp add: numeral_3_eq_3)
qed

end
