(* ===== verification/Authn.thy ===== *)
theory Authn
  imports Rights_Ids
begin

section \<open>Who presented a token\<close>

text \<open>
  \<open>internal/director/authn\<close>: Keycloak's tokens, verified for any realm under one base URL. The JOSE
  library is a record of functions (parsing a signed token, its claims under a key, the check
  of the registered claims), a realm's key set is fetched by an argument, and the verifier's
  state is the key sets it holds with the time each was fetched. Times are in nanoseconds.
\<close>

subsection \<open>Identities and delegated tokens\<close>

record authn_identity =
  au_Subject :: string
  au_Realm :: string
  au_Issuer :: string
  au_SessionID :: string
  au_Client :: string
  au_Name :: string
  au_Email :: string
  au_Scopes :: "string list"

definition delegatedClientPrefix :: string where
  "delegatedClientPrefix = ''vouch-''"

definition delegatedRoutes :: "(string, string list) gomap" where
  "delegatedRoutes =
     [(''GET /v1/clusters/{c}/resource-plans'', [''director-plans-read'', ''director-plans-apply'']),
      (''PUT /v1/clusters/{c}/tenants/{t}/resources'', [''director-plans-apply'']),
      (''GET /v1/clusters/{c}/resources'', [''director-plans-read'', ''director-plans-apply'']),
      (''GET /v1/clusters/{c}/resources/report'', [''director-plans-read'', ''director-plans-apply''])]"

definition Delegated :: "authn_identity \<Rightarrow> bool" where
  "Delegated i \<longleftrightarrow> length (au_Client i) > length delegatedClientPrefix \<and>
     take (length delegatedClientPrefix) (au_Client i) = delegatedClientPrefix"

definition MayCall :: "authn_identity \<Rightarrow> string \<Rightarrow> bool" where
  "MayCall i pattern \<longleftrightarrow>
     (if \<not> Delegated i then True
      else list_ex (\<lambda>sc. sc \<in> set (au_Scopes i))
        (case map_of delegatedRoutes pattern of None \<Rightarrow> [] | Some scopes \<Rightarrow> scopes))"

subsection \<open>Configuration\<close>

record authn_config =
  ac_IssuerBase :: string
  ac_JWKSBase :: string
  ac_Audience :: string

definition trimSlashes :: "string \<Rightarrow> string" where
  "trimSlashes s = rev (dropWhile (\<lambda>x. x = CHR ''/'') (rev s))"

definition NewVerifier :: "authn_config \<Rightarrow> authn_config option" where
  "NewVerifier cfg =
     (let issuer = trimSlashes (ac_IssuerBase cfg); jwks = trimSlashes (ac_JWKSBase cfg) in
      if issuer = [] \<or> ac_Audience cfg = [] then None
      else Some \<lparr>ac_IssuerBase = issuer, ac_JWKSBase = (if jwks = [] then issuer else jwks), ac_Audience = ac_Audience cfg\<rparr>)"

subsection \<open>Keys\<close>

definition keyTTL :: int where
  "keyTTL = 10 * 60 * 1000000000"

definition refetchFloor :: int where
  "refetchFloor = 30 * 1000000000"

definition leeway :: int where
  "leeway = 30 * 1000000000"

text \<open>A key set: the id, the use and the key of each entry.\<close>

record 'k realm_keys =
  rk_set :: "(string \<times> string \<times> 'k) list"
  rk_fetched :: int

definition findKey :: "(string \<times> string \<times> 'k) list \<Rightarrow> string \<Rightarrow> 'k option" where
  "findKey ks kid =
     (case find (\<lambda>(i, usage, k). i = kid \<and> (usage = [] \<or> usage = ''sig'')) ks of
        None \<Rightarrow> None | Some (i, usage, k) \<Rightarrow> Some k)"

datatype 'f authn_err =
    NoBearerToken
  | NotParsed
  | NamesNoKey
  | NoClaims
  | NotThisPlatforms string
  | NoValidRealm
  | NoSuchKey
  | NoKeys string 'f
  | SignatureFails
  | NoExpiry
  | NotValid
  | NoSubject
  | NotAnIDToken string
  | NotAnAccessToken string
  | NoClientToHold

definition realm_label :: "string \<Rightarrow> bool" where
  "realm_label s \<longleftrightarrow> s \<noteq> [] \<and> length s \<le> 63 \<and> is_alnum (hd s) \<and>
     list_all (\<lambda>x. is_alnum x \<or> x = CHR ''_'' \<or> x = CHR ''-'') s"

definition realmOf :: "authn_config \<Rightarrow> string \<Rightarrow> 'f authn_err + string" where
  "realmOf cfg issuer =
     (let pre = ac_IssuerBase cfg @ ''/realms/'' in
      if \<not> HasPrefix issuer pre then Inl (NotThisPlatforms issuer)
      else
        (let realm = drop (length pre) issuer in
         if \<not> realm_label realm then Inl NoValidRealm else Inr realm))"

text \<open>The address a realm's keys are fetched from.\<close>

definition certsURL :: "authn_config \<Rightarrow> string \<Rightarrow> string" where
  "certsURL cfg realm = ac_JWKSBase cfg @ ''/realms/'' @ realm @ ''/protocol/openid-connect/certs''"

type_synonym 'k keyring = "(string, 'k realm_keys) gomap"

definition keyFor ::
  "authn_config \<Rightarrow> (string \<Rightarrow> 'f + (string \<times> string \<times> 'k) list) \<Rightarrow> int \<Rightarrow> string \<Rightarrow> string \<Rightarrow> 'k keyring \<Rightarrow>
   ('f authn_err + 'k) \<times> 'k keyring" where
  "keyFor cfg fetch now realm kid keys =
     (let fetched = (case fetch (certsURL cfg realm) of
            Inl e \<Rightarrow> (Inl (NoKeys realm e), keys)
          | Inr ks \<Rightarrow>
              ((case findKey ks kid of Some k \<Rightarrow> Inr k | None \<Rightarrow> Inl NoSuchKey),
               AList.update realm \<lparr>rk_set = ks, rk_fetched = now\<rparr> keys)) in
      case map_of keys realm of
        None \<Rightarrow> fetched
      | Some rk \<Rightarrow>
          (if now - rk_fetched rk < keyTTL then
             (case findKey (rk_set rk) kid of
                Some k \<Rightarrow> (Inr k, keys)
              | None \<Rightarrow> if now - rk_fetched rk < refetchFloor then (Inl NoSuchKey, keys) else fetched)
           else fetched))"

text \<open>Whether a lookup asks Keycloak.\<close>

definition asks :: "int \<Rightarrow> string \<Rightarrow> string \<Rightarrow> 'k keyring \<Rightarrow> bool" where
  "asks now realm kid keys =
     (case map_of keys realm of
        None \<Rightarrow> True
      | Some rk \<Rightarrow> \<not> (now - rk_fetched rk < keyTTL \<and> (findKey (rk_set rk) kid \<noteq> None \<or> now - rk_fetched rk < refetchFloor)))"

subsection \<open>Tokens\<close>

record std_claims =
  st_Issuer :: string
  st_Subject :: string
  st_Audience :: "string list"
  st_Expiry :: "int option"

record keycloak_claims =
  kc_SessionID :: string
  kc_Client :: string
  kc_Name :: string
  kc_Username :: string
  kc_Email :: string
  kc_Type :: string
  kc_Scope :: string

record ('t, 'k) jose =
  jo_parse :: "string \<Rightarrow> 't option"
  jo_keyIDs :: "'t \<Rightarrow> string list"
  jo_issuer :: "'t \<Rightarrow> string option"
  jo_claims :: "'t \<Rightarrow> 'k \<Rightarrow> (std_claims \<times> keycloak_claims) option"
  jo_valid :: "std_claims \<Rightarrow> string \<Rightarrow> string \<Rightarrow> int \<Rightarrow> int \<Rightarrow> bool"

definition tokenAccess :: string where
  "tokenAccess = ''Bearer''"

definition tokenID :: string where
  "tokenID = ''ID''"

text \<open>\<open>strings.Fields\<close>.\<close>

function fieldsAt :: "string \<Rightarrow> string \<Rightarrow> string list" where
  "fieldsAt cur s =
     (case s of
        [] \<Rightarrow> if cur = [] then [] else [cur]
      | x # r \<Rightarrow>
          (case find (\<lambda>w. w \<noteq> [] \<and> prefix w s) go_spaces of
             None \<Rightarrow> fieldsAt (cur @ [x]) r
           | Some w \<Rightarrow> (if cur = [] then [] else [cur]) @ fieldsAt [] (drop (length w) s)))"
  by pat_completeness auto
termination
  by (relation "measure (\<lambda>(cur, s). length s)") (auto simp: find_Some_iff prefix_def)

declare fieldsAt.simps [simp del]

definition Fields :: "string \<Rightarrow> string list" where
  "Fields s = fieldsAt [] s"

definition wrongKind :: "string \<Rightarrow> string \<Rightarrow> 'f authn_err option" where
  "wrongKind kind typ =
     (if kind = tokenID then (if \<not> EqualFold typ tokenID then Some (NotAnIDToken typ) else None)
      else if typ \<noteq> [] \<and> \<not> EqualFold typ tokenAccess then Some (NotAnAccessToken typ) else None)"

definition verify_token ::
  "('t, 'k) jose \<Rightarrow> authn_config \<Rightarrow> (string \<Rightarrow> 'f + (string \<times> string \<times> 'k) list) \<Rightarrow> int \<Rightarrow> string \<Rightarrow> string \<Rightarrow> string \<Rightarrow>
   'k keyring \<Rightarrow> ('f authn_err + authn_identity) \<times> 'k keyring" where
  "verify_token jo cfg fetch now raw audience kind keys =
     (case jo_parse jo raw of
        None \<Rightarrow> (Inl NotParsed, keys)
      | Some tok \<Rightarrow>
     (case jo_keyIDs jo tok of
        [kid] \<Rightarrow>
     (if kid = [] then (Inl NamesNoKey, keys)
      else
     (case jo_issuer jo tok of
        None \<Rightarrow> (Inl NoClaims, keys)
      | Some issuer \<Rightarrow>
     (case realmOf cfg issuer of
        Inl e \<Rightarrow> (Inl e, keys)
      | Inr realm \<Rightarrow>
     (case keyFor cfg fetch now realm kid keys of
        (Inl e, keys) \<Rightarrow> (Inl e, keys)
      | (Inr k, keys) \<Rightarrow>
          ((case jo_claims jo tok k of
              None \<Rightarrow> Inl SignatureFails
            | Some (std, kc) \<Rightarrow>
                (if st_Expiry std = None then Inl NoExpiry
                 else if \<not> jo_valid jo std (ac_IssuerBase cfg @ ''/realms/'' @ realm) audience now leeway then Inl NotValid
                 else if st_Subject std = [] then Inl NoSubject
                 else
                   (case wrongKind kind (kc_Type kc) of
                      Some e \<Rightarrow> Inl e
                    | None \<Rightarrow>
                        Inr \<lparr>au_Subject = st_Subject std, au_Realm = realm, au_Issuer = st_Issuer std,
                             au_SessionID = kc_SessionID kc, au_Client = kc_Client kc,
                             au_Name = (if kc_Name kc = [] then kc_Username kc else kc_Name kc),
                             au_Email = kc_Email kc, au_Scopes = Fields (kc_Scope kc)\<rparr>))),
           keys)))))
      | _ \<Rightarrow> (Inl NamesNoKey, keys)))"

definition Verify ::
  "('t, 'k) jose \<Rightarrow> authn_config \<Rightarrow> (string \<Rightarrow> 'f + (string \<times> string \<times> 'k) list) \<Rightarrow> int \<Rightarrow> string \<Rightarrow> 'k keyring \<Rightarrow>
   ('f authn_err + authn_identity) \<times> 'k keyring" where
  "Verify jo cfg fetch now raw keys = verify_token jo cfg fetch now raw (ac_Audience cfg) tokenAccess keys"

definition VerifyIDToken ::
  "('t, 'k) jose \<Rightarrow> authn_config \<Rightarrow> (string \<Rightarrow> 'f + (string \<times> string \<times> 'k) list) \<Rightarrow> int \<Rightarrow> string \<Rightarrow> string \<Rightarrow> 'k keyring \<Rightarrow>
   ('f authn_err + authn_identity) \<times> 'k keyring" where
  "VerifyIDToken jo cfg fetch now raw client keys =
     (if client = [] then (Inl NoClientToHold, keys) else verify_token jo cfg fetch now raw client tokenID keys)"

definition FromRequest ::
  "('t, 'k) jose \<Rightarrow> authn_config \<Rightarrow> (string \<Rightarrow> 'f + (string \<times> string \<times> 'k) list) \<Rightarrow> int \<Rightarrow> string \<Rightarrow> 'k keyring \<Rightarrow>
   ('f authn_err + authn_identity) \<times> 'k keyring" where
  "FromRequest jo cfg fetch now h keys =
     (if length h \<le> 7 \<or> \<not> EqualFold (take 7 h) ''Bearer '' then (Inl NoBearerToken, keys)
      else Verify jo cfg fetch now (TrimSpace (drop 7 h)) keys)"

subsection \<open>Key sets\<close>

text \<open>Every key set held was answered for its realm.\<close>

definition ringOf :: "(string \<Rightarrow> (string \<times> string \<times> 'k) list \<Rightarrow> bool) \<Rightarrow> 'k keyring \<Rightarrow> bool" where
  "ringOf answered keys \<longleftrightarrow> (\<forall>realm rk. map_of keys realm = Some rk \<longrightarrow> answered realm (rk_set rk))"

lemma findKey_Some: "findKey ks kid = Some k \<Longrightarrow> \<exists>usage. (kid, usage, k) \<in> set ks \<and> (usage = [] \<or> usage = ''sig'')"
  unfolding findKey_def by (auto simp: find_Some_iff split: option.splits) (metis nth_mem)+

lemma keyFor_ring:
  assumes "ringOf answered keys" "\<And>ks. fetch (certsURL cfg realm) = Inr ks \<Longrightarrow> answered realm ks"
    and "keyFor cfg fetch now realm kid keys = (r, keys')"
  shows "ringOf answered keys'"
    "r = Inr k \<Longrightarrow> \<exists>ks usage. answered realm ks \<and> (kid, usage, k) \<in> set ks \<and> (usage = [] \<or> usage = ''sig'')"
proof -
  note defs = keyFor_def Let_def
  show "ringOf answered keys'"
    using assms by (auto simp: defs ringOf_def update_conv split: option.splits sum.splits if_splits)
  assume "r = Inr k"
  then have "(\<exists>rk. map_of keys realm = Some rk \<and> findKey (rk_set rk) kid = Some k) \<or>
      (\<exists>ks. fetch (certsURL cfg realm) = Inr ks \<and> findKey ks kid = Some k)"
    using assms(3) by (auto simp: defs split: option.splits sum.splits if_splits)
  then show "\<exists>ks usage. answered realm ks \<and> (kid, usage, k) \<in> set ks \<and> (usage = [] \<or> usage = ''sig'')"
    using assms(1,2) findKey_Some unfolding ringOf_def by metis
qed

lemma realmOf_Inr: "realmOf cfg issuer = Inr realm \<Longrightarrow> realm_label realm"
  by (auto simp: realmOf_def Let_def split: if_splits)

lemma verify_token_Inr:
  fixes fetch :: "string \<Rightarrow> 'f + _"
  assumes "verify_token jo cfg fetch now raw audience kind keys = (Inr i, keys')"
  shows "\<exists>tok kid k std kc. jo_parse jo raw = Some tok \<and> realm_label (au_Realm i) \<and>
     keyFor cfg fetch now (au_Realm i) kid keys = (Inr k, keys') \<and> jo_claims jo tok k = Some (std, kc) \<and> st_Expiry std \<noteq> None \<and>
     jo_valid jo std (ac_IssuerBase cfg @ ''/realms/'' @ au_Realm i) audience now leeway \<and>
     st_Subject std \<noteq> [] \<and> (wrongKind kind (kc_Type kc) :: 'f authn_err option) = None \<and>
     au_Subject i = st_Subject std \<and> au_Issuer i = st_Issuer std \<and> au_Client i = kc_Client kc"
proof -
  obtain tok kid issuer realm k where t: "jo_parse jo raw = Some tok" "realmOf cfg issuer = (Inr realm :: 'f authn_err + _)"
    "keyFor cfg fetch now realm kid keys = (Inr k, keys')" "jo_issuer jo tok = Some issuer" "jo_keyIDs jo tok = [kid]" "kid \<noteq> []"
    using assms by (auto simp: verify_token_def split: option.splits list.splits if_splits sum.splits prod.splits)
  obtain std kc where c: "jo_claims jo tok k = Some (std, kc)" "st_Expiry std \<noteq> None"
    "jo_valid jo std (ac_IssuerBase cfg @ ''/realms/'' @ realm) audience now leeway" "st_Subject std \<noteq> []"
    "(wrongKind kind (kc_Type kc) :: 'f authn_err option) = None"
    "au_Realm i = realm" "au_Subject i = st_Subject std" "au_Issuer i = st_Issuer std" "au_Client i = kc_Client kc"
    using assms t by (auto simp: verify_token_def split: option.splits if_splits prod.splits)
  show ?thesis using t c realmOf_Inr [OF t(2)] by blast
qed

subsection \<open>Properties\<close>

text \<open>
  C12. What a verified identity stands for. With a library that checks the issuer, the audience and
  the expiry, and key sets that were answered for their realm, an identity handed out names a
  realm that is a plain label, was claimed in a token whose signature verifies under a signing
  key answered for that very realm, issued by that realm of this platform for the audience asked
  for, not expired beyond the leeway, with a subject, and of the kind asked for: an ID token never
  passes for an access token nor the other way round. The key sets held stay the realms' own.
\<close>

theorem verified_identity_is_the_realms:
  fixes fetch :: "string \<Rightarrow> 'f + (string \<times> string \<times> 'k) list"
  assumes "\<And>std issuer audience now lw. jo_valid jo std issuer audience now lw \<Longrightarrow>
      st_Issuer std = issuer \<and> audience \<in> set (st_Audience std) \<and> (\<forall>e. st_Expiry std = Some e \<longrightarrow> now \<le> e + lw)"
    and "ringOf answered keys" "\<And>realm ks. fetch (certsURL cfg realm) = Inr ks \<Longrightarrow> answered realm ks"
    and "verify_token jo cfg fetch now raw audience kind keys = (Inr i, keys')"
  shows "ringOf answered keys' \<and> realm_label (au_Realm i) \<and> au_Subject i \<noteq> [] \<and>
     au_Issuer i = ac_IssuerBase cfg @ ''/realms/'' @ au_Realm i \<and>
     (\<exists>tok kid usage ks k std kc e. jo_parse jo raw = Some tok \<and> answered (au_Realm i) ks \<and> (kid, usage, k) \<in> set ks \<and>
        (usage = [] \<or> usage = ''sig'') \<and> jo_claims jo tok k = Some (std, kc) \<and> audience \<in> set (st_Audience std) \<and>
        st_Subject std = au_Subject i \<and> st_Expiry std = Some e \<and> now \<le> e + leeway \<and>
        (EqualFold (kc_Type kc) tokenID \<longleftrightarrow> kind = tokenID))"
proof -
  from verify_token_Inr [OF assms(4)] obtain tok kid k std kc where t: "jo_parse jo raw = Some tok" "realm_label (au_Realm i)"
    "keyFor cfg fetch now (au_Realm i) kid keys = (Inr k, keys')" "jo_claims jo tok k = Some (std, kc)" "st_Expiry std \<noteq> None"
    "jo_valid jo std (ac_IssuerBase cfg @ ''/realms/'' @ au_Realm i) audience now leeway"
    "st_Subject std \<noteq> []" "(wrongKind kind (kc_Type kc) :: 'f authn_err option) = None"
    "au_Subject i = st_Subject std" "au_Issuer i = st_Issuer std" by blast
  note v = assms(1) [OF t(6)]
  have r: "ringOf answered keys'"
    "\<exists>ks usage. answered (au_Realm i) ks \<and> (kid, usage, k) \<in> set ks \<and> (usage = [] \<or> usage = ''sig'')"
    using keyFor_ring [of answered keys fetch, OF assms(2) _ t(3)] assms(3) by blast+
  have "EqualFold (kc_Type kc) tokenID \<longleftrightarrow> kind = tokenID"
    using t(8) by (auto simp: wrongKind_def EqualFold_def tokenID_def tokenAccess_def split: if_splits)
  moreover obtain e where e: "st_Expiry std = Some e" using t(5) by blast
  moreover have "now \<le> e + leeway" using v e by blast
  ultimately show ?thesis using r t v by (metis (no_types, lifting))
qed

text \<open>A platform, a library that takes the text for the token, and one realm with one signing key.\<close>

definition sampleAuthn :: authn_config where
  "sampleAuthn = \<lparr>ac_IssuerBase = ''https://auth.example.org'', ac_JWKSBase = ''http://keycloak.gentian'', ac_Audience = ''director''\<rparr>"

definition sampleJose :: "(string, nat) jose" where
  "sampleJose = \<lparr>jo_parse = Some, jo_keyIDs = (\<lambda>_. [''k1'']), jo_issuer = (\<lambda>_. Some ''https://auth.example.org/realms/demo''),
     jo_claims = (\<lambda>tok k. if k = 7 then
        Some (\<lparr>st_Issuer = ''https://auth.example.org/realms/demo'', st_Subject = tok, st_Audience = [''director''], st_Expiry = Some 100\<rparr>,
          \<lparr>kc_SessionID = [], kc_Client = ''desktop'', kc_Name = ''Ann'', kc_Username = ''ann'', kc_Email = [], kc_Type = ''Bearer'', kc_Scope = ''openid profile''\<rparr>)
        else None),
     jo_valid = (\<lambda>std issuer audience now lw. st_Issuer std = issuer \<and> audience \<in> set (st_Audience std) \<and>
        (case st_Expiry std of None \<Rightarrow> True | Some e \<Rightarrow> now \<le> e + lw))\<rparr>"

definition sampleFetch :: "string \<Rightarrow> string + (string \<times> string \<times> nat) list" where
  "sampleFetch url = (if url = certsURL sampleAuthn ''demo'' then Inr [(''k1'', ''sig'', 7)] else Inl ''404'')"

definition sampleAnswered :: "string \<Rightarrow> (string \<times> string \<times> nat) list \<Rightarrow> bool" where
  "sampleAnswered realm ks \<longleftrightarrow> realm = ''demo'' \<and> ks = [(''k1'', ''sig'', 7)]"

lemma sample_verified:
  "verify_token sampleJose sampleAuthn sampleFetch 50 ''u-1'' ''director'' tokenAccess [] =
     (Inr \<lparr>au_Subject = ''u-1'', au_Realm = ''demo'', au_Issuer = ''https://auth.example.org/realms/demo'', au_SessionID = [],
        au_Client = ''desktop'', au_Name = ''Ann'', au_Email = [], au_Scopes = [''openid'', ''profile'']\<rparr>,
      [(''demo'', \<lparr>rk_set = [(''k1'', ''sig'', 7)], rk_fetched = 50\<rparr>)])"
  by code_simp

theorem verified_identity_is_the_realms_witness:
  "\<exists>i keys'. verify_token sampleJose sampleAuthn sampleFetch 50 ''u-1'' ''director'' tokenAccess [] = (Inr i, keys') \<and>
     ringOf sampleAnswered keys' \<and> realm_label (au_Realm i) \<and> au_Subject i \<noteq> [] \<and>
     au_Issuer i = ac_IssuerBase sampleAuthn @ ''/realms/'' @ au_Realm i"
proof -
  have "certsURL sampleAuthn realm = certsURL sampleAuthn ''demo'' \<longleftrightarrow> realm = ''demo''" for realm
    by (simp add: certsURL_def)
  then have a: "\<And>realm ks. sampleFetch (certsURL sampleAuthn realm) = Inr ks \<Longrightarrow> sampleAnswered realm ks"
    by (auto simp: sampleFetch_def sampleAnswered_def split: if_splits)
  have r: "ringOf sampleAnswered []" by (simp add: ringOf_def)
  have "\<And>std issuer audience now lw. jo_valid sampleJose std issuer audience now lw \<Longrightarrow>
      st_Issuer std = issuer \<and> audience \<in> set (st_Audience std) \<and> (\<forall>e. st_Expiry std = Some e \<longrightarrow> now \<le> e + lw)"
    by (auto simp: sampleJose_def)
  from verified_identity_is_the_realms [OF this r a sample_verified, THEN conjunct1]
  have "ringOf sampleAnswered [(''demo'', \<lparr>rk_set = [(''k1'', ''sig'', 7)], rk_fetched = 50\<rparr>)]" .
  moreover have "realm_label ''demo''" by code_simp
  ultimately show ?thesis unfolding sample_verified by (simp add: sampleAuthn_def)
qed

subsection \<open>How often keys are fetched\<close>

text \<open>
  A run of lookups with a clock that never goes back, whatever Keycloak answers each time, with the
  fetches that brought a key set, the latest first.
\<close>

inductive ring_run :: "authn_config \<Rightarrow> int \<Rightarrow> 'k keyring \<Rightarrow> (string \<times> int) list \<Rightarrow> bool" for cfg where
  ring_start: "ring_run cfg now [] []"
| ring_lookup: "\<lbrakk>ring_run cfg now keys fetches; now \<le> now'; keyFor cfg (fetch :: string \<Rightarrow> string + _) now' realm kid keys = (r, keys');
    fetches' = (if asks now' realm kid keys \<and> \<not> isl (fetch (certsURL cfg realm)) then (realm, now') # fetches else fetches)\<rbrakk>
    \<Longrightarrow> ring_run cfg now' keys' fetches'"

lemma keyFor_keeps: "keyFor cfg fetch now realm kid keys = (r, keys') \<Longrightarrow>
    keys' = (case fetch (certsURL cfg realm) of Inr ks \<Rightarrow>
       if asks now realm kid keys then AList.update realm \<lparr>rk_set = ks, rk_fetched = now\<rparr> keys else keys | Inl _ \<Rightarrow> keys)"
  by (auto simp: keyFor_def Let_def asks_def split: option.splits sum.splits if_splits)

definition apart :: "(string \<times> int) list \<Rightarrow> bool" where
  "apart fetches \<longleftrightarrow> sorted_wrt (\<lambda>(realm, t) (realm', t'). realm = realm' \<longrightarrow> t' + refetchFloor \<le> t) fetches"

lemma asks_after_floor: "\<lbrakk>asks now realm kid keys; map_of keys realm = Some rk\<rbrakk> \<Longrightarrow> rk_fetched rk + refetchFloor \<le> now"
  by (auto simp: asks_def keyTTL_def refetchFloor_def split: if_splits)

lemma ring_run_inv: "ring_run cfg now keys fetches \<Longrightarrow>
    apart fetches \<and> (\<forall>(realm, t) \<in> set fetches. \<exists>rk. map_of keys realm = Some rk \<and> t \<le> rk_fetched rk)"
proof (induction rule: ring_run.induct)
  case (ring_start now)
  then show ?case by (simp add: apart_def)
next
  case (ring_lookup now keys fetches now' fetch realm kid r keys' fetches')
  show ?case
  proof (cases "asks now' realm kid keys \<and> \<not> isl (fetch (certsURL cfg realm))")
    case True
    then obtain ks where ks: "fetch (certsURL cfg realm) = Inr ks" by (cases "fetch (certsURL cfg realm)") auto
    have k: "keys' = AList.update realm \<lparr>rk_set = ks, rk_fetched = now'\<rparr> keys"
      using keyFor_keeps [OF ring_lookup(3)] True ks by simp
    have floor: "t + refetchFloor \<le> now'" if "(realm, t) \<in> set fetches" for t
      using ring_lookup.IH that True asks_after_floor by fastforce
    have "0 < refetchFloor" by (simp add: refetchFloor_def)
    then have "\<exists>rk. map_of keys' realm' = Some rk \<and> t \<le> rk_fetched rk" if "(realm', t) \<in> set fetches'" for realm' t
      using that ring_lookup.IH ring_lookup(4) True floor [of t] by (fastforce simp: k update_conv)
    moreover have "apart fetches'"
      using ring_lookup.IH ring_lookup(4) True floor by (auto simp: apart_def)
    ultimately show ?thesis by blast
  next
    case False
    then have "keys' = keys" using keyFor_keeps [OF ring_lookup(3)] by (auto split: sum.splits)
    then show ?thesis using ring_lookup False by auto
  qed
qed

text \<open>
  C15. However many tokens arrive and whatever key ids they name, two fetches that bring one realm's
  keys are at least the refetch floor apart.
\<close>

theorem key_fetches_bounded:
  assumes "ring_run cfg now keys fetches" "i < j" "j < length fetches" "fst (fetches ! i) = fst (fetches ! j)"
  shows "snd (fetches ! j) + refetchFloor \<le> snd (fetches ! i)"
proof -
  have "apart fetches" using ring_run_inv [OF assms(1)] by blast
  from this [unfolded apart_def, THEN sorted_wrt_nth_less, OF assms(2,3)] assms(4) show ?thesis
    by (simp add: case_prod_beta)
qed

theorem key_fetches_bounded_witness:
  "\<exists>keys. ring_run sampleAuthn 60000000000 (keys :: nat keyring) [(''demo'', 60000000000), (''demo'', 0)] \<and>
     (0 :: int) + refetchFloor \<le> 60000000000"
proof -
  note step = ring_lookup [OF _ _ surjective_pairing refl, of sampleAuthn]
  have "ring_run sampleAuthn 0 [(''demo'', \<lparr>rk_set = [(''k1'', ''sig'', 7 :: nat)], rk_fetched = 0\<rparr>)] [(''demo'', 0)]"
    using step [OF ring_start [of _ 0], of 0 sampleFetch "''demo''" "''k1''"]
    by (simp add: keyFor_def asks_def sampleFetch_def)
  from step [OF this, of 60000000000 sampleFetch "''demo''" "''k2''"]
  have r: "ring_run sampleAuthn 60000000000 [(''demo'', \<lparr>rk_set = [(''k1'', ''sig'', 7 :: nat)], rk_fetched = 60000000000\<rparr>)]
      [(''demo'', 60000000000), (''demo'', 0)]"
    by (simp add: keyFor_def asks_def sampleFetch_def findKey_def keyTTL_def refetchFloor_def)
  then show ?thesis using key_fetches_bounded [OF r, of 0 1] by auto
qed

end
