(* ===== verification/Guard.thy ===== *)
theory Guard
  imports Authn Component_Keys
begin

section \<open>The steps in front of every route\<close>

text \<open>
  \<open>internal/guard\<close>: the request's id, who is calling, and whether they may do the route's relation
  to its object. The authenticator and the authorization store are arguments; a request is its
  \<open>Authorization\<close> and \<open>X-Request-Id\<close> headers here. Of a refusal the status, the message and the
  challenge are kept; what a service makes of it is its own.
\<close>

subsection \<open>Request ids and credentials\<close>

text \<open>\<open>^[A-Za-z0-9._-]{8,64}$\<close>.\<close>

definition inboundID :: "string \<Rightarrow> bool" where
  "inboundID s \<longleftrightarrow> 8 \<le> length s \<and> length s \<le> 64 \<and>
     list_all (\<lambda>x. is_alnum x \<or> x = CHR ''.'' \<or> x = CHR ''_'' \<or> x = CHR ''-'') s"

text \<open>\<open>random\<close> are the bytes read for a caller that arrives without an id.\<close>

definition RequestID :: "string \<Rightarrow> string \<Rightarrow> string" where
  "RequestID random h = (if inboundID h then h else EncodeToString random)"

definition Bearer :: "string \<Rightarrow> string" where
  "Bearer h = (if length h > 7 \<and> EqualFold (take 7 h) ''bearer '' then TrimSpace (drop 7 h) else [])"

subsection \<open>The guard\<close>

record guard =
  gd_Realm :: string
  gd_Scoped :: bool

record caller =
  cl_Ident :: authn_identity
  cl_User :: string
  cl_Holder :: string
  cl_Relation :: string
  cl_Object :: string

record guard_refusal =
  rf_Code :: nat
  rf_Message :: string
  rf_Challenge :: "string option"

definition Decision :: "caller \<Rightarrow> string" where
  "Decision c = cl_Relation c @ '' '' @ cl_Object c"

definition authenticate :: "guard \<Rightarrow> (string \<Rightarrow> 'f + authn_identity) \<Rightarrow> string \<Rightarrow> guard_refusal + authn_identity \<times> string" where
  "authenticate g auth h =
     (case auth h of
        Inl e \<Rightarrow> Inl \<lparr>rf_Code = 401, rf_Message = ''unauthenticated'',
                   rf_Challenge = Some (''Bearer realm=\"'' @ gd_Realm g @ ''\"'')\<rparr>
      | Inr ident \<Rightarrow>
          (case User (au_Subject ident) of
             Inl e \<Rightarrow> Inl \<lparr>rf_Code = 401, rf_Message = ''unauthenticated'', rf_Challenge = None\<rparr>
           | Inr user \<Rightarrow> Inr (ident, user)))"

text \<open>The caller as a role holder of their realm; empty when the realm cannot be named.\<close>

definition holderOf :: "authn_identity \<Rightarrow> string" where
  "holderOf ident = (case HolderUser (au_Realm ident) (au_Subject ident) of Inl e \<Rightarrow> [] | Inr h \<Rightarrow> h)"

definition Identify :: "guard \<Rightarrow> (string \<Rightarrow> 'f + authn_identity) \<Rightarrow> string \<Rightarrow> guard_refusal + caller" where
  "Identify g auth h =
     (case authenticate g auth h of
        Inl r \<Rightarrow> Inl r
      | Inr (ident, user) \<Rightarrow>
          Inr \<lparr>cl_Ident = ident, cl_User = user, cl_Holder = holderOf ident, cl_Relation = [], cl_Object = []\<rparr>)"

text \<open>The relations in order, the first held answering.\<close>

fun firstHeld :: "(string \<Rightarrow> 'e + bool) \<Rightarrow> string list \<Rightarrow> guard_refusal + string" where
  "firstHeld ask [] = Inl \<lparr>rf_Code = 403, rf_Message = ''forbidden'', rf_Challenge = None\<rparr>"
| "firstHeld ask (rel # rels) =
     (case ask rel of
        Inl e \<Rightarrow> Inl \<lparr>rf_Code = 503, rf_Message = ''authorization unavailable'', rf_Challenge = None\<rparr>
      | Inr True \<Rightarrow> Inr rel
      | Inr False \<Rightarrow> firstHeld ask rels)"

definition Authorize ::
  "guard \<Rightarrow> (string \<Rightarrow> 'f + authn_identity) \<Rightarrow> (string \<Rightarrow> string \<Rightarrow> string \<Rightarrow> 'e + bool) \<Rightarrow> string \<Rightarrow> string \<Rightarrow>
   (authn_identity \<Rightarrow> string list) \<Rightarrow> string option \<Rightarrow> guard_refusal + caller" where
  "Authorize g auth check h route relations object =
     (case authenticate g auth h of
        Inl r \<Rightarrow> Inl r
      | Inr (ident, user) \<Rightarrow>
          (if gd_Scoped g \<and> \<not> MayCall ident route then
             Inl \<lparr>rf_Code = 403, rf_Message = ''this token was obtained on the person's behalf and does not reach this route'',
                  rf_Challenge = None\<rparr>
           else
             (case object of
                None \<Rightarrow> Inl \<lparr>rf_Code = 400, rf_Message = ''invalid name'', rf_Challenge = None\<rparr>
              | Some target \<Rightarrow>
                  (case firstHeld (\<lambda>rel. CheckAs check user (holderOf ident) rel target) (relations ident) of
                     Inl r \<Rightarrow> Inl r
                   | Inr rel \<Rightarrow>
                       Inr \<lparr>cl_Ident = ident, cl_User = user, cl_Holder = holderOf ident,
                            cl_Relation = rel, cl_Object = target\<rparr>))))"

definition One :: "string \<Rightarrow> authn_identity \<Rightarrow> string list" where
  "One relation ident = [relation]"

subsection \<open>Lemmas\<close>

lemma firstHeld_Inr: "firstHeld ask rels = Inr rel \<Longrightarrow> rel \<in> set rels \<and> ask rel = Inr True"
  by (induction ask rels rule: firstHeld.induct) (auto split: sum.splits bool.splits)

text \<open>Who may: the account or, refused as the account, the realm's role holder.\<close>

definition mayDo :: "(string \<Rightarrow> string \<Rightarrow> string \<Rightarrow> 'e + bool) \<Rightarrow> authn_identity \<Rightarrow> string \<Rightarrow> string \<Rightarrow> bool" where
  "mayDo check ident rel object \<longleftrightarrow>
     (\<exists>user. User (au_Subject ident) = Inr user \<and>
        (check user rel object = Inr True \<or>
         (\<exists>holder. HolderUser (au_Realm ident) (au_Subject ident) = Inr holder \<and> check holder rel object = Inr True)))"

lemma CheckAs_mayDo:
  assumes "User (au_Subject ident) = Inr user" "CheckAs check user (holderOf ident) rel object = Inr True"
  shows "mayDo check ident rel object"
  using assms by (auto simp: CheckAs_def mayDo_def holderOf_def split: sum.splits if_splits)

lemma Authorize_Inr:
  assumes "Authorize g auth check h route relations object = Inr c"
  shows "auth h = Inr (cl_Ident c)" "gd_Scoped g \<Longrightarrow> MayCall (cl_Ident c) route"
    "object = Some (cl_Object c)" "cl_Relation c \<in> set (relations (cl_Ident c))"
    "mayDo check (cl_Ident c) (cl_Relation c) (cl_Object c)"
    "User (au_Subject (cl_Ident c)) = Inr (cl_User c)" "cl_Holder c = holderOf (cl_Ident c)"
proof -
  obtain ident user target rel where a: "auth h = Inr ident" "User (au_Subject ident) = Inr user" "object = Some target"
    "gd_Scoped g \<longrightarrow> MayCall ident route"
    "firstHeld (\<lambda>rel. CheckAs check user (holderOf ident) rel target) (relations ident) = Inr rel"
    "c = \<lparr>cl_Ident = ident, cl_User = user, cl_Holder = holderOf ident, cl_Relation = rel, cl_Object = target\<rparr>"
    using assms by (auto simp: Authorize_def authenticate_def split: sum.splits if_splits option.splits)
  note f = firstHeld_Inr [OF a(5)]
  show "auth h = Inr (cl_Ident c)" "gd_Scoped g \<Longrightarrow> MayCall (cl_Ident c) route"
    "object = Some (cl_Object c)" "cl_Relation c \<in> set (relations (cl_Ident c))"
    "User (au_Subject (cl_Ident c)) = Inr (cl_User c)" "cl_Holder c = holderOf (cl_Ident c)"
    using a f by simp_all
  show "mayDo check (cl_Ident c) (cl_Relation c) (cl_Object c)"
    using CheckAs_mayDo [OF a(2) conjunct2 [OF f]] a(6) by simp
qed

subsection \<open>The authenticator's contract\<close>

text \<open>
  A service relies on one thing of the identity it is given: that its realm is a label and its
  subject is not empty. Then a caller with a usable subject always has a holder to be asked as.
\<close>

locale authenticator =
  fixes auth :: "string \<Rightarrow> 'f + authn_identity"
  assumes names_realm: "auth h = Inr ident \<Longrightarrow> holderRealm (au_Realm ident) \<and> au_Subject ident \<noteq> []"
begin

lemma caller_has_holder:
  assumes "Authorize g auth check h route relations object = Inr c"
  shows "HolderUser (au_Realm (cl_Ident c)) (au_Subject (cl_Ident c)) = Inr (cl_Holder c) \<and> cl_Holder c \<noteq> []"
proof -
  have "holderRealm (au_Realm (cl_Ident c))" using names_realm [OF Authorize_Inr(1) [OF assms]] by blast
  moreover obtain i where "encode (au_Subject (cl_Ident c)) = Inr i"
    using Authorize_Inr(6) [OF assms] by (auto simp: User_def split: sum.splits)
  ultimately have h: "HolderUser (au_Realm (cl_Ident c)) (au_Subject (cl_Ident c)) = Inr (''user:'' @ au_Realm (cl_Ident c) @ ''/'' @ i)"
    by (simp add: HolderUser_def)
  then show ?thesis using Authorize_Inr(7) [OF assms] by (simp add: holderOf_def)
qed

end

lemma realm_label_holder: "realm_label s = holderRealm s"
  by (simp add: realm_label_def holderRealm_def)

interpretation keycloak: authenticator "\<lambda>h. fst (FromRequest jo cfg fetch now h keys)" for jo cfg fetch now keys
proof
  fix h ident
  assume "fst (FromRequest jo cfg fetch now h keys) = Inr ident"
  then obtain raw keys' where v: "verify_token jo cfg fetch now raw (ac_Audience cfg) tokenAccess keys = (Inr ident, keys')"
    by (auto simp: FromRequest_def Verify_def split: if_splits) (metis prod.collapse)
  show "holderRealm (au_Realm ident) \<and> au_Subject ident \<noteq> []"
    using verify_token_Inr [OF v] by (auto simp: realm_label_holder)
qed

text \<open>An id given to a request is one the logs it ends up in can carry as it stands.\<close>

lemma hex_digit_alnum: "n < 16 \<Longrightarrow> is_alnum (hex_digit n)"
  by (simp add: hex_digit_def is_alnum_def is_digit_def is_lower_def is_upper_def less_eq_char_def)

lemma RequestID_inbound: "length random = 16 \<Longrightarrow> inboundID (RequestID random h)"
proof -
  have "list_all is_alnum (EncodeToString bs)" for bs
  proof (induction bs)
    case (Cons b bs)
    have "(of_char b :: nat) div 16 < 16" "(of_char b :: nat) mod 16 < 16"
      using nat_of_char_less_256 [of b] by linarith+
    then show ?case using Cons hex_digit_alnum by (simp add: EncodeToString_def Let_def)
  qed (simp add: EncodeToString_def)
  then have "list_all (\<lambda>x. is_alnum x \<or> x = CHR ''.'' \<or> x = CHR ''_'' \<or> x = CHR ''-'') (EncodeToString random)"
    by (simp add: list_all_iff)
  moreover have "length (EncodeToString bs) = 2 * length bs" for bs
    by (induction bs) (simp_all add: EncodeToString_def Let_def)
  moreover assume "length random = 16"
  ultimately show ?thesis by (simp add: RequestID_def inboundID_def)
qed

end
