(* ===== verification/Url_Paths.thy ===== *)
theory Url_Paths
  imports Go_Prelude
begin

section \<open>Paths of requests\<close>

text \<open>
  What the services use of \<open>net/url\<close> and \<open>net/http\<close> to read a path and to write one: the escaping of
  one path segment, a path cleaned of empty and dot segments, and a route pattern matched against a
  path segment by segment. A path is the escaped path of the request.
\<close>

subsection \<open>Segments\<close>

text \<open>\<open>url.PathEscape\<close>: a byte that may not stand in a segment becomes \<open>%XX\<close>.\<close>

definition inSegment :: "char \<Rightarrow> bool" where
  "inSegment x \<longleftrightarrow> is_alnum x \<or> x \<in> set ''-_.~$&+=:@''"

definition upperHex :: "nat \<Rightarrow> char" where
  "upperHex n = ''0123456789ABCDEF'' ! n"

fun PathEscape :: "string \<Rightarrow> string" where
  "PathEscape [] = []"
| "PathEscape (x # s) =
     (if inSegment x then x # PathEscape s
      else (let n = of_char x :: nat in CHR ''%'' # upperHex (n div 16) # upperHex (n mod 16) # PathEscape s))"

text \<open>\<open>url.PathUnescape\<close>.\<close>

fun PathUnescape :: "string \<Rightarrow> string option" where
  "PathUnescape [] = Some []"
| "PathUnescape (x # s) =
     (if x = CHR ''%'' then
        (case s of
           a # b # r \<Rightarrow>
             (case (hexValue a, hexValue b, PathUnescape r) of
                (Some p, Some q, Some t) \<Rightarrow> Some (char_of (p * 16 + q) # t)
              | _ \<Rightarrow> None)
         | _ \<Rightarrow> None)
      else map_option (Cons x) (PathUnescape s))"

text \<open>A segment as a router reads it: unescaped, or as it stands when it cannot be.\<close>

definition segment :: "string \<Rightarrow> string" where
  "segment s = (case PathUnescape s of Some u \<Rightarrow> u | None \<Rightarrow> s)"

subsection \<open>Routes\<close>

text \<open>\<open>path.Clean\<close> of a rooted path, on its segments.\<close>

fun cleaned :: "string list \<Rightarrow> string list \<Rightarrow> string list" where
  "cleaned done [] = rev done"
| "cleaned done (s # ss) =
     (if s = [] \<or> s = ''.'' then cleaned done ss
      else if s = ''..'' then cleaned (tl done) ss
      else cleaned (s # done) ss)"

text \<open>
  The segments of a path a \<open>ServeMux\<close> routes as it came. It redirects any other to its clean form,
  which keeps a trailing slash; a path with one has an empty last segment, which no pattern here has.
\<close>

definition routed :: "string \<Rightarrow> string list option" where
  "routed path =
     (case Split path (CHR ''/'') of
        [] # ss \<Rightarrow> if ss \<noteq> [] \<and> list_all (\<lambda>s. s \<noteq> [] \<and> s \<noteq> ''.'' \<and> s \<noteq> ''..'') ss then Some ss else None
      | _ \<Rightarrow> None)"

text \<open>A wildcard takes one segment; a literal is compared unescaped.\<close>

definition isWildcard :: "string \<Rightarrow> bool" where
  "isWildcard p \<longleftrightarrow> HasPrefix p ''{''"

fun matchSegments :: "string list \<Rightarrow> string list \<Rightarrow> (string, string) gomap option" where
  "matchSegments [] [] = Some []"
| "matchSegments (p # ps) (s # ss) =
     (if isWildcard p then
        (if segment s = ''/'' then None
         else map_option (Cons (butlast (tl p), segment s)) (matchSegments ps ss))
      else if segment s = p then matchSegments ps ss
      else None)"
| "matchSegments _ _ = None"

text \<open>A pattern of a method and a path; a pattern for \<open>GET\<close> takes \<open>HEAD\<close> as well.\<close>

definition matchPattern :: "string \<Rightarrow> string \<Rightarrow> string \<Rightarrow> (string, string) gomap option" where
  "matchPattern pattern meth path =
     (case Cut pattern (CHR '' '') of
        (m, p, _) \<Rightarrow>
          (if m = meth \<or> m = ''GET'' \<and> meth = ''HEAD'' then
             (case routed path of None \<Rightarrow> None | Some ss \<Rightarrow> matchSegments (tl (Split p (CHR ''/''))) ss)
           else None))"

text \<open>\<open>PathValue\<close>.\<close>

definition PathValue :: "(string, string) gomap \<Rightarrow> string \<Rightarrow> string" where
  "PathValue vars name = (case map_of vars name of None \<Rightarrow> [] | Some v \<Rightarrow> v)"

text \<open>The segments a router that cleans the path reads.\<close>

definition readSegments :: "string \<Rightarrow> string list" where
  "readSegments path = map segment (cleaned [] (Split path (CHR ''/'')))"

subsection \<open>Lemmas\<close>

lemma upperHex_table: "list_all (\<lambda>(x, n). hexValue x = Some n \<and> inSegment x) (zip ''0123456789ABCDEF'' [0, 1, 2, 3, 4, 5, 6, 7, 8, 9, 10, 11, 12, 13, 14, 15])"
  by code_simp

lemma upperHex_digit:
  assumes "n < 16"
  shows "hexValue (upperHex n) = Some n" "inSegment (upperHex n)"
proof -
  have "n \<in> {0, 1, 2, 3, 4, 5, 6, 7, 8, 9, 10, 11, 12, 13, 14, 15}" using assms by (simp only: insert_iff empty_iff) arith
  then show "hexValue (upperHex n) = Some n" "inSegment (upperHex n)"
    using upperHex_table by (auto simp: upperHex_def)
qed

lemma percent_not_inSegment: "\<not> inSegment CHR ''%''"
  by code_simp

lemma PathUnescape_PathEscape [simp]: "PathUnescape (PathEscape s) = Some s"
proof (induction s)
  case (Cons x s)
  have "(of_char x :: nat) div 16 < 16" "(of_char x :: nat) mod 16 < 16"
    using nat_of_char_less_256 [of x] by linarith+
  then show ?case using Cons percent_not_inSegment
    by (auto simp: Let_def upperHex_digit)
qed simp

lemma segment_PathEscape [simp]: "segment (PathEscape s) = s"
  by (simp add: segment_def)

lemma PathEscape_chars: "x \<in> set (PathEscape s) \<Longrightarrow> inSegment x \<or> x = CHR ''%''"
proof (induction s)
  case (Cons y s)
  have "(of_char y :: nat) div 16 < 16" "(of_char y :: nat) mod 16 < 16"
    using nat_of_char_less_256 [of y] by linarith+
  note d = this [THEN upperHex_digit(2)]
  show ?case using Cons d by (cases "inSegment y") (auto simp: Let_def)
qed simp

lemma not_inSegment: "\<not> inSegment CHR ''/''" "\<not> inSegment CHR ''?''" "\<not> inSegment CHR ''#''"
  by code_simp+

lemma PathEscape_no_slash: "CHR ''/'' \<notin> set (PathEscape s)" "CHR ''?'' \<notin> set (PathEscape s)" "CHR ''#'' \<notin> set (PathEscape s)"
  using PathEscape_chars [of "CHR ''/''" s] PathEscape_chars [of "CHR ''?''" s] PathEscape_chars [of "CHR ''#''" s] not_inSegment
  by blast+

lemma PathEscape_plain: "list_all inSegment s \<Longrightarrow> PathEscape s = s"
  by (induction s) auto

lemma PathEscape_Nil [simp]: "PathEscape s = [] \<longleftrightarrow> s = []"
  by (cases s) (auto simp: Let_def)

lemma segment_plain: "list_all inSegment s \<Longrightarrow> segment s = s"
  using segment_PathEscape [of s] by (simp add: PathEscape_plain)

lemma cleaned_append: "list_all (\<lambda>s. s \<noteq> [] \<and> s \<noteq> ''.'' \<and> s \<noteq> ''..'') ss \<Longrightarrow> cleaned done (ss @ r) = cleaned (rev ss @ done) r"
  by (induction ss arbitrary: "done") auto

end
