(* ===== verification/Usher.thy ===== *)
theory Usher
  imports Guard Url_Paths
begin

section \<open>What a signed-in person may be told\<close>

text \<open>
  \<open>internal/usher\<close>, with the reads of \<open>internal/director/lifecycle\<close> it makes and the format of
  \<open>internal/tilecatalogue\<close>. The usher changes nothing: a request is answered with a response and the
  questions put to the operator's listener on the way, each a path and a query. What the operator
  answers, the mounted tile file, the JSON and YAML decoders, the authenticator and the
  authorization store are arguments.
\<close>

subsection \<open>The tile catalogue\<close>

record tile =
  tl_Name :: string
  tl_DisplayName :: string
  tl_DisplayNames :: "(string, string) gomap"
  tl_Description :: string
  tl_Icon :: string
  tl_URL :: string
  tl_Object :: string
  tl_AnyOf :: "string list"
  tl_Preopen :: bool

record app_store =
  as_Offered :: bool
  as_Reason :: string

record tile_catalogue =
  ct_Tiles :: "tile list"
  ct_AppStore :: "app_store option"

definition AppStoreReasonNoUsageStatistics :: string where
  "AppStoreReasonNoUsageStatistics = ''usage-statistics-disabled''"

definition AppStoreReasonNoStore :: string where
  "AppStoreReasonNoStore = ''no-store-configured''"

definition ParseTiles :: "(string \<Rightarrow> tile_catalogue option) \<Rightarrow> string \<Rightarrow> tile_catalogue option" where
  "ParseTiles unmarshal data =
     (case unmarshal data of
        None \<Rightarrow> None
      | Some c \<Rightarrow>
          Some \<lparr>ct_Tiles = filter (\<lambda>t. \<not> (tl_Name t = [] \<or> tl_URL t = [] \<or> tl_Object t = [] \<or> tl_AnyOf t = [])) (ct_Tiles c),
                ct_AppStore = ct_AppStore c\<rparr>)"

definition TileURL :: "string \<Rightarrow> string \<Rightarrow> string" where
  "TileURL host path = ''https://'' @ host @ (if HasPrefix path ''/'' then path else ''/'' @ path)"

subsection \<open>The operator's listener\<close>

type_synonym query = "(string, string) gomap"

record ('x, 'p, 'j) operator =
  op_Get :: "string \<Rightarrow> query \<Rightarrow> 'x + nat \<times> string"
  op_detail :: "string \<Rightarrow> string option"
  op_plans :: "string \<Rightarrow> 'p list option"
  op_states :: "string \<Rightarrow> ('j list option \<times> 'j list option) option"

definition refusedByOperator :: "nat \<Rightarrow> string \<Rightarrow> nat \<times> string" where
  "refusedByOperator status body =
     (if status \<noteq> 401 then (status, body)
      else (502, ''{\"detail\":\"the operator refused the usher's token for its app-lifecycle API; it presented none, or one the API server does not vouch for\"}''))"

definition lifecycle_Get :: "('x, 'p, 'j) operator \<Rightarrow> string \<Rightarrow> query \<Rightarrow> 'x + nat \<times> string" where
  "lifecycle_Get op path q =
     (case op_Get op path q of Inl e \<Rightarrow> Inl e | Inr (status, body) \<Rightarrow> Inr (refusedByOperator status body))"

definition ErrorMessage :: "('x, 'p, 'j) operator \<Rightarrow> string \<Rightarrow> string" where
  "ErrorMessage op body =
     (case op_detail op body of Some d \<Rightarrow> if d \<noteq> [] then d else TrimSpace body | None \<Rightarrow> TrimSpace body)"

text \<open>A person's error is an answer that was not 200, or that nothing usable came.\<close>

datatype 'x plans_err = Upstream nat string | Unreachable 'x | Undecodable

definition plansPath :: "string \<Rightarrow> string" where
  "plansPath tenant = ''/v1/tenants/'' @ PathEscape tenant @ ''/resources/plans''"

definition Plans :: "('x, 'p, 'j) operator \<Rightarrow> string \<Rightarrow> 'x plans_err + 'p list" where
  "Plans op tenant =
     (case lifecycle_Get op (plansPath tenant) [] of
        Inl e \<Rightarrow> Inl (Unreachable e)
      | Inr (status, body) \<Rightarrow>
          (if status \<noteq> 200 then Inl (Upstream status (ErrorMessage op body))
           else case op_plans op body of None \<Rightarrow> Inl Undecodable | Some ps \<Rightarrow> Inr ps))"

subsection \<open>Responses\<close>

record tile_out =
  to_Name :: string
  to_DisplayName :: string
  to_DisplayNames :: "(string, string) gomap"
  to_Description :: string
  to_URL :: string
  to_Icon :: string
  to_Preopen :: bool

record app_store_out =
  ao_Available :: bool
  ao_Reason :: string

datatype ('p, 'j) usher_body =
    NoBody
  | ErrorBody string string
  | Relayed string
  | TilesBody string "tile_out list" app_store_out
  | PlansBody string "'p list"
  | StatesBody string "'j list" "'j list"

record ('p, 'j) response =
  rs_Code :: nat
  rs_Headers :: "(string \<times> string) list"
  rs_Body :: "('p, 'j) usher_body"

definition jsonHeaders :: "(string \<times> string) list" where
  "jsonHeaders = [(''Content-Type'', ''application/json''), (''Cache-Control'', ''no-store'')]"

definition writeJSON :: "nat \<Rightarrow> ('p, 'j) usher_body \<Rightarrow> ('p, 'j) response" where
  "writeJSON code body = \<lparr>rs_Code = code, rs_Headers = jsonHeaders, rs_Body = body\<rparr>"

definition fail :: "string \<Rightarrow> nat \<Rightarrow> string \<Rightarrow> ('p, 'j) response" where
  "fail rid code message = writeJSON code (ErrorBody message rid)"

definition unreachable :: "string \<Rightarrow> ('p, 'j) response" where
  "unreachable rid = fail rid 502 ''the operator's API did not answer''"

subsection \<open>Handlers\<close>

record usher_config =
  us_Cluster :: string
  us_Lifecycle :: bool
  us_UsageStatisticsEnabled :: bool

record usher_request =
  rq_Method :: string
  rq_Path :: string
  rq_Query :: "(string, string list) gomap"
  rq_Authorization :: string
  rq_RequestID :: string

record call =
  ca_user :: string
  ca_holder :: string
  ca_tenant :: string

datatype handler =
    tenantTiles
  | relay string "string list"
  | relayCluster string
  | appResidue
  | resourcePlans
  | tenantBackup
  | tenantRestore
  | tenantExtensionObjects
  | clusterExtensionObjects
  | clusterResources
  | clusterResourceReport

definition tenantPath :: "string \<Rightarrow> string \<Rightarrow> string" where
  "tenantPath tenant below = ''/v1/tenants/'' @ PathEscape tenant @ below"

text \<open>\<open>url.Values.Get\<close>, and of the query only the parameters named.\<close>

definition queryGet :: "(string, string list) gomap \<Rightarrow> string \<Rightarrow> string" where
  "queryGet q name = (case map_of q name of Some (v # _) \<Rightarrow> v | _ \<Rightarrow> [])"

definition allowedQuery :: "(string, string list) gomap \<Rightarrow> string list \<Rightarrow> query" where
  "allowedQuery q allowed =
     fold (\<lambda>name out. if queryGet q name \<noteq> [] then AList.update name (queryGet q name) out else out) allowed []"

definition relayed ::
  "('x, 'p, 'j) operator \<Rightarrow> string \<Rightarrow> (string, string list) gomap \<Rightarrow> string \<Rightarrow> string list \<Rightarrow>
   ('p, 'j) response \<times> (string \<times> query) list" where
  "relayed op rid q path allowed =
     (let query = allowedQuery q allowed in
      ((case lifecycle_Get op path query of
          Inl e \<Rightarrow> unreachable rid
        | Inr (status, body) \<Rightarrow> \<lparr>rs_Code = status, rs_Headers = jsonHeaders, rs_Body = Relayed body\<rparr>),
       [(path, query)]))"

text \<open>The patterns of an add-on type's group and resource.\<close>

definition extensionGroup :: "string \<Rightarrow> bool" where
  "extensionGroup s \<longleftrightarrow> s \<noteq> [] \<and> length s \<le> 253 \<and> dns_char (hd s) \<and> dns_char (last s) \<and>
     list_all (\<lambda>x. dns_char x \<or> x = CHR ''.'' \<or> x = CHR ''-'') s"

definition extensionResource :: "string \<Rightarrow> bool" where
  "extensionResource s \<longleftrightarrow> dns_label 63 s"

definition extensionPath :: "(string, string) gomap \<Rightarrow> string \<Rightarrow> string option" where
  "extensionPath vars pre =
     (let group = PathValue vars ''group''; resource = PathValue vars ''resource'' in
      if \<not> extensionGroup group \<or> \<not> extensionResource resource then None
      else Some (pre @ ''/extensions/'' @ PathEscape group @ ''/'' @ PathEscape resource))"

definition inTenant :: "string \<Rightarrow> string \<Rightarrow> bool" where
  "inTenant object tenant =
     (if HasPrefix object ''tenant:'' then object = ''tenant:'' @ tenant
      else if HasPrefix object ''app:'' then HasPrefix object (''app:'' @ tenant @ ''/'')
      else if HasPrefix object ''cluster:'' then True
      else False)"

definition tileOut :: "tile \<Rightarrow> tile_out" where
  "tileOut t = \<lparr>to_Name = tl_Name t, to_DisplayName = tl_DisplayName t, to_DisplayNames = tl_DisplayNames t,
     to_Description = tl_Description t, to_URL = tl_URL t, to_Icon = tl_Icon t, to_Preopen = tl_Preopen t\<rparr>"

text \<open>The relations of one tile, asked in order until one is held; an error ends the answer.\<close>

fun tileShown :: "(string \<Rightarrow> 'e + bool) \<Rightarrow> string list \<Rightarrow> 'e + bool" where
  "tileShown ask [] = Inr False"
| "tileShown ask (rel # rels) =
     (case ask rel of Inl e \<Rightarrow> Inl e | Inr True \<Rightarrow> Inr True | Inr False \<Rightarrow> tileShown ask rels)"

fun shownTiles :: "(string \<Rightarrow> string \<Rightarrow> 'e + bool) \<Rightarrow> string \<Rightarrow> tile list \<Rightarrow> 'e + tile_out list" where
  "shownTiles ask tenant [] = Inr []"
| "shownTiles ask tenant (t # ts) =
     (if \<not> inTenant (tl_Object t) tenant then shownTiles ask tenant ts
      else
        (case tileShown (\<lambda>rel. ask rel (tl_Object t)) (tl_AnyOf t) of
           Inl e \<Rightarrow> Inl e
         | Inr shown \<Rightarrow>
             (case shownTiles ask tenant ts of
                Inl e \<Rightarrow> Inl e
              | Inr out \<Rightarrow> Inr (if shown then tileOut t # out else out))))"

definition appStore :: "usher_config \<Rightarrow> app_store option \<Rightarrow> app_store_out" where
  "appStore cfg offer =
     (if \<not> us_UsageStatisticsEnabled cfg then \<lparr>ao_Available = False, ao_Reason = AppStoreReasonNoUsageStatistics\<rparr>
      else
        (case offer of
           None \<Rightarrow> \<lparr>ao_Available = False, ao_Reason = AppStoreReasonNoStore\<rparr>
         | Some o' \<Rightarrow>
             (if \<not> as_Offered o' then
                \<lparr>ao_Available = False, ao_Reason = (if as_Reason o' = [] then AppStoreReasonNoStore else as_Reason o')\<rparr>
              else \<lparr>ao_Available = True, ao_Reason = []\<rparr>)))"

text \<open>\<open>catalogue\<close> is what was read and parsed of the mounted file, if it could be.\<close>

definition serveTiles ::
  "usher_config \<Rightarrow> tile_catalogue option \<Rightarrow> (string \<Rightarrow> string \<Rightarrow> string \<Rightarrow> 'e + bool) \<Rightarrow> string \<Rightarrow> call \<Rightarrow> ('p, 'j) response" where
  "serveTiles cfg catalogue check rid c =
     (case catalogue of
        None \<Rightarrow> fail rid 503 ''the tile catalog cannot be read''
      | Some cat \<Rightarrow>
          (case shownTiles (CheckAs check (ca_user c) (ca_holder c)) (ca_tenant c) (ct_Tiles cat) of
             Inl e \<Rightarrow> fail rid 503 ''authorization unavailable''
           | Inr out \<Rightarrow> writeJSON 200 (TilesBody (ca_tenant c) out (appStore cfg (ct_AppStore cat)))))"

definition serveStates :: "usher_config \<Rightarrow> ('x, 'p, 'j) operator \<Rightarrow> string \<Rightarrow> ('p, 'j) response \<times> (string \<times> query) list" where
  "serveStates cfg op rid =
     ((case lifecycle_Get op ''/v1/resources'' [] of
         Inl e \<Rightarrow> unreachable rid
       | Inr (status, body) \<Rightarrow>
           (case (if status = 200 then op_states op body else None) of
              None \<Rightarrow> fail rid (if status = 200 then 502 else status) (ErrorMessage op body)
            | Some (tenants, unavailable) \<Rightarrow>
                writeJSON 200 (StatesBody (us_Cluster cfg)
                  (case tenants of None \<Rightarrow> [] | Some ts \<Rightarrow> ts) (case unavailable of None \<Rightarrow> [] | Some us \<Rightarrow> us)))),
      [(''/v1/resources'', [])])"

definition servePlans :: "('x, 'p, 'j) operator \<Rightarrow> string \<Rightarrow> string \<Rightarrow> ('p, 'j) response \<times> (string \<times> query) list" where
  "servePlans op rid tenant =
     ((case Plans op tenant of
         Inl (Upstream status message) \<Rightarrow> fail rid status message
       | Inl _ \<Rightarrow> unreachable rid
       | Inr plans \<Rightarrow> writeJSON 200 (PlansBody tenant plans)),
      [(plansPath tenant, [])])"

definition handle ::
  "usher_config \<Rightarrow> tile_catalogue option \<Rightarrow> ('x, 'p, 'j) operator \<Rightarrow> (string \<Rightarrow> string \<Rightarrow> string \<Rightarrow> 'e + bool) \<Rightarrow> string \<Rightarrow>
   usher_request \<Rightarrow> (string, string) gomap \<Rightarrow> call \<Rightarrow> handler \<Rightarrow> ('p, 'j) response \<times> (string \<times> query) list" where
  "handle cfg catalogue op check rid r vars c h =
     (let pass = relayed op rid (rq_Query r) in
      case h of
        tenantTiles \<Rightarrow> (serveTiles cfg catalogue check rid c, [])
      | relay below allowed \<Rightarrow> pass (tenantPath (ca_tenant c) below) allowed
      | relayCluster path \<Rightarrow> pass path []
      | appResidue \<Rightarrow> pass (tenantPath (ca_tenant c) (''/apps/'' @ PathEscape (PathValue vars ''p'') @ ''/residue'')) []
      | resourcePlans \<Rightarrow> servePlans op rid (ca_tenant c)
      | tenantBackup \<Rightarrow> pass (tenantPath (ca_tenant c) (''/backups/'' @ PathEscape (PathValue vars ''name''))) []
      | tenantRestore \<Rightarrow> pass (tenantPath (ca_tenant c) (''/restores/'' @ PathEscape (PathValue vars ''name''))) []
      | tenantExtensionObjects \<Rightarrow>
          (case extensionPath vars (tenantPath (ca_tenant c) []) of
             None \<Rightarrow> (fail rid 400 ''invalid name'', [])
           | Some path \<Rightarrow> pass path [])
      | clusterExtensionObjects \<Rightarrow>
          (case extensionPath vars ''/v1'' of
             None \<Rightarrow> (fail rid 400 ''invalid name'', [])
           | Some path \<Rightarrow> pass path [])
      | clusterResources \<Rightarrow> serveStates cfg op rid
      | clusterResourceReport \<Rightarrow> pass ''/v1/resources/report'' [''from'', ''to''])"

subsection \<open>Routes\<close>

datatype route_object = tenantObject | clusterObject

record usher_route =
  ro_Pattern :: string
  ro_Relations :: "string list"
  ro_Object :: route_object
  ro_Handler :: handler

definition objectOf :: "usher_config \<Rightarrow> (string, string) gomap \<Rightarrow> route_object \<Rightarrow> string option" where
  "objectOf cfg vars obj =
     (case obj of
        tenantObject \<Rightarrow>
          (let t = PathValue vars ''t'' in if \<not> ValidTenantName t then None else Some (Tenant t))
      | clusterObject \<Rightarrow>
          (let c = PathValue vars ''c'' in if c = [] \<or> c \<noteq> us_Cluster cfg then None else Some (Cluster (us_Cluster cfg))))"

definition guarded :: "string \<Rightarrow> string \<Rightarrow> route_object \<Rightarrow> handler \<Rightarrow> usher_route" where
  "guarded pattern relation obj h = \<lparr>ro_Pattern = pattern, ro_Relations = [relation], ro_Object = obj, ro_Handler = h\<rparr>"

definition tenantStateRoutes :: "usher_route list" where
  "tenantStateRoutes =
     [guarded ''GET /v1/tenants/{t}/apps/status'' ''can_view'' tenantObject (relay ''/apps/status'' []),
      guarded ''GET /v1/tenants/{t}/apps/retained'' ''can_view'' tenantObject (relay ''/apps/retained'' []),
      guarded ''GET /v1/tenants/{t}/apps/{p}/residue'' ''can_view'' tenantObject appResidue,
      guarded ''GET /v1/tenants/{t}/resources'' ''can_view'' tenantObject (relay ''/resources'' []),
      guarded ''GET /v1/tenants/{t}/resources/plans'' ''can_view'' tenantObject resourcePlans,
      guarded ''GET /v1/tenants/{t}/resources/usage'' ''can_view'' tenantObject (relay ''/resources/usage'' [''from'', ''to'', ''stepSeconds'']),
      guarded ''GET /v1/tenants/{t}/perimeter/traffic'' ''can_expose'' tenantObject (relay ''/perimeter/traffic'' [''from'', ''to'', ''stepSeconds'']),
      guarded ''GET /v1/tenants/{t}/resources/report'' ''can_view'' tenantObject (relay ''/resources/report'' [''from'', ''to'']),
      guarded ''GET /v1/tenants/{t}/backups'' ''can_view'' tenantObject (relay ''/backups'' []),
      guarded ''GET /v1/tenants/{t}/backups/{name}'' ''can_view'' tenantObject tenantBackup,
      guarded ''GET /v1/tenants/{t}/backup-policy'' ''can_view'' tenantObject (relay ''/backup-policy'' []),
      guarded ''GET /v1/tenants/{t}/restores/{name}'' ''can_view'' tenantObject tenantRestore,
      guarded ''GET /v1/tenants/{t}/extensions/{group}/{resource}'' ''can_view'' tenantObject tenantExtensionObjects,
      guarded ''GET /v1/tenants/{t}/integrations'' ''can_view'' tenantObject (relay ''/integrations'' []),
      guarded ''GET /v1/tenants/{t}/notifications'' ''can_view'' tenantObject (relay ''/notifications'' [])]"

definition clusterStateRoutes :: "usher_route list" where
  "clusterStateRoutes =
     [guarded ''GET /v1/clusters/{c}/resources'' ''can_audit'' clusterObject clusterResources,
      guarded ''GET /v1/clusters/{c}/resources/report'' ''can_audit'' clusterObject clusterResourceReport,
      guarded ''GET /v1/clusters/{c}/backup-policy'' ''can_audit'' clusterObject (relayCluster ''/v1/backup-policy''),
      guarded ''GET /v1/clusters/{c}/extensions/{group}/{resource}'' ''can_audit'' clusterObject clusterExtensionObjects,
      guarded ''GET /v1/clusters/{c}/platform-security'' ''can_audit'' clusterObject (relayCluster ''/v1/platform-security''),
      guarded ''GET /v1/clusters/{c}/customizations'' ''can_audit'' clusterObject (relayCluster ''/v1/customizations''),
      guarded ''GET /v1/clusters/{c}/usage-statistics'' ''can_audit'' clusterObject (relayCluster ''/v1/usage-statistics''),
      guarded ''GET /v1/clusters/{c}/catalogue/residue'' ''can_audit'' clusterObject (relayCluster ''/v1/catalogue/residue''),
      \<lparr>ro_Pattern = ''GET /v1/clusters/{c}/approvals'', ro_Relations = [''can_approve'', ''can_approve_perimeter'', ''can_configure''],
       ro_Object = clusterObject, ro_Handler = relayCluster ''/v1/approvals''\<rparr>]"

definition stateRoutes :: "usher_config \<Rightarrow> usher_route list" where
  "stateRoutes cfg = tenantStateRoutes @ (if us_Cluster cfg \<noteq> [] then clusterStateRoutes else [])"

definition usherRoutes :: "usher_config \<Rightarrow> usher_route list" where
  "usherRoutes cfg =
     guarded ''GET /v1/tenants/{t}/tiles'' ''can_enter'' tenantObject tenantTiles #
     (if us_Lifecycle cfg then stateRoutes cfg else [])"

definition gate :: guard where
  "gate = \<lparr>gd_Realm = ''gentian-usher'', gd_Scoped = True\<rparr>"

definition guardedAny ::
  "usher_config \<Rightarrow> tile_catalogue option \<Rightarrow> ('x, 'p, 'j) operator \<Rightarrow> (string \<Rightarrow> 'f + authn_identity) \<Rightarrow>
   (string \<Rightarrow> string \<Rightarrow> string \<Rightarrow> 'e + bool) \<Rightarrow> string \<Rightarrow> usher_request \<Rightarrow> (string, string) gomap \<Rightarrow> usher_route \<Rightarrow>
   ('p, 'j) response \<times> (string \<times> query) list" where
  "guardedAny cfg catalogue op auth check rid r vars ro =
     (case Authorize gate auth check (rq_Authorization r) (ro_Pattern ro) (\<lambda>_. ro_Relations ro) (objectOf cfg vars (ro_Object ro)) of
        Inl rf \<Rightarrow>
          (let out = fail rid (rf_Code rf) (rf_Message rf) in
           (case rf_Challenge rf of
              None \<Rightarrow> out
            | Some ch \<Rightarrow> out\<lparr>rs_Headers := (''WWW-Authenticate'', ch) # rs_Headers out\<rparr>, []))
      | Inr c \<Rightarrow>
          handle cfg catalogue op check rid r vars
            \<lparr>ca_user = cl_User c, ca_holder = cl_Holder c, ca_tenant = PathValue vars ''t''\<rparr> (ro_Handler ro))"

text \<open>
  The whole server. \<open>None\<close> is an answer of the router itself: nothing is registered for the path and the
  method, or the path is redirected to its clean form. The request's id is answered as well.
\<close>

fun routeFor :: "usher_route list \<Rightarrow> usher_request \<Rightarrow> (usher_route \<times> (string, string) gomap) option" where
  "routeFor [] r = None"
| "routeFor (ro # ros) r =
     (case matchPattern (ro_Pattern ro) (rq_Method r) (rq_Path r) of
        Some vars \<Rightarrow> Some (ro, vars)
      | None \<Rightarrow> routeFor ros r)"

definition serve ::
  "usher_config \<Rightarrow> tile_catalogue option \<Rightarrow> ('x, 'p, 'j) operator \<Rightarrow> (string \<Rightarrow> 'f + authn_identity) \<Rightarrow>
   (string \<Rightarrow> string \<Rightarrow> string \<Rightarrow> 'e + bool) \<Rightarrow> string \<Rightarrow> usher_request \<Rightarrow>
   string \<times> ('p, 'j) response option \<times> (string \<times> query) list" where
  "serve cfg catalogue op auth check random r =
     (let rid = RequestID random (rq_RequestID r) in
      if matchPattern ''GET /healthz'' (rq_Method r) (rq_Path r) \<noteq> None then
        (rid, Some \<lparr>rs_Code = 204, rs_Headers = [], rs_Body = NoBody\<rparr>, [])
      else
        (case routeFor (usherRoutes cfg) r of
           None \<Rightarrow> (rid, None, [])
         | Some (ro, vars) \<Rightarrow>
             (case guardedAny cfg catalogue op auth check rid r vars ro of
                (out, asked) \<Rightarrow> (rid, Some out, asked))))"

subsection \<open>The route tables\<close>

text \<open>What the tables keep to: who may ask, and which path is asked of the operator.\<close>

definition plainBelow :: "string \<Rightarrow> bool" where
  "plainBelow below \<longleftrightarrow> HasPrefix below ''/'' \<and>
     list_all (\<lambda>s. s \<noteq> [] \<and> s \<noteq> ''.'' \<and> s \<noteq> ''..'' \<and> list_all inSegment s) (tl (Split below (CHR ''/'')))"

definition windowQuery :: "string list \<Rightarrow> bool" where
  "windowQuery allowed \<longleftrightarrow> list_all (\<lambda>n. n \<in> set [''from'', ''to'', ''stepSeconds'']) allowed"

definition readsTenant :: "usher_route \<Rightarrow> bool" where
  "readsTenant ro \<longleftrightarrow> ro_Object ro = tenantObject \<and> map_of delegatedRoutes (ro_Pattern ro) = None \<and>
     list_all (\<lambda>rel. rel \<in> set [''can_view'', ''can_expose'']) (ro_Relations ro) \<and>
     (case ro_Handler ro of
        relay below allowed \<Rightarrow> plainBelow below \<and> windowQuery allowed
      | appResidue \<Rightarrow> True | resourcePlans \<Rightarrow> True | tenantBackup \<Rightarrow> True | tenantRestore \<Rightarrow> True
      | tenantExtensionObjects \<Rightarrow> True | _ \<Rightarrow> False)"

definition readsCluster :: "usher_route \<Rightarrow> bool" where
  "readsCluster ro \<longleftrightarrow> ro_Object ro = clusterObject \<and>
     list_all (\<lambda>rel. rel \<in> set [''can_audit'', ''can_approve'', ''can_approve_perimeter'', ''can_configure'']) (ro_Relations ro) \<and>
     (case ro_Handler ro of
        relayCluster path \<Rightarrow> map_of delegatedRoutes (ro_Pattern ro) = None \<and>
          HasPrefix path ''/v1'' \<and> plainBelow path \<and> take 2 (readSegments path) \<noteq> [''v1'', ''tenants'']
      | clusterExtensionObjects \<Rightarrow> map_of delegatedRoutes (ro_Pattern ro) = None
      | clusterResources \<Rightarrow> True | clusterResourceReport \<Rightarrow> True | _ \<Rightarrow> False)"

lemma tenantStateRoutes_read: "list_all readsTenant tenantStateRoutes"
  by code_simp

lemma clusterStateRoutes_read: "list_all readsCluster clusterStateRoutes"
  by code_simp

lemma readsTenantD:
  assumes "readsTenant ro"
  shows "map_of delegatedRoutes (ro_Pattern ro) = None" "rel \<in> set (ro_Relations ro) \<Longrightarrow> rel \<in> {''can_view'', ''can_expose''}"
  using assms unfolding readsTenant_def list_all_iff list.set by blast+

lemma readsClusterD:
  assumes "readsCluster ro" "rel \<in> set (ro_Relations ro)"
  shows "rel \<in> {''can_audit'', ''can_approve'', ''can_approve_perimeter'', ''can_configure''}"
  using assms unfolding readsCluster_def list_all_iff list.set by blast

lemma undelegated: "MayCall ident pattern \<Longrightarrow> map_of delegatedRoutes pattern = None \<Longrightarrow> \<not> Delegated ident"
  by (auto simp: MayCall_def)

lemma routeFor_Some: "routeFor ros r = Some (ro, vars) \<Longrightarrow> ro \<in> set ros \<and> matchPattern (ro_Pattern ro) (rq_Method r) (rq_Path r) = Some vars"
  by (induction ros r rule: routeFor.induct) (auto split: option.splits)

lemma usherRoutes_cases:
  assumes "ro \<in> set (usherRoutes cfg)"
  shows "ro_Handler ro = tenantTiles \<or> readsTenant ro \<or> us_Cluster cfg \<noteq> [] \<and> readsCluster ro"
  using assms tenantStateRoutes_read clusterStateRoutes_read
  by (auto simp: usherRoutes_def stateRoutes_def guarded_def list_all_iff split: if_splits)

text \<open>The order of registration does not matter: no path has two routes.\<close>

fun apartSegments :: "string list \<Rightarrow> string list \<Rightarrow> bool" where
  "apartSegments (p # ps) (q # qs) \<longleftrightarrow> \<not> isWildcard p \<and> \<not> isWildcard q \<and> p \<noteq> q \<or> apartSegments ps qs"
| "apartSegments [] [] \<longleftrightarrow> False"
| "apartSegments _ _ \<longleftrightarrow> True"

definition patternSegments :: "string \<Rightarrow> string list" where
  "patternSegments pattern = tl (Split (fst (snd (Cut pattern (CHR '' '')))) (CHR ''/''))"

fun apartPatterns :: "string list \<Rightarrow> bool" where
  "apartPatterns [] \<longleftrightarrow> True"
| "apartPatterns (p # ps) \<longleftrightarrow> list_all (\<lambda>q. apartSegments (patternSegments p) (patternSegments q)) ps \<and> apartPatterns ps"

lemma usher_patterns_apart:
  "apartPatterns (''GET /healthz'' # map ro_Pattern (usherRoutes \<lparr>us_Cluster = ''c'', us_Lifecycle = True, us_UsageStatisticsEnabled = True\<rparr>))"
  by code_simp

lemma apartSegments_match: "apartSegments ps qs \<Longrightarrow> matchSegments ps ss \<noteq> None \<Longrightarrow> matchSegments qs ss = None"
  by (induction ps qs arbitrary: ss rule: apartSegments.induct; case_tac ss) (auto split: if_splits)

subsection \<open>Paths asked of the operator\<close>

definition plainPath :: "string \<Rightarrow> bool" where
  "plainPath path \<longleftrightarrow> CHR ''?'' \<notin> set path \<and> CHR ''#'' \<notin> set path"

lemma ValidTenantName_segment:
  assumes "ValidTenantName t"
  shows "list_all inSegment t" "t \<noteq> []" "t \<noteq> ''.''" "t \<noteq> ''..''"
proof -
  have d: "inSegment x" if "dns_char x \<or> x = CHR ''-''" for x
    using that by (auto simp: dns_char_def inSegment_def is_alnum_def)
  show "list_all inSegment t" using assms d by (auto simp: ValidTenantName_def dns_label_def list_all_iff)
  have "\<not> dns_char CHR ''.''" by code_simp
  then show "t \<noteq> []" "t \<noteq> ''.''" "t \<noteq> ''..''" using assms by (auto simp: ValidTenantName_def dns_label_def)
qed

lemma no_slash: "list_all inSegment s \<Longrightarrow> CHR ''/'' \<notin> set s \<and> CHR ''?'' \<notin> set s \<and> CHR ''#'' \<notin> set s"
  using not_inSegment by (auto simp: list_all_iff)

lemma Split_tenantPath:
  assumes "ValidTenantName t"
  shows "Split (tenantPath t (CHR ''/'' # below)) (CHR ''/'') = [[], ''v1'', ''tenants'', t] @ Split below (CHR ''/'')"
    "tenantPath t (CHR ''/'' # below) = ''/v1/tenants/'' @ t @ CHR ''/'' # below"
proof -
  note v = ValidTenantName_segment [OF assms]
  show p: "tenantPath t (CHR ''/'' # below) = ''/v1/tenants/'' @ t @ CHR ''/'' # below"
    by (simp add: tenantPath_def PathEscape_plain [OF v(1)])
  have "Split (t @ CHR ''/'' # below) (CHR ''/'') = t # Split below (CHR ''/'')"
    using no_slash [OF v(1)] by (simp add: Split_append Split_no_sep)
  then show "Split (tenantPath t (CHR ''/'' # below)) (CHR ''/'') = [[], ''v1'', ''tenants'', t] @ Split below (CHR ''/'')"
    by (simp add: p)
qed

lemma plainPath_tenantPath:
  assumes "ValidTenantName t" "plainPath below"
  shows "plainPath (tenantPath t (CHR ''/'' # below))"
  using no_slash [OF ValidTenantName_segment(1) [OF assms(1)]] assms(2)
  by (auto simp: Split_tenantPath(2) [OF assms(1)] plainPath_def)

text \<open>Below the tenant, at most one segment is the caller's, behind one that is not: a dot segment in it stays inside.\<close>

lemma readSegments_tenantPath:
  assumes "ValidTenantName t"
  shows "readSegments (tenantPath t (CHR ''/'' # below)) = map segment (cleaned [t, ''tenants'', ''v1''] (Split below (CHR ''/'')))"
  using ValidTenantName_segment [OF assms] by (simp add: readSegments_def Split_tenantPath(1) [OF assms])

lemma map_segment_tenant:
  assumes "ValidTenantName t"
  shows "take 3 (map segment (''v1'' # ''tenants'' # t # r)) = [''v1'', ''tenants'', t]"
proof -
  have "segment ''v1'' = ''v1''" "segment ''tenants'' = ''tenants''" by code_simp+
  then show ?thesis using segment_plain [OF ValidTenantName_segment(1) [OF assms]] by simp
qed

lemma tenantPath_confined:
  assumes "ValidTenantName t" "Split below (CHR ''/'') = as @ x # bs" "as \<noteq> []"
    and "list_all (\<lambda>s. s \<noteq> [] \<and> s \<noteq> ''.'' \<and> s \<noteq> ''..'') (as @ bs)"
  shows "take 3 (readSegments (tenantPath t (CHR ''/'' # below))) = [''v1'', ''tenants'', t]"
proof -
  obtain r where "cleaned (rev as @ [t, ''tenants'', ''v1'']) (x # bs) = ''v1'' # ''tenants'' # t # r"
  proof (cases "x = ''..''")
    case True
    obtain a as' where a: "rev as = a # as'" using assms(3) by (cases "rev as") auto
    then show ?thesis
      using that assms(4) True cleaned_append [of bs "as' @ [t, ''tenants'', ''v1'']" "[]"] by auto
  next
    case False
    then show ?thesis
      using that assms(4) cleaned_append [of bs "rev as @ [t, ''tenants'', ''v1'']" "[]"]
        cleaned_append [of bs "x # rev as @ [t, ''tenants'', ''v1'']" "[]"] by (cases "x = [] \<or> x = ''.''") auto
  qed
  then have "cleaned [t, ''tenants'', ''v1''] (as @ x # bs) = ''v1'' # ''tenants'' # t # r"
    using assms(4) cleaned_append [of as "[t, ''tenants'', ''v1'']" "x # bs"] by simp
  then show ?thesis using map_segment_tenant [OF assms(1)] by (simp add: readSegments_tenantPath [OF assms(1)] assms(2))
qed

lemma plainBelow_path:
  assumes "ValidTenantName t" "plainBelow below"
  shows "take 3 (readSegments (tenantPath t below)) = [''v1'', ''tenants'', t]" "plainPath (tenantPath t below)"
proof -
  obtain b where b: "below = CHR ''/'' # b" using assms(2) by (auto simp: plainBelow_def HasPrefix_def prefix_def)
  have l: "list_all (\<lambda>s. s \<noteq> [] \<and> s \<noteq> ''.'' \<and> s \<noteq> ''..'' \<and> list_all inSegment s) (Split b (CHR ''/''))"
    using assms(2) by (simp add: plainBelow_def b)
  then have cl: "cleaned [t, ''tenants'', ''v1''] (Split b (CHR ''/'')) = ''v1'' # ''tenants'' # t # Split b (CHR ''/'')"
    using cleaned_append [of "Split b (CHR ''/'')" "[t, ''tenants'', ''v1'']" "[]"] by (simp add: list_all_iff)
  show "take 3 (readSegments (tenantPath t below)) = [''v1'', ''tenants'', t]"
    using map_segment_tenant [OF assms(1)] by (simp add: b readSegments_tenantPath [OF assms(1)] cl)
  have "x \<in> set (Join ss ''/'') \<Longrightarrow> list_all (list_all inSegment) ss \<Longrightarrow> inSegment x \<or> x = CHR ''/''" for x ss
    by (induction ss "''/''" rule: Join.induct) (auto simp: list_all_iff)
  from this [of _ "Split b (CHR ''/'')"] l have "x \<in> set b \<Longrightarrow> inSegment x \<or> x = CHR ''/''" for x
    by (auto simp: list_all_iff)
  then have "plainPath b" using not_inSegment by (auto simp: plainPath_def)
  then show "plainPath (tenantPath t below)" using plainPath_tenantPath [OF assms(1)] b by blast
qed

lemma escaped_path:
  assumes "ValidTenantName t" "list_all inSegment a" "a \<noteq> []" "a \<noteq> ''.''" "a \<noteq> ''..''"
  shows "take 3 (readSegments (tenantPath t (CHR ''/'' # a @ CHR ''/'' # PathEscape v))) = [''v1'', ''tenants'', t]"
    "plainPath (tenantPath t (CHR ''/'' # a @ CHR ''/'' # PathEscape v))"
proof -
  note n = no_slash [OF assms(2)] PathEscape_no_slash [of v]
  have "Split (a @ CHR ''/'' # PathEscape v) (CHR ''/'') = [a] @ PathEscape v # []"
    using n by (simp add: Split_append Split_no_sep)
  then show "take 3 (readSegments (tenantPath t (CHR ''/'' # a @ CHR ''/'' # PathEscape v))) = [''v1'', ''tenants'', t]"
    by (rule tenantPath_confined [OF assms(1)]) (use assms in simp_all)
  show "plainPath (tenantPath t (CHR ''/'' # a @ CHR ''/'' # PathEscape v))"
    using n by (intro plainPath_tenantPath [OF assms(1)]) (simp add: plainPath_def)
qed

lemma residue_path:
  assumes "ValidTenantName t"
  shows "take 3 (readSegments (tenantPath t (''/apps/'' @ PathEscape v @ ''/residue''))) = [''v1'', ''tenants'', t]"
    "plainPath (tenantPath t (''/apps/'' @ PathEscape v @ ''/residue''))"
proof -
  note n = PathEscape_no_slash [of v]
  have "Split (PathEscape v @ ''/residue'') (CHR ''/'') = [PathEscape v, ''residue'']"
    using n by (simp add: Split_append Split_no_sep)
  then have "Split (''apps/'' @ PathEscape v @ ''/residue'') (CHR ''/'') = [''apps''] @ PathEscape v # [''residue'']"
    by simp
  from tenantPath_confined [OF assms this]
  show "take 3 (readSegments (tenantPath t (''/apps/'' @ PathEscape v @ ''/residue''))) = [''v1'', ''tenants'', t]" by simp
  show "plainPath (tenantPath t (''/apps/'' @ PathEscape v @ ''/residue''))"
    using plainPath_tenantPath [OF assms, of "''apps/'' @ PathEscape v @ ''/residue''"] n by (simp add: plainPath_def)
qed

lemma extensionPath_Some:
  assumes "extensionPath vars pre = Some path"
  obtains g r where "path = pre @ ''/extensions/'' @ g @ ''/'' @ r" "list_all inSegment g" "list_all inSegment r"
    "g \<noteq> []" "g \<noteq> ''.''" "g \<noteq> ''..''" "r \<noteq> []" "r \<noteq> ''.''" "r \<noteq> ''..''"
proof -
  let ?g = "PathValue vars ''group''" and ?r = "PathValue vars ''resource''"
  have e: "extensionGroup ?g" "extensionResource ?r" "path = pre @ ''/extensions/'' @ PathEscape ?g @ ''/'' @ PathEscape ?r"
    using assms by (auto simp: extensionPath_def Let_def split: if_splits)
  have d: "inSegment x" if "dns_char x \<or> x = CHR ''-'' \<or> x = CHR ''.''" for x
    using that by (auto simp: dns_char_def inSegment_def is_alnum_def)
  have p: "list_all inSegment ?g" "list_all inSegment ?r"
    using e d by (auto simp: extensionGroup_def extensionResource_def dns_label_def list_all_iff)
  have "\<not> dns_char CHR ''.''" by code_simp
  then have "?g \<noteq> []" "?g \<noteq> ''.''" "?g \<noteq> ''..''" "?r \<noteq> []" "?r \<noteq> ''.''" "?r \<noteq> ''..''"
    using e by (auto simp: extensionGroup_def extensionResource_def dns_label_def)
  then show ?thesis using that [of ?g ?r] e(3) p PathEscape_plain by metis
qed

lemma extension_path:
  assumes "extensionPath vars pre = Some path"
  shows "pre = tenantPath t [] \<Longrightarrow> ValidTenantName t \<Longrightarrow> take 3 (readSegments path) = [''v1'', ''tenants'', t] \<and> plainPath path"
    "pre = ''/v1'' \<Longrightarrow> take 2 (readSegments path) = [''v1'', ''extensions''] \<and> plainPath path"
proof -
  obtain g r where p: "path = pre @ ''/extensions/'' @ g @ ''/'' @ r" "list_all inSegment g" "list_all inSegment r"
    "g \<noteq> []" "g \<noteq> ''.''" "g \<noteq> ''..''" "r \<noteq> []" "r \<noteq> ''.''" "r \<noteq> ''..''"
    using extensionPath_Some [OF assms] by blast
  have "Split (g @ ''/'' @ r) (CHR ''/'') = [g, r]"
    using no_slash [OF p(2)] no_slash [OF p(3)] by (simp add: Split_append Split_no_sep)
  then have sp: "Split (''/extensions/'' @ g @ ''/'' @ r) (CHR ''/'') = [[], ''extensions'', g, r]" by simp
  {
    assume t: "pre = tenantPath t []" "ValidTenantName t"
    have b: "plainBelow (''/extensions/'' @ g @ ''/'' @ r)"
      unfolding plainBelow_def sp using p(2-) by (auto simp: HasPrefix_def inSegment_def is_alnum_def is_lower_def)
    have "path = tenantPath t (''/extensions/'' @ g @ ''/'' @ r)" using p(1) t(1) by (simp add: tenantPath_def)
    then show "take 3 (readSegments path) = [''v1'', ''tenants'', t] \<and> plainPath path"
      using plainBelow_path [OF t(2) b] by simp
  }
  assume "pre = ''/v1''"
  then have pe: "path = ''/v1'' @ (''/extensions/'' @ g @ ''/'' @ r)" using p(1) by simp
  have "Split path (CHR ''/'') = [[], ''v1'', ''extensions'', g, r]" using sp unfolding pe by simp
  moreover have "segment ''v1'' = ''v1''" "segment ''extensions'' = ''extensions''" by code_simp+
  ultimately have "take 2 (readSegments path) = [''v1'', ''extensions'']" using p by (simp add: readSegments_def)
  moreover have "plainPath path" using no_slash [OF p(2)] no_slash [OF p(3)] by (simp add: plainPath_def pe)
  ultimately show "take 2 (readSegments path) = [''v1'', ''extensions''] \<and> plainPath path" by blast
qed

subsection \<open>What is asked of the operator\<close>

definition windowOnly :: "query \<Rightarrow> bool" where
  "windowOnly q \<longleftrightarrow> fst ` set q \<subseteq> {''from'', ''to'', ''stepSeconds''}"

lemma windowOnly_update: "windowOnly q \<Longrightarrow> n \<in> set [''from'', ''to'', ''stepSeconds''] \<Longrightarrow> windowOnly (AList.update n v q)"
  unfolding windowOnly_def dom_update by simp

lemma allowedQuery_window:
  assumes "windowQuery allowed"
  shows "windowOnly (allowedQuery q allowed)"
proof -
  let ?f = "\<lambda>name out. if queryGet q name \<noteq> [] then AList.update name (queryGet q name) out else out"
  have "windowOnly out \<Longrightarrow> windowQuery allowed \<Longrightarrow> windowOnly (fold ?f allowed out)" for out
  proof (induction allowed arbitrary: out)
    case (Cons n ns)
    have "windowOnly (?f n out)" using Cons.prems windowOnly_update unfolding windowQuery_def by simp
    then show ?case using Cons by (simp add: windowQuery_def)
  qed simp
  then show ?thesis using assms by (simp add: allowedQuery_def windowOnly_def)
qed

lemma relayed_asks: "relayed op rid q path allowed = (out, asked) \<Longrightarrow> asked = [(path, allowedQuery q allowed)]"
  by (simp add: relayed_def Let_def)

lemma windowOnly_Nil [simp]: "windowOnly []" "windowQuery []"
  by (simp_all add: windowOnly_def windowQuery_def)

lemma handle_tenant:
  assumes "readsTenant ro" "handle cfg catalogue op check rid r vars c (ro_Handler ro) = (out, asked)" "(path, q) \<in> set asked"
    and "ValidTenantName (ca_tenant c)"
  shows "take 3 (readSegments path) = [''v1'', ''tenants'', ca_tenant c]" "plainPath path" "windowOnly q" "asked = [(path, q)]"
proof -
  note t = assms(4)
  have l: "list_all inSegment ''backups''" "list_all inSegment ''restores''" "plainBelow ''/resources/plans''" by code_simp+
  have plans: "plansPath (ca_tenant c) = tenantPath (ca_tenant c) ''/resources/plans''"
    by (simp add: plansPath_def tenantPath_def)
  have "take 3 (readSegments path) = [''v1'', ''tenants'', ca_tenant c] \<and> plainPath path \<and> windowOnly q \<and> asked = [(path, q)]"
  proof (cases "ro_Handler ro")
    case (relay below allowed)
    then have "plainBelow below" "windowQuery allowed" using assms(1) by (simp_all add: readsTenant_def)
    then show ?thesis using relay assms(2,3) plainBelow_path [OF t] allowedQuery_window
      by (auto simp: handle_def Let_def dest: relayed_asks)
  next
    case appResidue
    then show ?thesis using assms(2,3) residue_path [OF t] by (auto simp: handle_def Let_def allowedQuery_def dest!: relayed_asks)
  next
    case resourcePlans
    then show ?thesis using assms(2,3) plainBelow_path [OF t l(3)] by (auto simp: handle_def Let_def servePlans_def plans)
  next
    case tenantBackup
    then show ?thesis using assms(2,3) escaped_path [OF t l(1)] by (auto simp: handle_def Let_def allowedQuery_def dest!: relayed_asks)
  next
    case tenantRestore
    then show ?thesis using assms(2,3) escaped_path [OF t l(2)] by (auto simp: handle_def Let_def allowedQuery_def dest!: relayed_asks)
  next
    case tenantExtensionObjects
    then show ?thesis using assms(2,3) extension_path(1) [OF _ refl t]
      by (auto simp: handle_def Let_def allowedQuery_def split: option.splits dest!: relayed_asks)
  qed (use assms(1) in \<open>simp_all add: readsTenant_def\<close>)
  then show "take 3 (readSegments path) = [''v1'', ''tenants'', ca_tenant c]" "plainPath path" "windowOnly q" "asked = [(path, q)]"
    by blast+
qed

lemma handle_cluster:
  assumes "readsCluster ro" "handle cfg catalogue op check rid r vars c (ro_Handler ro) = (out, asked)" "(path, q) \<in> set asked"
  shows "take 2 (readSegments path) \<noteq> [''v1'', ''tenants'']" "plainPath path" "windowOnly q" "asked = [(path, q)]"
    "map_of delegatedRoutes (ro_Pattern ro) \<noteq> None \<Longrightarrow> path \<in> {''/v1/resources'', ''/v1/resources/report''}"
proof -
  have l: "take 2 (readSegments ''/v1/resources'') \<noteq> [''v1'', ''tenants'']" "take 2 (readSegments ''/v1/resources/report'') \<noteq> [''v1'', ''tenants'']"
    "windowQuery [''from'', ''to'']" by code_simp+
  have pb: "plainPath p" if "plainBelow p" for p
  proof -
    have "plainPath (tenantPath ''a'' p)" by (rule plainBelow_path(2) [OF _ that]) code_simp
    then show ?thesis by (simp add: plainPath_def tenantPath_def)
  qed
  have "take 2 (readSegments path) \<noteq> [''v1'', ''tenants''] \<and> plainPath path \<and> windowOnly q \<and> asked = [(path, q)] \<and>
      (map_of delegatedRoutes (ro_Pattern ro) \<noteq> None \<longrightarrow> path \<in> {''/v1/resources'', ''/v1/resources/report''})"
  proof (cases "ro_Handler ro")
    case (relayCluster p)
    then show ?thesis using assms pb by (auto simp: handle_def Let_def allowedQuery_def readsCluster_def dest!: relayed_asks)
  next
    case clusterExtensionObjects
    then show ?thesis using assms extension_path(2) [OF _ refl]
      by (auto simp: handle_def Let_def allowedQuery_def readsCluster_def split: option.splits dest!: relayed_asks)
  next
    case clusterResources
    then show ?thesis using assms l(1) by (auto simp: handle_def Let_def serveStates_def plainPath_def)
  next
    case clusterResourceReport
    then show ?thesis using assms l(2) allowedQuery_window [OF l(3)] by (auto simp: handle_def Let_def plainPath_def dest!: relayed_asks)
  qed (use assms(1) in \<open>simp_all add: readsCluster_def\<close>)
  then show "take 2 (readSegments path) \<noteq> [''v1'', ''tenants'']" "plainPath path" "windowOnly q" "asked = [(path, q)]"
    "map_of delegatedRoutes (ro_Pattern ro) \<noteq> None \<Longrightarrow> path \<in> {''/v1/resources'', ''/v1/resources/report''}"
    by blast+
qed

subsection \<open>Properties\<close>

text \<open>
  C13. What a caller can have asked of the operator. For any request, at most one question is put
  to the operator's listener, and only after the caller was authenticated and the store said, of
  their account or of their realm's holder of a role, that they may read the very tenant the
  path asked of the operator is about, or audit or decide for this cluster, where the path asked is
  about no tenant. That holds for the path as a router reads it, cleaned of dot segments and
  unescaped, whatever the caller put into its names; it has no query but the window of time. A
  token a component obtained by vouching reaches the two reads of the cluster's resources alone.
\<close>

theorem usher_reads_confined:
  assumes "serve cfg catalogue op auth check random r = (rid, out, asked)" "(path, q) \<in> set asked"
  shows "asked = [(path, q)] \<and> plainPath path \<and> windowOnly q \<and>
     (\<exists>ident rel object. auth (rq_Authorization r) = Inr ident \<and> mayDo check ident rel object \<and>
        (Delegated ident \<longrightarrow> path \<in> {''/v1/resources'', ''/v1/resources/report''}) \<and>
        ((\<exists>t. ValidTenantName t \<and> object = Tenant t \<and> rel \<in> {''can_view'', ''can_expose''} \<and>
            take 3 (readSegments path) = [''v1'', ''tenants'', t]) \<or>
         object = Cluster (us_Cluster cfg) \<and> us_Cluster cfg \<noteq> [] \<and> take 2 (readSegments path) \<noteq> [''v1'', ''tenants''] \<and>
           rel \<in> {''can_audit'', ''can_approve'', ''can_approve_perimeter'', ''can_configure''}))"
proof -
  obtain ro vars where ro: "routeFor (usherRoutes cfg) r = Some (ro, vars)"
    using assms by (auto simp: serve_def Let_def split: if_splits option.splits prod.splits)
  obtain out' where g: "guardedAny cfg catalogue op auth check rid r vars ro = (out', asked)"
    using assms ro by (auto simp: serve_def Let_def split: if_splits prod.splits)
  obtain cl where a: "Authorize gate auth check (rq_Authorization r) (ro_Pattern ro) (\<lambda>_. ro_Relations ro) (objectOf cfg vars (ro_Object ro)) = Inr cl"
    using g assms(2) by (auto simp: guardedAny_def Let_def split: sum.splits option.splits)
  define c where "c = \<lparr>ca_user = cl_User cl, ca_holder = cl_Holder cl, ca_tenant = PathValue vars ''t''\<rparr>"
  have h: "handle cfg catalogue op check rid r vars c (ro_Handler ro) = (out', asked)"
    using g a by (simp add: guardedAny_def c_def)
  note A = Authorize_Inr [OF a]
  have m: "MayCall (cl_Ident cl) (ro_Pattern ro)" using A(2) by (simp add: gate_def)
  have "ro_Handler ro \<noteq> tenantTiles" using h assms(2) by (auto simp: handle_def Let_def)
  then consider (T) "readsTenant ro" | (C) "us_Cluster cfg \<noteq> []" "readsCluster ro"
    using usherRoutes_cases routeFor_Some [OF ro] by blast
  then show ?thesis
  proof cases
    case T
    then have v: "ValidTenantName (ca_tenant c)" "cl_Object cl = Tenant (ca_tenant c)"
      using A(3) by (auto simp: readsTenant_def objectOf_def Let_def c_def split: if_splits)
    have "\<not> Delegated (cl_Ident cl)" "cl_Relation cl \<in> {''can_view'', ''can_expose''}"
      using undelegated [OF m] readsTenantD [OF T] A(4) by blast+
    then have "\<exists>t. ValidTenantName t \<and> cl_Object cl = Tenant t \<and> cl_Relation cl \<in> {''can_view'', ''can_expose''} \<and>
        take 3 (readSegments path) = [''v1'', ''tenants'', t]" "\<not> Delegated (cl_Ident cl)"
      using handle_tenant(1) [OF T h assms(2) v(1)] v by blast+
    then show ?thesis using handle_tenant(2-4) [OF T h assms(2) v(1)] A(1,5) by blast
  next
    case C
    then have o: "cl_Object cl = Cluster (us_Cluster cfg)"
      using A(3) by (auto simp: readsCluster_def objectOf_def Let_def split: if_splits)
    have "Delegated (cl_Ident cl) \<longrightarrow> path \<in> {''/v1/resources'', ''/v1/resources/report''}"
      using m handle_cluster(5) [OF C(2) h assms(2)] by (auto simp: MayCall_def split: option.splits)
    moreover have "cl_Relation cl \<in> {''can_audit'', ''can_approve'', ''can_approve_perimeter'', ''can_configure''}"
      using readsClusterD [OF C(2)] A(4) by blast
    ultimately show ?thesis using handle_cluster(1-4) [OF C(2) h assms(2)] A(1) A(5) [unfolded o] C(1) by blast
  qed
qed

text \<open>A store that answers gives every question the answer \<open>mayDo\<close> names.\<close>

lemma CheckAs_answers:
  assumes "\<And>u rel object. \<exists>b. check u rel object = Inr b" "User (au_Subject ident) = Inr user"
  shows "CheckAs check user (holderOf ident) rel object = Inr (mayDo check ident rel object)"
proof -
  obtain b where b: "check user rel object = Inr b" using assms(1) by blast
  show ?thesis
  proof (cases "HolderUser (au_Realm ident) (au_Subject ident)")
    case (Inl e)
    then show ?thesis using b assms(2) by (simp add: CheckAs_def mayDo_def holderOf_def)
  next
    case (Inr holder)
    moreover have "holder \<noteq> []" using Inr by (auto simp: HolderUser_def split: if_splits sum.splits)
    moreover obtain b' where "check holder rel object = Inr b'" using assms(1) by blast
    ultimately show ?thesis using b assms(2) by (simp add: CheckAs_def mayDo_def holderOf_def)
  qed
qed

lemma tileShown_answers: "(\<And>rel. ask rel = Inr (f rel)) \<Longrightarrow> tileShown ask rels = Inr (\<exists>rel. rel \<in> set rels \<and> f rel)"
  by (induction rels) (auto split: bool.split)

lemma shownTiles_answers:
  assumes "\<And>rel object. ask rel object = Inr (f rel object)"
  shows "shownTiles ask tenant ts =
    Inr (map tileOut (filter (\<lambda>x. inTenant (tl_Object x) tenant \<and> (\<exists>rel. rel \<in> set (tl_AnyOf x) \<and> f rel (tl_Object x))) ts))"
proof (induction ts)
  case (Cons x ts)
  have "tileShown (\<lambda>rel. ask rel (tl_Object x)) (tl_AnyOf x) = Inr (\<exists>rel. rel \<in> set (tl_AnyOf x) \<and> f rel (tl_Object x))"
    by (rule tileShown_answers) (rule assms)
  then show ?case using Cons by auto
qed simp

text \<open>A tile about a tenant or about an app is on that tenant's desktop and on no other.\<close>

lemma inTenant_own:
  assumes "ValidTenantName t" "ValidTenantName t'"
  shows "inTenant (Tenant t') t \<longleftrightarrow> t' = t" "inTenant (App t' p) t \<longleftrightarrow> t' = t"
proof -
  show "inTenant (Tenant t') t \<longleftrightarrow> t' = t" by (simp add: inTenant_def Tenant_def HasPrefix_def)
  have "CHR ''/'' \<notin> set t" "CHR ''/'' \<notin> set t'"
    using assms ValidTenantName_segment(1) no_slash by blast+
  then have "prefix (t @ ''/'') (t' @ ''/'' @ p) \<longleftrightarrow> t' = t"
    by (auto simp: prefix_def append_eq_append_conv2 append_eq_Cons_conv Cons_eq_append_conv)
  then show "inTenant (App t' p) t \<longleftrightarrow> t' = t" by (simp add: inTenant_def App_def HasPrefix_def)
qed

lemma tiles_route:
  assumes "ValidTenantName t" "rq_Method r = ''GET''" "rq_Path r = ''/v1/tenants/'' @ t @ ''/tiles''"
  shows "matchPattern ''GET /healthz'' (rq_Method r) (rq_Path r) = None"
    "routeFor (usherRoutes cfg) r = Some (guarded ''GET /v1/tenants/{t}/tiles'' ''can_enter'' tenantObject tenantTiles, [(''t'', t)])"
proof -
  note v = ValidTenantName_segment [OF assms(1)]
  have "Split (t @ ''/tiles'') (CHR ''/'') = [t, ''tiles'']"
    using no_slash [OF v(1)] by (simp add: Split_append Split_no_sep)
  then have "Split (rq_Path r) (CHR ''/'') = [[], ''v1'', ''tenants'', t, ''tiles'']" by (simp add: assms(3))
  then have ro: "routed (rq_Path r) = Some [''v1'', ''tenants'', t, ''tiles'']" using v by (simp add: routed_def)
  have c: "Cut ''GET /healthz'' (CHR '' '') = (''GET'', ''/healthz'', True)"
    "Cut ''GET /v1/tenants/{t}/tiles'' (CHR '' '') = (''GET'', ''/v1/tenants/{t}/tiles'', True)" by code_simp+
  have s: "segment ''v1'' = ''v1''" "segment ''tenants'' = ''tenants''" "segment ''tiles'' = ''tiles''" "segment t = t"
    using segment_plain [OF v(1)] by (code_simp, code_simp, code_simp, simp)
  have w: "isWildcard ''{t}''" "\<not> isWildcard ''v1''" "\<not> isWildcard ''tenants''" "\<not> isWildcard ''tiles''" "\<not> isWildcard ''healthz''"
    by code_simp+
  have "t \<noteq> ''/''" using no_slash [OF v(1)] by auto
  then have m: "matchPattern ''GET /v1/tenants/{t}/tiles'' (rq_Method r) (rq_Path r) = Some [(''t'', t)]"
    by (simp add: matchPattern_def c(2) ro assms(2) s w)
  show "matchPattern ''GET /healthz'' (rq_Method r) (rq_Path r) = None"
    by (simp add: matchPattern_def c(1) ro w s)
  show "routeFor (usherRoutes cfg) r = Some (guarded ''GET /v1/tenants/{t}/tiles'' ''can_enter'' tenantObject tenantTiles, [(''t'', t)])"
    using m by (simp add: usherRoutes_def guarded_def)
qed

text \<open>
  C14. The tiles are the caller's. A person signed in who asks for a tenant's desktop is refused
  unless they may enter that tenant; then the answer is, in the catalogue's order, exactly the tiles
  that belong on this tenant's desktop and of which they hold one of the relations on the tile's own
  object, and the operator is asked nothing.
\<close>

theorem tiles_are_the_callers:
  assumes "\<And>u rel object. \<exists>b. check u rel object = Inr b"
    and "auth (rq_Authorization r) = Inr ident" "User (au_Subject ident) = Inr user" "\<not> Delegated ident"
    and "ValidTenantName t" "rq_Method r = ''GET''" "rq_Path r = ''/v1/tenants/'' @ t @ ''/tiles''"
  shows "serve cfg (Some cat) op auth check random r =
     (RequestID random (rq_RequestID r),
      Some (if mayDo check ident ''can_enter'' (Tenant t)
        then writeJSON 200 (TilesBody t
          (map tileOut (filter (\<lambda>x. inTenant (tl_Object x) t \<and> (\<exists>rel. rel \<in> set (tl_AnyOf x) \<and> mayDo check ident rel (tl_Object x)))
            (ct_Tiles cat)))
          (appStore cfg (ct_AppStore cat)))
        else fail (RequestID random (rq_RequestID r)) 403 ''forbidden''), [])"
proof -
  note ask = CheckAs_answers [OF assms(1,3)]
  note tiles = shownTiles_answers [of "CheckAs check user (holderOf ident)" "mayDo check ident", OF ask]
  have "MayCall ident pattern" for pattern using assms(4) by (simp add: MayCall_def)
  then show ?thesis
    using tiles_route [OF assms(5-7)] assms(2,3,5) tiles
    by (simp add: serve_def guardedAny_def guarded_def Authorize_def authenticate_def gate_def objectOf_def PathValue_def
        ask handle_def serveTiles_def Let_def)
qed

text \<open>A tenant's member, who may view the tenant and enter one of two apps.\<close>

definition sampleUsher :: usher_config where
  "sampleUsher = \<lparr>us_Cluster = ''c1'', us_Lifecycle = True, us_UsageStatisticsEnabled = True\<rparr>"

definition sampleMember :: authn_identity where
  "sampleMember = \<lparr>au_Subject = ''u1'', au_Realm = ''demo'', au_Issuer = ''https://auth.example.org/realms/demo'', au_SessionID = [],
     au_Client = ''desktop'', au_Name = ''Ann'', au_Email = [], au_Scopes = []\<rparr>"

definition sampleAuth :: "string \<Rightarrow> string + authn_identity" where
  "sampleAuth h = (if h = ''Bearer a'' then Inr sampleMember else Inl ''no token'')"

definition sampleGraph :: "string \<Rightarrow> string \<Rightarrow> string \<Rightarrow> string + bool" where
  "sampleGraph u rel object = Inr (u = ''user:u1'' \<and> (rel, object) \<in> set
     [(''can_enter'', ''tenant:demo''), (''can_view'', ''tenant:demo''), (''can_use'', ''app:demo/wiki'')])"

definition sampleListener :: "(string, nat, nat) operator" where
  "sampleListener = \<lparr>op_Get = (\<lambda>path q. Inr (200, ''{}'')), op_detail = (\<lambda>_. None), op_plans = (\<lambda>_. None), op_states = (\<lambda>_. None)\<rparr>"

definition sampleTile :: "string \<Rightarrow> string \<Rightarrow> tile" where
  "sampleTile name object = \<lparr>tl_Name = name, tl_DisplayName = name, tl_DisplayNames = [], tl_Description = [], tl_Icon = [],
     tl_URL = ''https://wiki.demo.example.org/'', tl_Object = object, tl_AnyOf = [''can_use''], tl_Preopen = False\<rparr>"

definition sampleTiles :: tile_catalogue where
  "sampleTiles = \<lparr>ct_Tiles = [sampleTile ''chat'' ''app:demo/chat'', sampleTile ''wiki'' ''app:demo/wiki'', sampleTile ''other'' ''app:acme/wiki''],
     ct_AppStore = None\<rparr>"

definition sampleAsk :: "string \<Rightarrow> usher_request" where
  "sampleAsk path = \<lparr>rq_Method = ''GET'', rq_Path = path, rq_Query = [(''to'', [''9'']), (''tenant'', [''acme''])],
     rq_Authorization = ''Bearer a'', rq_RequestID = ''request-1''\<rparr>"

lemma sample_climb:
  "serve sampleUsher (Some sampleTiles) sampleListener sampleAuth sampleGraph [] (sampleAsk ''/v1/tenants/demo/backups/%2e%2e'') =
     (''request-1'', Some \<lparr>rs_Code = 200, rs_Headers = jsonHeaders, rs_Body = Relayed ''{}''\<rparr>, [(''/v1/tenants/demo/backups/..'', [])])"
  by code_simp

theorem usher_reads_confined_witness:
  "\<exists>path. snd (snd (serve sampleUsher (Some sampleTiles) sampleListener sampleAuth sampleGraph []
       (sampleAsk ''/v1/tenants/demo/backups/%2e%2e''))) = [(path, [])] \<and> plainPath path"
  using usher_reads_confined [OF sample_climb, of "''/v1/tenants/demo/backups/..''" "[]"] unfolding sample_climb by simp

theorem tiles_are_the_callers_witness:
  "serve sampleUsher (Some sampleTiles) sampleListener sampleAuth sampleGraph [] (sampleAsk ''/v1/tenants/demo/tiles'') =
     (''request-1'', Some (writeJSON 200 (TilesBody ''demo'' [tileOut (sampleTile ''wiki'' ''app:demo/wiki'')]
        \<lparr>ao_Available = False, ao_Reason = AppStoreReasonNoStore\<rparr>)), [])"
proof -
  have "\<And>u rel object. \<exists>b. sampleGraph u rel object = Inr b" by (simp add: sampleGraph_def)
  moreover have "sampleAuth (rq_Authorization (sampleAsk ''/v1/tenants/demo/tiles'')) = Inr sampleMember"
    "User (au_Subject sampleMember) = Inr ''user:u1''" "\<not> Delegated sampleMember" "ValidTenantName ''demo''" by code_simp+
  moreover have "rq_Method (sampleAsk ''/v1/tenants/demo/tiles'') = ''GET''"
    "rq_Path (sampleAsk ''/v1/tenants/demo/tiles'') = ''/v1/tenants/'' @ ''demo'' @ ''/tiles''" by (simp_all add: sampleAsk_def)
  ultimately have "serve sampleUsher (Some sampleTiles) sampleListener sampleAuth sampleGraph [] (sampleAsk ''/v1/tenants/demo/tiles'') =
     (RequestID [] (rq_RequestID (sampleAsk ''/v1/tenants/demo/tiles'')),
      Some (if mayDo sampleGraph sampleMember ''can_enter'' (Tenant ''demo'')
        then writeJSON 200 (TilesBody ''demo''
          (map tileOut (filter (\<lambda>x. inTenant (tl_Object x) ''demo'' \<and>
             (\<exists>rel. rel \<in> set (tl_AnyOf x) \<and> mayDo sampleGraph sampleMember rel (tl_Object x))) (ct_Tiles sampleTiles)))
          (appStore sampleUsher (ct_AppStore sampleTiles)))
        else fail (RequestID [] (rq_RequestID (sampleAsk ''/v1/tenants/demo/tiles''))) 403 ''forbidden''), [])"
    by (rule tiles_are_the_callers)
  moreover have "RequestID [] (rq_RequestID (sampleAsk ''/v1/tenants/demo/tiles'')) = ''request-1''" by code_simp
  moreover have "appStore sampleUsher (ct_AppStore sampleTiles) = \<lparr>ao_Available = False, ao_Reason = AppStoreReasonNoStore\<rparr>" by code_simp
  moreover have may: "mayDo sampleGraph sampleMember rel object \<longleftrightarrow> (rel, object) \<in> set
     [(''can_enter'', ''tenant:demo''), (''can_view'', ''tenant:demo''), (''can_use'', ''app:demo/wiki'')]" for rel object
  proof -
    have "User (au_Subject sampleMember) = Inr ''user:u1''" "HolderUser (au_Realm sampleMember) (au_Subject sampleMember) = Inr ''user:demo/u1''"
      by code_simp+
    then show ?thesis by (simp add: mayDo_def sampleGraph_def)
  qed
  moreover have "inTenant ''app:demo/chat'' ''demo''" "inTenant ''app:demo/wiki'' ''demo''" "\<not> inTenant ''app:acme/wiki'' ''demo''" by code_simp+
  ultimately show ?thesis by (simp add: Tenant_def sampleTiles_def sampleTile_def)
qed

end
