(* ===== verification/Spec2Isabelle.thy ===== *)
theory Spec2Isabelle
  imports Rights_Roles Rights_Tenants Rights_Apps Bouncer_Edge Aliases Tenant_Hosts Tenant_Admission Rights_Restore Membership_Events Usher
begin

text \<open>
  Gentian OS, a Kubernetes operator in Go that turns a cluster into a platform of tenants.
\<close>

end
